(* ===== verification/Prelude.thy ===== *)
theory Prelude
  imports Main "HOL-Library.Word"
begin

text \<open>
  Shared vocabulary of the development: the result of a Go call (a value, a returned
  error or a panic), errors as the wrapped chains that \<open>github.com/pkg/errors\<close>,
  \<open>fmt.Errorf\<close> and the oVirt client build, and the state-passing effect type
  \<open>go\<close> in which every operation of the program is written. The lemmas here are the
  ones every component uses: how a sequence of calls succeeds, fails or panics, and how
  a loop that stops at the first error behaves.
\<close>

named_theorems go_defs \<open>unfolding of the effect combinators on a concrete program\<close>

section \<open>Errors\<close>

text \<open>
  One constructor per concrete error type the program meets: a plain message
  (\<open>errors.New\<close>, \<open>fmt.Errorf\<close> without \<open>%w\<close>), a message in front of a cause
  (\<open>errors.Wrap\<close>), a rendered message that keeps its cause (\<open>fmt.Errorf\<close> with
  \<open>%w\<close>), the oVirt client's \<open>engineError\<close> (code, message, cause), the oVirt SDK's
  not-found and authentication errors, a Kubernetes API status (reason, code, message) and
  the machine controller's \<open>MachineError\<close> (reason, message) and \<open>RequeueAfterError\<close> (the delay
  in seconds, the message).
\<close>

type_synonym error_code = string

datatype gerr =
    ErrorString string
  | Wrapped string gerr
  | WrapError string gerr
  | EngineError error_code string "gerr option"
  | SdkNotFoundError string
  | SdkAuthError string
  | ApiStatus string int string
  | MachineError string string
  | RequeueAfterError int string

fun error_string :: "gerr \<Rightarrow> string" where
  "error_string (ErrorString m) = m"
| "error_string (Wrapped m e) = m @ '': '' @ error_string e"
| "error_string (WrapError m e) = m"
| "error_string (EngineError c m k) = c @ '': '' @ m"
| "error_string (SdkNotFoundError m) = m"
| "error_string (SdkAuthError m) = m"
| "error_string (ApiStatus r c m) = m"
| "error_string (MachineError r m) = m"
| "error_string (RequeueAfterError secs m) = m"

text \<open>
  \<open>errors.Wrap\<close> and \<open>errors.Wrapf\<close> return nil for a nil error: wrapping never turns
  success into failure.
\<close>

definition Wrap :: "gerr option \<Rightarrow> string \<Rightarrow> gerr option" where
  "Wrap err m = (case err of None \<Rightarrow> None | Some e \<Rightarrow> Some (Wrapped m e))"

lemma Wrap_simps [simp]:
  "Wrap None m = None"
  "Wrap (Some e) m = Some (Wrapped m e)"
  by (simp_all add: Wrap_def)

section \<open>Results and effects\<close>

datatype go_panic = NilDeref | IndexOutOfRange | LibraryPanic gerr

datatype 'a res = Val 'a | Fail gerr | Crash go_panic

type_synonym ('s, 'a) go = "'s \<Rightarrow> 'a res \<times> 's"

definition ret :: "'a \<Rightarrow> ('s, 'a) go" where
  [go_defs]: "ret x = (\<lambda>s. (Val x, s))"

definition fail :: "gerr \<Rightarrow> ('s, 'a) go" where
  [go_defs]: "fail e = (\<lambda>s. (Fail e, s))"

definition crash :: "go_panic \<Rightarrow> ('s, 'a) go" where
  [go_defs]: "crash p = (\<lambda>s. (Crash p, s))"

definition bind :: "('s, 'a) go \<Rightarrow> ('a \<Rightarrow> ('s, 'b) go) \<Rightarrow> ('s, 'b) go" where
  [go_defs]: "bind m k = (\<lambda>s. case m s of
       (Val x, s') \<Rightarrow> k x s'
     | (Fail e, s') \<Rightarrow> (Fail e, s')
     | (Crash p, s') \<Rightarrow> (Crash p, s'))"

text \<open>A pure result, and a Go \<open>error\<close> value that may be nil, as effects.\<close>

definition lift_res :: "'a res \<Rightarrow> ('s, 'a) go" where
  [go_defs]: "lift_res r = (\<lambda>s. (r, s))"

definition lift_err :: "gerr option \<Rightarrow> ('s, unit) go" where
  "lift_err eo = (case eo of None \<Rightarrow> ret () | Some e \<Rightarrow> fail e)"

text \<open>Following a pointer: nil panics.\<close>

definition deref :: "'a option \<Rightarrow> ('s, 'a) go" where
  "deref p = (case p of None \<Rightarrow> crash NilDeref | Some x \<Rightarrow> ret x)"

text \<open>
  \<open>if err := m; err != nil { return f(err) }\<close>, and \<open>err := m\<close> with the error kept
  for inspection. Neither stops a panic.
\<close>

definition map_err :: "(gerr \<Rightarrow> gerr) \<Rightarrow> ('s, 'a) go \<Rightarrow> ('s, 'a) go" where
  "map_err f m = (\<lambda>s. case m s of
       (Val x, s') \<Rightarrow> (Val x, s')
     | (Fail e, s') \<Rightarrow> (Fail (f e), s')
     | (Crash p, s') \<Rightarrow> (Crash p, s'))"

definition annotate :: "string \<Rightarrow> ('s, 'a) go \<Rightarrow> ('s, 'a) go" where
  "annotate msg m = map_err (Wrapped msg) m"

definition attempt :: "('s, 'a) go \<Rightarrow> ('s, gerr + 'a) go" where
  "attempt m = (\<lambda>s. case m s of
       (Val x, s') \<Rightarrow> (Val (Inr x), s')
     | (Fail e, s') \<Rightarrow> (Val (Inl e), s')
     | (Crash p, s') \<Rightarrow> (Crash p, s'))"

definition gets :: "('s \<Rightarrow> 'a) \<Rightarrow> ('s, 'a) go" where
  [go_defs]: "gets f = (\<lambda>s. (Val (f s), s))"

definition modify :: "('s \<Rightarrow> 's) \<Rightarrow> ('s, unit) go" where
  [go_defs]: "modify f = (\<lambda>s. (Val (), f s))"

text \<open>\<open>for _, x := range xs { if err := f(x); err != nil { return err } }\<close>\<close>

primrec for_each :: "('b \<Rightarrow> ('s, unit) go) \<Rightarrow> 'b list \<Rightarrow> ('s, unit) go" where
  "for_each f [] = ret ()"
| "for_each f (x # xs) = bind (f x) (\<lambda>_. for_each f xs)"

text \<open>The pure counterpart of \<open>bind\<close>, for the option builders.\<close>

fun res_bind :: "'a res \<Rightarrow> ('a \<Rightarrow> 'b res) \<Rightarrow> 'b res" where
  "res_bind (Val x) k = k x"
| "res_bind (Fail e) k = Fail e"
| "res_bind (Crash p) k = Crash p"

subsection \<open>Running a sequence\<close>

lemma ret_apply [simp]: "ret x s = (Val x, s)"
  by (simp add: ret_def)

lemma fail_apply [simp]: "fail e s = (Fail e, s)"
  by (simp add: fail_def)

lemma crash_apply [simp]: "crash p s = (Crash p, s)"
  by (simp add: crash_def)

lemma gets_apply [simp]: "gets f s = (Val (f s), s)"
  by (simp add: gets_def)

lemma modify_apply [simp]: "modify f s = (Val (), f s)"
  by (simp add: modify_def)

lemma lift_res_apply [simp]: "lift_res r s = (r, s)"
  by (simp add: lift_res_def)

lemma lift_err_simps [simp]:
  "lift_err None = ret ()"
  "lift_err (Some e) = fail e"
  by (simp_all add: lift_err_def)

lemma deref_simps [simp]:
  "deref None = crash NilDeref"
  "deref (Some x) = ret x"
  by (simp_all add: deref_def)

lemma bind_run [simp]:
  "m s = (Val x, s') \<Longrightarrow> bind m k s = k x s'"
  "m s = (Fail e, s') \<Longrightarrow> bind m k s = (Fail e, s')"
  "m s = (Crash p, s') \<Longrightarrow> bind m k s = (Crash p, s')"
  by (simp_all add: bind_def)

lemma map_err_run [simp]:
  "m s = (Val x, s') \<Longrightarrow> map_err f m s = (Val x, s')"
  "m s = (Fail e, s') \<Longrightarrow> map_err f m s = (Fail (f e), s')"
  "m s = (Crash p, s') \<Longrightarrow> map_err f m s = (Crash p, s')"
  by (simp_all add: map_err_def)

lemma annotate_run [simp]:
  "m s = (Val x, s') \<Longrightarrow> annotate msg m s = (Val x, s')"
  "m s = (Fail e, s') \<Longrightarrow> annotate msg m s = (Fail (Wrapped msg e), s')"
  "m s = (Crash p, s') \<Longrightarrow> annotate msg m s = (Crash p, s')"
  by (simp_all add: annotate_def)

lemma attempt_run [simp]:
  "m s = (Val x, s') \<Longrightarrow> attempt m s = (Val (Inr x), s')"
  "m s = (Fail e, s') \<Longrightarrow> attempt m s = (Val (Inl e), s')"
  "m s = (Crash p, s') \<Longrightarrow> attempt m s = (Crash p, s')"
  by (simp_all add: attempt_def)

lemma bind_ret [simp]: "bind (ret x) k = k x"
  by (simp add: bind_def ret_def)

lemma bind_fail [simp]: "bind (fail e) k = fail e"
  by (simp add: bind_def fail_def)

lemma bind_crash [simp]: "bind (crash p) k = crash p"
  by (simp add: bind_def crash_def)

lemma bind_lift_Val [simp]: "bind (lift_res (Val x)) k = k x"
  by (simp add: bind_def lift_res_def)

lemma bind_assoc: "bind (bind m f) g = bind m (\<lambda>x. bind (f x) g)"
  by (auto simp: bind_def fun_eq_iff split: prod.splits res.splits)

text \<open>How a sequence can have ended: the only ways a \<open>bind\<close> returns each result.\<close>

lemma bind_ValE:
  assumes "bind m k s = (Val y, s'')"
  obtains x s' where "m s = (Val x, s')" and "k x s' = (Val y, s'')"
  using assms by (auto simp: bind_def split: prod.splits res.splits)

lemma bind_cases:
  assumes "bind m k s = (r, s'')"
  obtains (Val) x s' where "m s = (Val x, s')" and "k x s' = (r, s'')"
    | (Fail) e where "m s = (Fail e, s'')" and "r = Fail e"
    | (Crash) p where "m s = (Crash p, s'')" and "r = Crash p"
  using assms by (auto simp: bind_def split: prod.splits res.splits)

lemma map_err_Val_iff [simp]: "map_err f m s = (Val x, s') \<longleftrightarrow> m s = (Val x, s')"
  by (auto simp: map_err_def split: prod.splits res.splits)

lemma map_err_Crash_iff [simp]: "map_err f m s = (Crash p, s') \<longleftrightarrow> m s = (Crash p, s')"
  by (auto simp: map_err_def split: prod.splits res.splits)

lemma annotate_Val_iff [simp]: "annotate msg m s = (Val x, s') \<longleftrightarrow> m s = (Val x, s')"
  by (simp add: annotate_def)

lemma annotate_Crash_iff [simp]: "annotate msg m s = (Crash p, s') \<longleftrightarrow> m s = (Crash p, s')"
  by (simp add: annotate_def)

lemma snd_map_err [simp]: "snd (map_err f m s) = snd (m s)"
  by (auto simp: map_err_def split: prod.splits res.splits)

lemma snd_annotate [simp]: "snd (annotate msg m s) = snd (m s)"
  by (simp add: annotate_def)

lemma snd_attempt [simp]: "snd (attempt m s) = snd (m s)"
  by (auto simp: attempt_def split: prod.splits res.splits)

lemma attempt_Inr [simp]: "attempt m s = (Val (Inr x), s') \<longleftrightarrow> m s = (Val x, s')"
  by (auto simp: attempt_def split: prod.splits res.splits)

lemma attempt_Inl [simp]: "attempt m s = (Val (Inl e), s') \<longleftrightarrow> m s = (Fail e, s')"
  by (auto simp: attempt_def split: prod.splits res.splits)

lemma attempt_Val_cases:
  assumes "attempt m s = (Val x, s')"
  obtains (answer) y where "x = Inr y" "m s = (Val y, s')" | (error) e where "x = Inl e" "m s = (Fail e, s')"
  using assms by (cases x) auto

lemma attempt_Crash_iff [simp]: "attempt m s = (Crash p, s') \<longleftrightarrow> m s = (Crash p, s')"
  by (auto simp: attempt_def split: prod.splits res.splits)

section \<open>Programs that cannot panic\<close>

text \<open>\<open>no_crash m\<close>: from no state does \<open>m\<close> end in a panic.\<close>

definition no_crash :: "('s, 'a) go \<Rightarrow> bool" where
  "no_crash m \<longleftrightarrow> (\<forall>s p s'. m s \<noteq> (Crash p, s'))"

named_theorems no_crash_intros \<open>rules that show a program cannot panic\<close>

lemma no_crashD: "no_crash m \<Longrightarrow> m s = (Crash p, s') \<Longrightarrow> False"
  by (simp add: no_crash_def)

lemma no_crash_ret [no_crash_intros]: "no_crash (ret x)"
  by (simp add: no_crash_def)

lemma no_crash_fail [no_crash_intros]: "no_crash (fail e)"
  by (simp add: no_crash_def)

lemma no_crash_gets [no_crash_intros]: "no_crash (gets f)"
  by (simp add: no_crash_def)

lemma no_crash_modify [no_crash_intros]: "no_crash (modify f)"
  by (simp add: no_crash_def)

lemma no_crash_lift_err [no_crash_intros]: "no_crash (lift_err eo)"
  by (cases eo) (simp_all add: no_crash_intros)

lemma no_crash_lift_Val [no_crash_intros]: "no_crash (lift_res (Val x))"
  by (simp add: no_crash_def)

lemma no_crash_bind [no_crash_intros]:
  "no_crash m \<Longrightarrow> (\<And>x. no_crash (k x)) \<Longrightarrow> no_crash (bind m k)"
  by (auto simp: no_crash_def elim!: bind_cases)

lemma no_crash_map_err [no_crash_intros]: "no_crash m \<Longrightarrow> no_crash (map_err f m)"
  by (simp add: no_crash_def)

lemma no_crash_annotate [no_crash_intros]: "no_crash m \<Longrightarrow> no_crash (annotate msg m)"
  by (simp add: annotate_def no_crash_map_err)

lemma no_crash_attempt [no_crash_intros]: "no_crash m \<Longrightarrow> no_crash (attempt m)"
  by (auto simp: no_crash_def attempt_def split: prod.splits res.splits)

text \<open>A call whose error is kept for inspection returns, unless it panics.\<close>

lemma attempt_returns: "no_crash m \<Longrightarrow> \<exists>x s'. attempt m s = (Val x, s')"
  by (auto simp: no_crash_def attempt_def split: prod.splits res.splits)

lemma bind_returns:
  "\<exists>x s1. m s = (Val x, s1) \<Longrightarrow> (\<And>x s1. m s = (Val x, s1) \<Longrightarrow> \<exists>y s'. k x s1 = (Val y, s')) \<Longrightarrow>
     \<exists>y s'. bind m k s = (Val y, s')"
  by auto

lemma no_crash_if [no_crash_intros]:
  "(b \<Longrightarrow> no_crash m) \<Longrightarrow> (\<not> b \<Longrightarrow> no_crash n) \<Longrightarrow> no_crash (if b then m else n)"
  by simp

lemma no_crash_for_each [no_crash_intros]:
  "(\<And>x. x \<in> set xs \<Longrightarrow> no_crash (f x)) \<Longrightarrow> no_crash (for_each f xs)"
  by (induction xs) (simp_all add: no_crash_intros)

end
