(* ===== verification/Go_Lib.thy ===== *)
theory Go_Lib
  imports Prelude
begin

text \<open>
  What the program uses of Go's standard library and of the error helpers of the
  vendored oVirt client: decimal printing (\<open>%d\<close>), \<open>strings.Contains\<close>,
  \<open>strconv.ParseBool\<close>, and \<open>HasErrorCode\<close> with the identification of foreign
  errors it falls back to. Go strings and byte slices are lists of bytes.
\<close>

section \<open>Printing numbers\<close>

definition digit :: "nat \<Rightarrow> char" where
  "digit d = char_of (48 + d)"

fun itoa :: "nat \<Rightarrow> string" where
  "itoa n = (if n < 10 then [digit n] else itoa (n div 10) @ [digit (n mod 10)])"

declare itoa.simps [simp del]

definition int_string :: "int \<Rightarrow> string" where
  "int_string i = (if i < 0 then ''-'' @ itoa (nat (- i)) else itoa (nat i))"

text \<open>The number a string of decimal digits denotes; printing is injective.\<close>

definition dec_value :: "string \<Rightarrow> nat" where
  "dec_value cs = foldl (\<lambda>a c. 10 * a + (of_char c - 48)) 0 cs"

lemma of_char_digit [simp]: "d < 10 \<Longrightarrow> (of_char (digit d) :: nat) = 48 + d"
  by (simp add: digit_def)

lemma dec_value_itoa [simp]: "dec_value (itoa n) = n"
proof (induction n rule: itoa.induct)
  case (1 n)
  show ?case
  proof (cases "n < 10")
    case True
    then show ?thesis by (simp add: itoa.simps [of n] dec_value_def)
  next
    case False
    with "1.IH" have "foldl (\<lambda>a c. 10 * a + (of_char c - 48)) 0 (itoa (n div 10)) = n div 10"
      by (simp add: dec_value_def)
    with False show ?thesis by (simp add: itoa.simps [of n] dec_value_def)
  qed
qed

lemma itoa_inject [simp]: "itoa m = itoa n \<longleftrightarrow> m = n"
  by (metis dec_value_itoa)

section \<open>strings.Contains, strings.HasPrefix\<close>

definition has_prefix :: "string \<Rightarrow> string \<Rightarrow> bool" where
  "has_prefix s p = (take (length p) s = p)"

fun contains :: "string \<Rightarrow> string \<Rightarrow> bool" where
  "contains [] p = (p = [])"
| "contains (c # cs) p = (has_prefix (c # cs) p \<or> contains cs p)"

lemma has_prefix_append [simp]: "has_prefix (p @ s) p"
  by (simp add: has_prefix_def)

lemma has_prefix_iff: "has_prefix s p \<longleftrightarrow> (\<exists>t. s = p @ t)"
  by (auto simp: has_prefix_def) (metis append_take_drop_id)

lemma contains_iff: "contains s p \<longleftrightarrow> (\<exists>u v. s = u @ p @ v)"
proof (induction s)
  case Nil
  then show ?case by auto
next
  case (Cons c cs)
  have "(\<exists>u v. c # cs = u @ p @ v) \<longleftrightarrow> (\<exists>v. c # cs = p @ v) \<or> (\<exists>u v. cs = u @ p @ v)"
    by (auto simp: Cons_eq_append_conv)
  with Cons show ?case by (simp add: has_prefix_iff)
qed

lemma contains_prefix [simp]: "contains (p @ s) p"
  unfolding contains_iff by (rule exI [of _ "[]"]) simp

section \<open>strconv.ParseBool\<close>

text \<open>
  The accepted spellings are Go's; any other input is a \<open>*strconv.NumError\<close>, whose text
  quotes the input (escapes beyond the quote and the backslash do not matter here: the
  text is only logged).
\<close>

fun quote_body :: "string \<Rightarrow> string" where
  "quote_body [] = []"
| "quote_body (c # cs) =
     (if c = CHR 0x22 then [CHR 0x5C, CHR 0x22]
      else if c = CHR 0x5C then [CHR 0x5C, CHR 0x5C] else [c]) @ quote_body cs"

definition go_quote :: "string \<Rightarrow> string" where
  "go_quote s = [CHR 0x22] @ quote_body s @ [CHR 0x22]"

definition ParseBool :: "string \<Rightarrow> gerr + bool" where
  "ParseBool s =
     (if s \<in> set [''1'', ''t'', ''T'', ''true'', ''TRUE'', ''True''] then Inr True
      else if s \<in> set [''0'', ''f'', ''F'', ''false'', ''FALSE'', ''False''] then Inr False
      else Inl (ErrorString (''strconv.ParseBool: parsing '' @ go_quote s @ '': invalid syntax'')))"

section \<open>The oVirt client's error codes\<close>

definition ENotFound :: error_code where "ENotFound = ''not_found''"
definition EBadArgument :: error_code where "EBadArgument = ''bad_argument''"
definition ECannotRunVM :: error_code where "ECannotRunVM = ''cannot_run_vm''"
definition ENotAnOVirtEngine :: error_code where "ENotAnOVirtEngine = ''not_ovirt_engine''"
definition EInvalidGrant :: error_code where "EInvalidGrant = ''invalid_grant''"
definition ETLSError :: error_code where "ETLSError = ''tls_error''"
definition EDiskLocked :: error_code where "EDiskLocked = ''disk_locked''"
definition EVMLocked :: error_code where "EVMLocked = ''vm_locked''"
definition EHotPlugFailed :: error_code where "EHotPlugFailed = ''hot_plug_failed''"
definition ERelatedOperationInProgress :: error_code where
  "ERelatedOperationInProgress = ''related_operation_in_progress''"
definition EConflict :: error_code where "EConflict = ''conflict''"
definition EAccessDenied :: error_code where "EAccessDenied = ''access_denied''"
definition EUserAccountLocked :: error_code where "EUserAccountLocked = ''user_locked''"

text \<open>\<open>newError\<close> and \<open>wrap\<close> with an explicit code (the message quotes the cause).\<close>

definition newError :: "error_code \<Rightarrow> string \<Rightarrow> gerr" where
  "newError c m = EngineError c m None"

definition engine_wrap :: "gerr \<Rightarrow> error_code \<Rightarrow> string \<Rightarrow> gerr" where
  "engine_wrap err c m = EngineError c (m @ '' ('' @ error_string err @ '')'') (Some err)"

text \<open>
  \<open>errors.As(err, &e)\<close> walks the chain of causes for the first error of a type.
  \<open>as_engine\<close> looks for an \<open>EngineError\<close>; \<open>as_sdk_not_found\<close> and \<open>as_sdk_auth\<close> for
  the SDK's two error types.
\<close>

fun as_engine :: "gerr \<Rightarrow> gerr option" where
  "as_engine (EngineError c m k) = Some (EngineError c m k)"
| "as_engine (Wrapped m e) = as_engine e"
| "as_engine (WrapError m e) = as_engine e"
| "as_engine _ = None"

fun as_sdk_not_found :: "gerr \<Rightarrow> bool" where
  "as_sdk_not_found (SdkNotFoundError m) = True"
| "as_sdk_not_found (Wrapped m e) = as_sdk_not_found e"
| "as_sdk_not_found (WrapError m e) = as_sdk_not_found e"
| "as_sdk_not_found (EngineError c m (Some e)) = as_sdk_not_found e"
| "as_sdk_not_found _ = False"

fun as_sdk_auth :: "gerr \<Rightarrow> bool" where
  "as_sdk_auth (SdkAuthError m) = True"
| "as_sdk_auth (Wrapped m e) = as_sdk_auth e"
| "as_sdk_auth (WrapError m e) = as_sdk_auth e"
| "as_sdk_auth (EngineError c m (Some e)) = as_sdk_auth e"
| "as_sdk_auth _ = False"

text \<open>
  \<open>engineError.HasCode\<close>: the error's own code, or that of the next engine error down its
  causes. On a foreign error it is the code of the first engine error in its chain.
\<close>

fun has_code :: "gerr \<Rightarrow> error_code \<Rightarrow> bool" where
  "has_code (EngineError c m k) code =
     (c = code \<or> (case k of None \<Rightarrow> False | Some e \<Rightarrow> has_code e code))"
| "has_code (Wrapped m e) code = has_code e code"
| "has_code (WrapError m e) code = has_code e code"
| "has_code _ code = False"

definition realIdentify :: "gerr \<Rightarrow> gerr option" where
  "realIdentify err =
    (let t = error_string err in
     if contains t ''Cannot run VM without at least one bootable disk.'' then
       Some (engine_wrap err ECannotRunVM ''cannot run VM due to a missing bootable disk'')
     else if contains t ''Physical Memory Guaranteed cannot exceed Memory Size'' then
       Some (engine_wrap err EBadArgument ''guaranteed memory size must be lower than the memory size'')
     else if contains t ''stopped after'' \<and> contains t ''redirects'' then
       Some (engine_wrap err ENotAnOVirtEngine
         ''the specified oVirt Engine URL has resulted in a redirect, check if your URL is correct'')
     else if contains t ''parse non-array sso with response'' then
       Some (engine_wrap err ENotAnOVirtEngine
         ''invalid credentials, or the URL does not point to an oVirt Engine, check your settings'')
     else if contains t ''server gave HTTP response to HTTPS client'' then
       Some (engine_wrap err ENotAnOVirtEngine
         ''the server gave a HTTP response to a HTTPS client, check if your URL is correct'')
     else if contains t ''invalid_grant: The provided authorization grant for the auth code has expired.'' then
       Some (engine_wrap err EInvalidGrant ''please reauthenticate for a new access token'')
     else if contains t ''tls'' \<or> contains t ''x509'' then
       Some (engine_wrap err ETLSError ''TLS error, check your CA certificate settings'')
     else if as_sdk_not_found err then
       Some (engine_wrap err ENotFound ''the requested resource was not found'')
     else if contains t ''Disk is locked'' then
       Some (engine_wrap err EDiskLocked ''the disk is locked'')
     else if contains t ''VM is locked'' then
       Some (engine_wrap err EVMLocked ''the VM is locked'')
     else if contains t ''Failed to hot-plug disk'' then
       Some (engine_wrap err EHotPlugFailed ''failed to hot-plug disk'')
     else if contains t ''Related operation is currently in progress.'' then
       Some (engine_wrap err ERelatedOperationInProgress ''a related operation is in progress'')
     else if contains t ''Disk configuration''
           \<and> contains t '' is incompatible with the storage domain type.'' then
       Some (engine_wrap err EBadArgument ''disk configuration is incompatible with the storage domain type'')
     else if contains t ''409 Conflict'' then
       Some (engine_wrap err EConflict ''conflicting operations'')
     else if as_sdk_auth err \<or> contains t ''access_denied'' then
       (let w = engine_wrap err EAccessDenied ''access denied, check your credentials'' in
        if contains t ''user account is disabled or locked'' then
          Some (engine_wrap w EUserAccountLocked ''access denied, user account has been locked'')
        else Some w)
     else None)"

text \<open>
  \<open>HasErrorCode\<close>: for an error outside the client's own type that cannot be identified,
  the call on the nil interface panics.
\<close>

definition HasErrorCode :: "gerr \<Rightarrow> error_code \<Rightarrow> bool res" where
  "HasErrorCode err code =
     (case as_engine err of
        Some e \<Rightarrow> Val (has_code e code)
      | None \<Rightarrow> (case realIdentify err of
           Some e \<Rightarrow> Val (has_code e code)
         | None \<Rightarrow> Crash NilDeref))"

text \<open>An error of the client's own type needs no identification, so the call cannot panic.\<close>

lemma HasErrorCode_engine [simp]:
  "HasErrorCode (EngineError c m k) code = Val (has_code (EngineError c m k) code)"
  by (simp add: HasErrorCode_def)

lemma has_code_as_engine: "has_code e code \<Longrightarrow> \<exists>e'. as_engine e = Some e'"
  by (induction e code rule: has_code.induct) auto

end
