(* ===== verification/VM_Params.thy ===== *)
theory VM_Params
  imports Go_Lib
begin

text \<open>
  The parameter builders of the vendored oVirt client (\<open>vm.go\<close>, \<open>disk.go\<close>) that
  \<open>create\<close> calls: a VM's CPU, memory policy, placement policy, disks and the VM
  parameters themselves. A \<open>WithX\<close> method returns the builder or an error; the
  corresponding \<open>MustWithX\<close> panics with that error. The builders are mutable in Go and
  every method returns its receiver, so each is a function from the old to the new record.
\<close>

type_synonym int32 = "32 word"
type_synonym int64 = "64 word"
type_synonym uint64 = "64 word"
type_synonym uint = "64 word"

definition must :: "gerr + 'a \<Rightarrow> 'a res" where
  "must r = (case r of Inl e \<Rightarrow> Crash (LibraryPanic e) | Inr x \<Rightarrow> Val x)"

lemma must_simps [simp]:
  "must (Inl e) = Crash (LibraryPanic e)"
  "must (Inr x) = Val x"
  by (simp_all add: must_def)

lemma must_Val_iff [simp]: "must r = Val x \<longleftrightarrow> r = Inr x"
  by (cases r) simp_all

section \<open>CPU\<close>

record vm_cpu_topo =
  topo_sockets :: uint
  topo_cores :: uint
  topo_threads :: uint

record vm_cpu_params =
  cpu_mode :: "string option"
  cpu_topo :: "vm_cpu_topo option"

definition NewVMCPUTopoParams :: vm_cpu_topo where
  "NewVMCPUTopoParams = \<lparr>topo_sockets = 1, topo_cores = 1, topo_threads = 1\<rparr>"

definition NewVMCPUParams :: vm_cpu_params where
  "NewVMCPUParams = \<lparr>cpu_mode = None, cpu_topo = None\<rparr>"

definition topo_WithSockets :: "uint \<Rightarrow> vm_cpu_topo \<Rightarrow> gerr + vm_cpu_topo" where
  "topo_WithSockets n t =
     (if n = 0 then Inl (newError EBadArgument ''sockets must be at least 1'')
      else Inr (t\<lparr>topo_sockets := n\<rparr>))"

definition topo_WithCores :: "uint \<Rightarrow> vm_cpu_topo \<Rightarrow> gerr + vm_cpu_topo" where
  "topo_WithCores n t =
     (if n = 0 then Inl (newError EBadArgument ''cores must be at least 1'')
      else Inr (t\<lparr>topo_cores := n\<rparr>))"

definition topo_WithThreads :: "uint \<Rightarrow> vm_cpu_topo \<Rightarrow> gerr + vm_cpu_topo" where
  "topo_WithThreads n t =
     (if n = 0 then Inl (newError EBadArgument ''threads must be at least 1'')
      else Inr (t\<lparr>topo_threads := n\<rparr>))"

definition CPUModeHostPassthrough :: string where
  "CPUModeHostPassthrough = ''host_passthrough''"

definition cpu_WithMode :: "string \<Rightarrow> vm_cpu_params \<Rightarrow> gerr + vm_cpu_params" where
  "cpu_WithMode mode c =
     (if mode \<in> set [''custom'', ''host_model'', ''host_passthrough'']
      then Inr (c\<lparr>cpu_mode := Some mode\<rparr>)
      else Inl (newError EBadArgument (''invalid CPU mode: '' @ mode)))"

section \<open>Memory and placement policies\<close>

record memory_policy =
  mp_guaranteed :: "int64 option"
  mp_max :: "int64 option"
  mp_ballooning :: "bool option"

definition NewMemoryPolicyParameters :: memory_policy where
  "NewMemoryPolicyParameters = \<lparr>mp_guaranteed = None, mp_max = None, mp_ballooning = None\<rparr>"

definition mp_MustWithGuaranteed :: "int64 \<Rightarrow> memory_policy \<Rightarrow> memory_policy" where
  "mp_MustWithGuaranteed n m = m\<lparr>mp_guaranteed := Some n\<rparr>"

definition mp_MustWithBallooning :: "bool \<Rightarrow> memory_policy \<Rightarrow> memory_policy" where
  "mp_MustWithBallooning b m = m\<lparr>mp_ballooning := Some b\<rparr>"

record placement_policy =
  pp_affinity :: "string option"
  pp_hostIDs :: "string list"

definition VMAffinityMigratable :: string where "VMAffinityMigratable = ''migratable''"
definition VMAffinityUserMigratable :: string where "VMAffinityUserMigratable = ''user_migratable''"

definition NewVMPlacementPolicyParameters :: placement_policy where
  "NewVMPlacementPolicyParameters = \<lparr>pp_affinity = None, pp_hostIDs = []\<rparr>"

definition pp_WithAffinity :: "string \<Rightarrow> placement_policy \<Rightarrow> gerr + placement_policy" where
  "pp_WithAffinity a p =
     (if a \<in> set [''migratable'', ''pinned'', ''user_migratable'']
      then Inr (p\<lparr>pp_affinity := Some a\<rparr>)
      else Inl (newError EBadArgument (''invalud value for VMAffinity: '' @ a)))"

definition pp_WithHostIDs :: "string list \<Rightarrow> placement_policy \<Rightarrow> gerr + placement_policy" where
  "pp_WithHostIDs hs p = Inr (p\<lparr>pp_hostIDs := hs\<rparr>)"

section \<open>Disks\<close>

record disk_params =
  dp_diskID :: string
  dp_sparse :: "bool option"
  dp_format :: "string option"
  dp_storageDomainID :: "string option"

definition NewBuildableVMDiskParameters :: "string \<Rightarrow> disk_params" where
  "NewBuildableVMDiskParameters i =
     \<lparr>dp_diskID = i, dp_sparse = None, dp_format = None, dp_storageDomainID = None\<rparr>"

definition dp_MustWithSparse :: "bool \<Rightarrow> disk_params \<Rightarrow> disk_params" where
  "dp_MustWithSparse b d = d\<lparr>dp_sparse := Some b\<rparr>"

definition dp_MustWithStorageDomainID :: "string \<Rightarrow> disk_params \<Rightarrow> disk_params" where
  "dp_MustWithStorageDomainID i d = d\<lparr>dp_storageDomainID := Some i\<rparr>"

definition ImageFormatValues :: "string list" where
  "ImageFormatValues = [''cow'', ''raw'']"

definition dp_WithFormat :: "string \<Rightarrow> disk_params \<Rightarrow> gerr + disk_params" where
  "dp_WithFormat f d =
     (if f \<in> set ImageFormatValues then Inr (d\<lparr>dp_format := Some f\<rparr>)
      else Inl (newError EBadArgument
        (''invalid image format: '' @ f @ '' must be one of: cow, raw'')))"

definition MinDiskSizeOVirt :: uint64 where "MinDiskSizeOVirt = 1048576"

text \<open>\<open>UpdateDiskParams().WithProvisionedSize\<close>: the size is the only field \<open>create\<close> sets.\<close>

definition WithProvisionedSize :: "uint64 \<Rightarrow> gerr + uint64" where
  "WithProvisionedSize sz =
     (if sz < MinDiskSizeOVirt
      then Inl (newError EBadArgument ''Disk size must be at least 1048576 bytes (1 MB)'')
      else Inr sz)"

section \<open>The VM parameters\<close>

record vm_params =
  vp_cpu :: "vm_cpu_params option"
  vp_hugePages :: "uint64 option"
  vp_initialization :: "(string \<times> string) option"
  vp_memory :: "int64 option"
  vp_memoryPolicy :: "memory_policy option"
  vp_clone :: "bool option"
  vp_disks :: "disk_params list"
  vp_placementPolicy :: "placement_policy option"
  vp_instanceTypeID :: "string option"
  vp_vmType :: "string option"
  vp_serialConsole :: "bool option"
  vp_soundcardEnabled :: "bool option"

definition NewCreateVMParams :: vm_params where
  "NewCreateVMParams =
     \<lparr>vp_cpu = None, vp_hugePages = None, vp_initialization = None, vp_memory = None,
      vp_memoryPolicy = None, vp_clone = None, vp_disks = [], vp_placementPolicy = None,
      vp_instanceTypeID = None, vp_vmType = None, vp_serialConsole = None,
      vp_soundcardEnabled = None\<rparr>"

definition MustWithInitializationParameters :: "string \<Rightarrow> string \<Rightarrow> vm_params \<Rightarrow> vm_params" where
  "MustWithInitializationParameters script host p = p\<lparr>vp_initialization := Some (script, host)\<rparr>"

definition VMTypeDesktop :: string where "VMTypeDesktop = ''desktop''"
definition VMTypeServer :: string where "VMTypeServer = ''server''"
definition VMTypeHighPerformance :: string where "VMTypeHighPerformance = ''high_performance''"

definition WithVMType :: "string \<Rightarrow> vm_params \<Rightarrow> gerr + vm_params" where
  "WithVMType t p =
     (if t = VMTypeDesktop \<or> t = VMTypeServer \<or> t = VMTypeHighPerformance
      then Inr (p\<lparr>vp_vmType := Some t\<rparr>)
      else Inl (newError EBadArgument (''Invalid VM type: '' @ t)))"

definition MustWithInstanceTypeID :: "string \<Rightarrow> vm_params \<Rightarrow> vm_params" where
  "MustWithInstanceTypeID i p = p\<lparr>vp_instanceTypeID := Some i\<rparr>"

definition WithPlacementPolicy :: "placement_policy \<Rightarrow> vm_params \<Rightarrow> vm_params" where
  "WithPlacementPolicy pp p = p\<lparr>vp_placementPolicy := Some pp\<rparr>"

definition WithMemoryPolicy :: "memory_policy \<Rightarrow> vm_params \<Rightarrow> vm_params" where
  "WithMemoryPolicy m p = p\<lparr>vp_memoryPolicy := Some m\<rparr>"

definition MustWithClone :: "bool \<Rightarrow> vm_params \<Rightarrow> vm_params" where
  "MustWithClone b p = p\<lparr>vp_clone := Some b\<rparr>"

text \<open>
  \<open>WithDisks\<close> looks each disk up in a map of the identifiers seen so far, but never writes
  that map, so its duplicate branch cannot be taken and every list is accepted.
\<close>

definition MustWithDisks :: "disk_params list \<Rightarrow> vm_params \<Rightarrow> vm_params" where
  "MustWithDisks ds p = p\<lparr>vp_disks := ds\<rparr>"

definition WithHugePages :: "uint64 \<Rightarrow> vm_params \<Rightarrow> gerr + vm_params" where
  "WithHugePages h p =
     (if h = 2048 \<or> h = 1048576 then Inr (p\<lparr>vp_hugePages := Some h\<rparr>)
      else Inl (newError EBadArgument
        (''Invalid value for VM huge pages: '' @ itoa (unat h) @ '' must be one of: 2048, 1048576'')))"

definition MustWithMemory :: "int64 \<Rightarrow> vm_params \<Rightarrow> vm_params" where
  "MustWithMemory m p = p\<lparr>vp_memory := Some m\<rparr>"

definition MustWithCPU :: "vm_cpu_params \<Rightarrow> vm_params \<Rightarrow> vm_params" where
  "MustWithCPU c p = p\<lparr>vp_cpu := Some c\<rparr>"

text \<open>Note the order of the arguments: cores, threads, sockets.\<close>

definition WithCPUParameters :: "uint \<Rightarrow> uint \<Rightarrow> uint \<Rightarrow> vm_params \<Rightarrow> gerr + vm_params" where
  "WithCPUParameters cores threads sockets p =
     (case topo_WithCores cores NewVMCPUTopoParams of Inl e \<Rightarrow> Inl e | Inr t1 \<Rightarrow>
      (case topo_WithThreads threads t1 of Inl e \<Rightarrow> Inl e | Inr t2 \<Rightarrow>
       (case topo_WithSockets sockets t2 of Inl e \<Rightarrow> Inl e | Inr t3 \<Rightarrow>
         Inr (MustWithCPU (NewVMCPUParams\<lparr>cpu_topo := Some t3\<rparr>) p))))"

definition WithSoundcardEnabled :: "bool \<Rightarrow> vm_params \<Rightarrow> vm_params" where
  "WithSoundcardEnabled b p = p\<lparr>vp_soundcardEnabled := Some b\<rparr>"

definition WithSerialConsole :: "bool \<Rightarrow> vm_params \<Rightarrow> vm_params" where
  "WithSerialConsole b p = p\<lparr>vp_serialConsole := Some b\<rparr>"

lemmas builder_defs =
  NewCreateVMParams_def MustWithInitializationParameters_def WithVMType_def
  MustWithInstanceTypeID_def WithPlacementPolicy_def WithMemoryPolicy_def MustWithClone_def
  MustWithDisks_def WithHugePages_def MustWithMemory_def MustWithCPU_def
  WithSoundcardEnabled_def WithSerialConsole_def

text \<open>The CPU builder accepts exactly the topologies without a zero.\<close>

lemma WithCPUParameters_eq:
  "WithCPUParameters c t k p =
     (if c = 0 then Inl (newError EBadArgument ''cores must be at least 1'')
      else if t = 0 then Inl (newError EBadArgument ''threads must be at least 1'')
      else if k = 0 then Inl (newError EBadArgument ''sockets must be at least 1'')
      else Inr (p\<lparr>vp_cpu := Some \<lparr>cpu_mode = None,
             cpu_topo = Some \<lparr>topo_sockets = k, topo_cores = c, topo_threads = t\<rparr>\<rparr>\<rparr>))"
  by (simp add: WithCPUParameters_def topo_WithCores_def topo_WithThreads_def
      topo_WithSockets_def NewVMCPUTopoParams_def NewVMCPUParams_def MustWithCPU_def)

end
