(* ===== verification/Provider_API.thy ===== *)
theory Provider_API
  imports VM_Params
begin

text \<open>
  The provider's API group (\<open>pkg/apis/ovirtprovider/v1beta1\<close>): the machine provider
  spec and status that are embedded in a Machine object, and their conversions to and
  from the raw JSON the Machine carries. The JSON and YAML codecs are libraries, so
  they are a parameter: the record \<open>codec\<close>. A Go pointer is an option; a nil and an
  empty slice are the same list.
\<close>

section \<open>types.go\<close>

record LocalObjectReference =
  lor_Name :: string

record CPU =
  cpu_Sockets :: int32
  cpu_Cores :: int32
  cpu_Threads :: int32

record Disk =
  disk_SizeGB :: int64

record NetworkInterface =
  ni_VNICProfileID :: string

record OvirtMachineProviderSpec =
  ps_UserDataSecret :: "LocalObjectReference option"
  ps_CredentialsSecret :: "LocalObjectReference option"
  ps_Id :: string
  ps_Name :: string
  ps_TemplateName :: string
  ps_ClusterId :: string
  ps_InstanceTypeId :: string
  ps_CPU :: "CPU option"
  ps_MemoryMB :: int32
  ps_OSDisk :: "Disk option"
  ps_VMType :: string
  ps_NetworkInterfaces :: "NetworkInterface option list"
  ps_AffinityGroupsNames :: "string list"
  ps_AutoPinningPolicy :: string
  ps_Hugepages :: int32
  ps_GuaranteedMemoryMB :: int32
  ps_Clone :: "bool option"
  ps_Sparse :: "bool option"
  ps_Format :: string
  ps_StorageDomainId :: string

record OvirtMachineProviderStatus =
  pst_InstanceID :: "string option"
  pst_InstanceState :: "string option"

text \<open>Go's zero values, \<open>&OvirtMachineProviderSpec{}\<close> and \<open>&OvirtMachineProviderStatus{}\<close>.\<close>

definition empty_spec :: OvirtMachineProviderSpec where
  "empty_spec =
     \<lparr>ps_UserDataSecret = None, ps_CredentialsSecret = None, ps_Id = [], ps_Name = [],
      ps_TemplateName = [], ps_ClusterId = [], ps_InstanceTypeId = [], ps_CPU = None,
      ps_MemoryMB = 0, ps_OSDisk = None, ps_VMType = [], ps_NetworkInterfaces = [],
      ps_AffinityGroupsNames = [], ps_AutoPinningPolicy = [], ps_Hugepages = 0,
      ps_GuaranteedMemoryMB = 0, ps_Clone = None, ps_Sparse = None, ps_Format = [],
      ps_StorageDomainId = []\<rparr>"

definition empty_status :: OvirtMachineProviderStatus where
  "empty_status = \<lparr>pst_InstanceID = None, pst_InstanceState = None\<rparr>"

section \<open>register.go\<close>

text \<open>
  Decoding into a pointer variable (\<open>&spec\<close> with \<open>spec\<close> a pointer) can leave it nil, for
  the document \<open>null\<close>; decoding into a struct cannot.
\<close>

record codec =
  yaml_Unmarshal_spec :: "string \<Rightarrow> gerr + OvirtMachineProviderSpec"
  yaml_Unmarshal_spec_ptr :: "string \<Rightarrow> gerr + OvirtMachineProviderSpec option"
  json_Marshal_spec :: "OvirtMachineProviderSpec \<Rightarrow> gerr + string"
  yaml_Unmarshal_status :: "string \<Rightarrow> gerr + OvirtMachineProviderStatus"
  json_Marshal_status :: "OvirtMachineProviderStatus \<Rightarrow> gerr + string"

record RawExtension =
  Raw :: string

definition MachineSpecFromProviderSpec ::
  "codec \<Rightarrow> RawExtension option \<Rightarrow> gerr + OvirtMachineProviderSpec" where
  "MachineSpecFromProviderSpec J value =
     (case value of
        None \<Rightarrow> Inl (ErrorString ''no such providerSpec found in manifest'')
      | Some ext \<Rightarrow> yaml_Unmarshal_spec J (Raw ext))"

definition RawExtensionFromProviderSpec ::
  "codec \<Rightarrow> OvirtMachineProviderSpec option \<Rightarrow> gerr + RawExtension" where
  "RawExtensionFromProviderSpec J spec =
     (case spec of
        None \<Rightarrow> Inr \<lparr>Raw = []\<rparr>
      | Some sp \<Rightarrow> (case json_Marshal_spec J sp of
           Inl err \<Rightarrow> Inl (ErrorString (''error marshalling providerSpec: '' @ error_string err))
         | Inr rawBytes \<Rightarrow> Inr \<lparr>Raw = rawBytes\<rparr>))"

definition RawExtensionFromProviderStatus ::
  "codec \<Rightarrow> OvirtMachineProviderStatus option \<Rightarrow> gerr + RawExtension" where
  "RawExtensionFromProviderStatus J status =
     (case status of
        None \<Rightarrow> Inr \<lparr>Raw = []\<rparr>
      | Some st \<Rightarrow> (case json_Marshal_status J st of
           Inl err \<Rightarrow> Inl (ErrorString (''error marshalling providerStatus: '' @ error_string err))
         | Inr rawBytes \<Rightarrow> Inr \<lparr>Raw = rawBytes\<rparr>))"

definition ProviderSpecFromRawExtension ::
  "codec \<Rightarrow> RawExtension option \<Rightarrow> gerr + OvirtMachineProviderSpec option" where
  "ProviderSpecFromRawExtension J rawExtension =
     (case rawExtension of
        None \<Rightarrow> Inr (Some empty_spec)
      | Some ext \<Rightarrow> (case yaml_Unmarshal_spec_ptr J (Raw ext) of
           Inl err \<Rightarrow> Inl (ErrorString (''error unmarshalling providerSpec: '' @ error_string err))
         | Inr spec \<Rightarrow> Inr spec))"

definition ProviderStatusFromRawExtension ::
  "codec \<Rightarrow> RawExtension option \<Rightarrow> gerr + OvirtMachineProviderStatus" where
  "ProviderStatusFromRawExtension J rawExtension =
     (case rawExtension of
        None \<Rightarrow> Inr empty_status
      | Some ext \<Rightarrow> (case yaml_Unmarshal_status J (Raw ext) of
           Inl err \<Rightarrow> Inl (ErrorString (''error unmarshalling providerStatus: '' @ error_string err))
         | Inr st \<Rightarrow> Inr st))"

text \<open>
  What the program relies on from the codecs: what \<open>json.Marshal\<close> wrote, \<open>yaml.Unmarshal\<close>
  reads back.
\<close>

definition codec_faithful :: "codec \<Rightarrow> bool" where
  "codec_faithful J \<longleftrightarrow>
     (\<forall>sp b. json_Marshal_spec J sp = Inr b \<longrightarrow>
        yaml_Unmarshal_spec J b = Inr sp \<and> yaml_Unmarshal_spec_ptr J b = Inr (Some sp)) \<and>
     (\<forall>st b. json_Marshal_status J st = Inr b \<longrightarrow> yaml_Unmarshal_status J b = Inr st)"

lemma status_roundtrip:
  assumes "codec_faithful J" and "RawExtensionFromProviderStatus J (Some st) = Inr ext"
  shows "ProviderStatusFromRawExtension J (Some ext) = Inr st"
  using assms
  by (auto simp: codec_faithful_def RawExtensionFromProviderStatus_def
      ProviderStatusFromRawExtension_def split: sum.splits)

lemma spec_roundtrip:
  assumes "codec_faithful J" and "RawExtensionFromProviderSpec J (Some sp) = Inr ext"
  shows "ProviderSpecFromRawExtension J (Some ext) = Inr (Some sp)"
    and "MachineSpecFromProviderSpec J (Some ext) = Inr sp"
  using assms
  by (auto simp: codec_faithful_def RawExtensionFromProviderSpec_def
      ProviderSpecFromRawExtension_def MachineSpecFromProviderSpec_def split: sum.splits)

section \<open>Constants\<close>

definition ProviderIDPrefix :: string where "ProviderIDPrefix = ''ovirt://''"
definition OvirtIDAnnotationKey :: string where "OvirtIDAnnotationKey = ''VmId''"
definition InstanceStatusAnnotationKey :: string where
  "InstanceStatusAnnotationKey = ''machine.openshift.io/instance-state''"
definition userDataSecretKey :: string where "userDataSecretKey = ''userData''"
definition globalInfrastuctureName :: string where "globalInfrastuctureName = ''cluster''"
definition bytesInMB :: int64 where "bytesInMB = 1048576"

end
