(* ===== verification/Credentials.thy ===== *)
theory Credentials
  imports Go_Lib
begin

text \<open>
  oVirt credentials (\<open>pkg/ovirt/credentials.go\<close>): the record and its extraction from the
  data of a Kubernetes secret. A missing key reads as the empty string, as it does in a
  Go map.
\<close>

record Credentials =
  cr_URL :: string
  cr_Username :: string
  cr_Password :: string
  cr_CAFile :: string
  cr_Insecure :: bool
  cr_CABundle :: string

definition secretFieldUrl :: string where "secretFieldUrl = ''ovirt_url''"
definition secretFieldUsername :: string where "secretFieldUsername = ''ovirt_username''"
definition secretFieldPassword :: string where "secretFieldPassword = ''ovirt_password''"
definition secretFieldCafile :: string where "secretFieldCafile = ''ovirt_cafile''"
definition secretFieldInsecure :: string where "secretFieldInsecure = ''ovirt_insecure''"
definition secretFieldCaBundle :: string where "secretFieldCaBundle = ''ovirt_ca_bundle''"

lemmas secret_fields =
  secretFieldUrl_def secretFieldUsername_def secretFieldPassword_def secretFieldCafile_def
  secretFieldInsecure_def secretFieldCaBundle_def

type_synonym secret_data = "string \<Rightarrow> string option"

definition map_index :: "secret_data \<Rightarrow> string \<Rightarrow> string" where
  "map_index m k = (case m k of None \<Rightarrow> [] | Some v \<Rightarrow> v)"

definition FromK8sSecret :: "secret_data \<Rightarrow> gerr + Credentials" where
  "FromK8sSecret data =
     (case ParseBool (map_index data secretFieldInsecure) of
        Inl err \<Rightarrow> Inl (WrapError (''failed to identify '' @ secretFieldInsecure
                          @ '' in credentials '' @ error_string err) err)
      | Inr insecure \<Rightarrow> Inr
          \<lparr>cr_URL = map_index data secretFieldUrl,
           cr_Username = map_index data secretFieldUsername,
           cr_Password = map_index data secretFieldPassword,
           cr_CAFile = map_index data secretFieldCafile,
           cr_Insecure = insecure,
           cr_CABundle = map_index data secretFieldCaBundle\<rparr>)"

text \<open>A secret is refused exactly when its insecure flag is not one of the spellings Go's
  \<open>ParseBool\<close> knows; a missing flag is refused too, the other keys may be missing.\<close>

lemma secret_accepted_iff:
  "(\<exists>c. FromK8sSecret data = Inr c) \<longleftrightarrow>
     map_index data secretFieldInsecure \<in>
       set [''1'', ''t'', ''T'', ''true'', ''TRUE'', ''True'',
            ''0'', ''f'', ''F'', ''false'', ''FALSE'', ''False'']"
  by (simp add: FromK8sSecret_def ParseBool_def split: sum.splits)

end
