(* ===== verification/Go_Net.thy ===== *)
theory Go_Net
  imports Go_Lib
begin

text \<open>
  The part of Go's \<open>net\<close> package the program uses, and the address filter of the vendored
  oVirt client: \<open>ParseCIDR\<close> with the IPv4 and IPv6 address parsers, \<open>IPNet.Contains\<close>,
  \<open>IP.String\<close>, and \<open>filterReportedIPList\<close>. As in Go, an IP is a byte slice of length 4
  or 16 (a nil slice is the empty list), and a network is an address and a mask.
\<close>

unbundle bit_operations_syntax

type_synonym byte = "8 word"
type_synonym IP = "byte list"

section \<open>Parsing addresses\<close>

definition is_digit :: "char \<Rightarrow> bool" where
  "is_digit c \<longleftrightarrow> 48 \<le> (of_char c :: nat) \<and> (of_char c :: nat) \<le> 57"

definition v4InV6Prefix :: IP where
  "v4InV6Prefix = replicate 10 0 @ [255, 255]"

fun split_at :: "char \<Rightarrow> string \<Rightarrow> string list" where
  "split_at d [] = [[]]"
| "split_at d (c # cs) =
     (if c = d then [] # split_at d cs
      else (case split_at d cs of [] \<Rightarrow> [[c]] | w # ws \<Rightarrow> (c # w) # ws))"

text \<open>
  An octet is one to three digits without a leading zero, at most 255; an IPv4 address is
  four octets between dots, kept in its 16-byte form.
\<close>

definition parse_octet :: "string \<Rightarrow> byte option" where
  "parse_octet w =
     (if w \<noteq> [] \<and> length w \<le> 3 \<and> list_all is_digit w \<and> dec_value w \<le> 255
         \<and> (length w > 1 \<longrightarrow> hd w \<noteq> CHR ''0'')
      then Some (word_of_nat (dec_value w)) else None)"

definition parseIPv4 :: "string \<Rightarrow> IP option" where
  "parseIPv4 s =
     (case map parse_octet (split_at (CHR ''.'') s) of
        [Some a, Some b, Some c, Some d] \<Rightarrow> Some (v4InV6Prefix @ [a, b, c, d])
      | _ \<Rightarrow> None)"

fun hex_digit :: "char \<Rightarrow> nat option" where
  "hex_digit c =
     (let n = of_char c :: nat in
      if 48 \<le> n \<and> n \<le> 57 then Some (n - 48)
      else if 97 \<le> n \<and> n \<le> 102 then Some (n - 87)
      else if 65 \<le> n \<and> n \<le> 70 then Some (n - 55) else None)"

text \<open>
  \<open>xtoi\<close>: the leading hexadecimal number and the rest of the string; the parser refuses a
  value above \<open>0xFFFF\<close>.
\<close>

fun xtoi_aux :: "nat \<Rightarrow> string \<Rightarrow> nat \<times> string" where
  "xtoi_aux n [] = (n, [])"
| "xtoi_aux n (c # cs) =
     (case hex_digit c of None \<Rightarrow> (n, c # cs) | Some d \<Rightarrow> xtoi_aux (16 * n + d) cs)"

definition xtoi :: "string \<Rightarrow> (nat \<times> string) option" where
  "xtoi s = (let (n, rest) = xtoi_aux 0 s in if rest = s \<or> n > 65535 then None else Some (n, rest))"

text \<open>
  The loop of \<open>parseIPv6\<close>: \<open>k\<close> counts the groups that still fit, \<open>acc\<close> holds the bytes
  read, \<open>ell\<close> the position of the double colon.
\<close>

fun parseIPv6_loop :: "nat \<Rightarrow> IP \<Rightarrow> nat option \<Rightarrow> string \<Rightarrow> (IP \<times> nat option \<times> string) option" where
  "parseIPv6_loop 0 acc ell s = Some (acc, ell, s)"
| "parseIPv6_loop (Suc k) acc ell s =
     (case xtoi s of None \<Rightarrow> None
      | Some (n, rest) \<Rightarrow>
         if rest \<noteq> [] \<and> hd rest = CHR ''.'' then
           (if (ell = None \<and> length acc \<noteq> 12) \<or> length acc + 4 > 16 then None
            else (case parseIPv4 s of None \<Rightarrow> None
                  | Some ip4 \<Rightarrow> Some (acc @ drop 12 ip4, ell, [])))
         else
           (let acc' = acc @ [word_of_nat (n div 256), word_of_nat (n mod 256)] in
            if rest = [] then Some (acc', ell, [])
            else if hd rest \<noteq> CHR '':'' \<or> length rest = 1 then None
            else (let s' = tl rest in
              if hd s' = CHR '':'' then
                (if ell \<noteq> None then None
                 else if tl s' = [] then Some (acc', Some (length acc'), [])
                 else parseIPv6_loop k acc' (Some (length acc')) (tl s'))
              else parseIPv6_loop k acc' ell s')))"

definition expand_ellipsis :: "IP \<Rightarrow> nat option \<Rightarrow> IP option" where
  "expand_ellipsis acc ell =
     (if length acc < 16 then
        (case ell of None \<Rightarrow> None
         | Some e \<Rightarrow> Some (take e acc @ replicate (16 - length acc) 0 @ drop e acc))
      else if ell \<noteq> None then None else Some acc)"

definition parseIPv6 :: "string \<Rightarrow> IP option" where
  "parseIPv6 s =
     (let lead = has_prefix s ''::''; s' = (if lead then drop 2 s else s);
          ell = (if lead then Some 0 else None) in
      if lead \<and> s' = [] then Some (replicate 16 0)
      else (case parseIPv6_loop 8 [] ell s' of None \<Rightarrow> None
            | Some (acc, ell', rest) \<Rightarrow>
                if rest \<noteq> [] then None else expand_ellipsis acc ell'))"

section \<open>Networks\<close>

record IPNet =
  net_IP :: IP
  net_Mask :: IP

definition To4 :: "IP \<Rightarrow> IP option" where
  "To4 ip = (if length ip = 4 then Some ip
     else if length ip = 16 \<and> take 12 ip = v4InV6Prefix then Some (drop 12 ip) else None)"

fun CIDRMask :: "nat \<Rightarrow> nat \<Rightarrow> IP" where
  "CIDRMask n 0 = []"
| "CIDRMask n (Suc k) =
     (if n \<ge> 8 then 255 # CIDRMask (n - 8) k
      else NOT (drop_bit n 255) # CIDRMask 0 k)"

definition ip_Mask :: "IP \<Rightarrow> IP \<Rightarrow> IP" where
  "ip_Mask ip msk =
     (let msk2 = (if length msk = 16 \<and> length ip = 4 \<and> list_all (\<lambda>b. b = 255) (take 12 msk)
                   then drop 12 msk else msk);
          ip' = (if length msk2 = 4 \<and> length ip = 16 \<and> take 12 ip = v4InV6Prefix
                 then drop 12 ip else ip) in
      if length ip' \<noteq> length msk2 then [] else map2 (AND) ip' msk2)"

text \<open>
  \<open>net.ParseCIDR\<close>: the text before the first slash is an IPv4 or IPv6 address, the text
  after it a decimal prefix length that fits the address family.
\<close>

definition cidr_error :: "string \<Rightarrow> gerr" where
  "cidr_error s = ErrorString (''invalid CIDR address: '' @ s)"

definition ParseCIDR :: "string \<Rightarrow> gerr + (IP \<times> IPNet)" where
  "ParseCIDR s =
     (let addr = takeWhile (\<lambda>c. c \<noteq> CHR ''/'') s;
          after = dropWhile (\<lambda>c. c \<noteq> CHR ''/'') s in
      if after = [] then Inl (cidr_error s)
      else
       (let msk = tl after;
            (iplen, ip) = (case parseIPv4 addr of Some ip \<Rightarrow> (4, Some ip)
                           | None \<Rightarrow> (16, parseIPv6 addr)) in
        (case ip of None \<Rightarrow> Inl (cidr_error s)
         | Some a \<Rightarrow>
            if msk = [] \<or> \<not> list_all is_digit msk \<or> dec_value msk > 8 * iplen
            then Inl (cidr_error s)
            else (let m = CIDRMask (dec_value msk) iplen in
                  Inr (a, \<lparr>net_IP = ip_Mask a m, net_Mask = m\<rparr>)))))"

definition networkNumberAndMask :: "IPNet \<Rightarrow> (IP \<times> IP) option" where
  "networkNumberAndMask n =
     (case (case To4 (net_IP n) of Some ip \<Rightarrow> Some ip
            | None \<Rightarrow> if length (net_IP n) = 16 then Some (net_IP n) else None) of
        None \<Rightarrow> None
      | Some ip \<Rightarrow>
          if length (net_Mask n) = 4 then
            (if length ip = 4 then Some (ip, net_Mask n) else None)
          else if length (net_Mask n) = 16 then
            Some (ip, if length ip = 4 then drop 12 (net_Mask n) else net_Mask n)
          else None)"

definition IPNet_Contains :: "IPNet \<Rightarrow> IP \<Rightarrow> bool" where
  "IPNet_Contains n ip0 =
     (let (nn, m) = (case networkNumberAndMask n of None \<Rightarrow> ([], []) | Some p \<Rightarrow> p);
          ip = (case To4 ip0 of Some x \<Rightarrow> x | None \<Rightarrow> ip0) in
      length ip = length nn \<and> map2 (AND) nn m = map2 (AND) ip m)"

section \<open>Printing addresses\<close>

definition hexdigit :: "nat \<Rightarrow> char" where
  "hexdigit d = (if d < 10 then char_of (48 + d) else char_of (87 + d))"

fun hex_string :: "nat \<Rightarrow> string" where
  "hex_string n = (if n < 16 then [hexdigit n] else hex_string (n div 16) @ [hexdigit (n mod 16)])"

declare hex_string.simps [simp del]

definition dotted :: "IP \<Rightarrow> string" where
  "dotted bs = concat (case map (\<lambda>b. itoa (unat b)) bs of
       [] \<Rightarrow> [] | w # ws \<Rightarrow> w # map (\<lambda>v. CHR ''.'' # v) ws)"

fun groups :: "IP \<Rightarrow> nat list" where
  "groups (a # b # bs) = (256 * unat a + unat b) # groups bs"
| "groups _ = []"

definition zero_run :: "nat list \<Rightarrow> nat \<Rightarrow> nat" where
  "zero_run gs i = length (takeWhile (\<lambda>g. g = 0) (drop i gs))"

text \<open>The first longest run of zero groups, if it has at least two groups.\<close>

definition best_run :: "nat list \<Rightarrow> (nat \<times> nat) option" where
  "best_run gs =
     (let m = Max (insert 0 (set (map (zero_run gs) [0..<length gs]))) in
      if m < 2 then None
      else map_option (\<lambda>i. (i, m)) (find (\<lambda>i. zero_run gs i = m) [0..<length gs]))"

definition colons :: "nat list \<Rightarrow> string" where
  "colons gs = concat (case map hex_string gs of
       [] \<Rightarrow> [] | w # ws \<Rightarrow> w # map (\<lambda>v. CHR '':'' # v) ws)"

definition ip_String :: "IP \<Rightarrow> string" where
  "ip_String ip =
     (if ip = [] then ''<nil>''
      else (case To4 ip of Some p4 \<Rightarrow> dotted p4
        | None \<Rightarrow>
            if length ip \<noteq> 16 then
              ''?'' @ concat (map (\<lambda>b. [hexdigit (unat b div 16), hexdigit (unat b mod 16)]) ip)
            else (case best_run (groups ip) of
                    None \<Rightarrow> colons (groups ip)
                  | Some (i, n) \<Rightarrow> colons (take i (groups ip)) @ ''::'' @
                      colons (drop (i + n) (groups ip)))))"

section \<open>The client's address filter\<close>

record VMIPSearchParams =
  excludedRanges :: "IPNet list"
  includedRanges :: "IPNet list"
  excludedInterfaceNames :: "string list"
  includedInterfaceNames :: "string list"
  excludedInterfaceNamePatterns :: "(string \<Rightarrow> bool) list"
  includedInterfaceNamePatterns :: "(string \<Rightarrow> bool) list"

definition NewVMIPSearchParams :: VMIPSearchParams where
  "NewVMIPSearchParams =
     \<lparr>excludedRanges = [], includedRanges = [], excludedInterfaceNames = [],
      includedInterfaceNames = [], excludedInterfaceNamePatterns = [],
      includedInterfaceNamePatterns = []\<rparr>"

definition WithIncludedInterfacePattern ::
  "(string \<Rightarrow> bool) \<Rightarrow> VMIPSearchParams \<Rightarrow> VMIPSearchParams" where
  "WithIncludedInterfacePattern re v =
     v\<lparr>includedInterfaceNamePatterns := includedInterfaceNamePatterns v @ [re]\<rparr>"

definition WithExcludedRange :: "IPNet \<Rightarrow> VMIPSearchParams \<Rightarrow> VMIPSearchParams" where
  "WithExcludedRange r v = v\<lparr>excludedRanges := excludedRanges v @ [r]\<rparr>"

definition gatherInterfaceIPs :: "IP list \<Rightarrow> IPNet list \<Rightarrow> IPNet list \<Rightarrow> IP list" where
  "gatherInterfaceIPs ips excl incl =
     filter (\<lambda>ip. \<not> list_ex (\<lambda>r. IPNet_Contains r ip) excl
                  \<and> (incl \<noteq> [] \<longrightarrow> list_ex (\<lambda>r. IPNet_Contains r ip) incl)) ips"

definition excludeInterface :: "VMIPSearchParams \<Rightarrow> string \<Rightarrow> bool" where
  "excludeInterface v interf =
     (if interf \<in> set (excludedInterfaceNames v)
         \<or> list_ex (\<lambda>p. p interf) (excludedInterfaceNamePatterns v) then True
      else \<not> ((includedInterfaceNames v = [] \<and> includedInterfaceNamePatterns v = [])
              \<or> interf \<in> set (includedInterfaceNames v)
              \<or> list_ex (\<lambda>p. p interf) (includedInterfaceNamePatterns v)))"

text \<open>
  Go ranges over the map of interfaces in any order; the list here is the map's entries in
  the order they are visited.
\<close>

definition filterReportedIPList ::
  "(string \<times> IP list) list \<Rightarrow> VMIPSearchParams \<Rightarrow> (string \<times> IP list) list" where
  "filterReportedIPList source v =
     filter (\<lambda>(interf, ipList). ipList \<noteq> [])
       (map (\<lambda>(interf, ips). (interf, gatherInterfaceIPs ips (excludedRanges v) (includedRanges v)))
          (filter (\<lambda>(interf, ips). \<not> excludeInterface v interf) source))"

lemma filterReportedIPList_sound:
  assumes "(interf, ips') \<in> set (filterReportedIPList source v)" and "ip \<in> set ips'"
  shows "\<exists>ips. (interf, ips) \<in> set source \<and> ip \<in> set ips \<and> \<not> excludeInterface v interf
           \<and> (\<forall>r \<in> set (excludedRanges v). \<not> IPNet_Contains r ip)"
  using assms
  by (auto simp: filterReportedIPList_def gatherInterfaceIPs_def list_ex_iff)

end
