(* ===== verification/Services.thy ===== *)
theory Services
  imports Provider_API Credentials Go_Net
begin

text \<open>
  The services the program talks to, and the state its operations run in.

  The oVirt engine, the Kubernetes API server and the host's file system are outside the
  program: a client is a record of functions on an arbitrary world \<open>'w\<close>. Each may return
  any result or error and change the world in any way, so a theorem about all worlds and
  all clients covers every behaviour of the services, including changes made by others
  between two calls. The state \<open>'w sys\<close> holds the world, the Machine object the
  controller passed in (operations mutate it through its pointer), the cached clients
  (shared by pointer between their owners and the credential service), the events sent to
  the recorder, and a ghost log of the API calls with their outcome, on which ordering
  properties are stated.
\<close>

section \<open>Objects of the oVirt engine\<close>

type_synonym VMStatus = string

definition VMStatusDown :: VMStatus where "VMStatusDown = ''down''"
definition VMStatusMigrating :: VMStatus where "VMStatusMigrating = ''migrating''"
definition VMStatusUp :: VMStatus where "VMStatusUp = ''up''"

record vm =
  vm_id :: string
  vm_name :: string
  vm_status :: VMStatus

record host =
  host_id :: string
  host_clusterID :: string

record disk_attachment =
  da_diskID :: string
  da_bootable :: bool

record disk =
  dsk_id :: string
  dsk_provisionedSize :: uint64

record nic =
  nic_id :: string
  nic_vmID :: string

record graphics_console =
  gc_id :: string
  gc_vmID :: string

record affinity_group =
  ag_id :: string
  ag_clusterID :: string

section \<open>Objects of the Kubernetes API\<close>

text \<open>
  The fields of a Machine and of a Node that the program and the machine controller read or
  write: \<open>mc_Deleted\<close> says that the deletion timestamp is set, a node reference and a lifecycle
  hook are known by their names.
\<close>

record node_address =
  na_Type :: string
  na_Address :: string

record machine_status =
  mst_ErrorReason :: "string option"
  mst_ErrorMessage :: "string option"
  mst_ProviderStatus :: "RawExtension option"
  mst_Addresses :: "node_address list"
  mst_Phase :: "string option"
  mst_NodeRef :: "string option"

record Machine =
  mc_Name :: string
  mc_Namespace :: string
  mc_Labels :: "string \<Rightarrow> string option"
  mc_Annotations :: "(string \<Rightarrow> string option) option"
  mc_ProviderSpecValue :: "RawExtension option"
  mc_ProviderID :: "string option"
  mc_Deleted :: bool
  mc_Finalizers :: "string list"
  mc_PreDrain :: "string list"
  mc_PreTerminate :: "string list"
  mc_Status :: machine_status

record Node =
  nd_Name :: string
  nd_ProviderID :: string

record OvirtPlatformStatus =
  ops_APIServerInternalIP :: string
  ops_IngressIP :: string

text \<open>\<open>infra.Status.PlatformStatus\<close> and its \<open>Ovirt\<close> field are pointers.\<close>

record Infrastructure =
  inf_PlatformStatus :: "OvirtPlatformStatus option option"

section \<open>The API calls, as the log records them\<close>

datatype api_call =
    GetVMByNameCall string
  | ListHostsCall
  | GetTemplateByNameCall string
  | ListTemplateDiskAttachmentsCall string
  | CreateVMCall string string string vm_params
  | WaitForVMStatusCall string VMStatus
  | ListGraphicsConsolesCall string
  | RemoveGraphicsConsoleCall string string
  | ListDiskAttachmentsCall string
  | GetDiskCall string
  | UpdateDiskCall string uint64
  | WaitForDiskOKCall string
  | ListNICsCall string
  | RemoveNICCall string string
  | CreateNICCall string string string
  | AutoOptimizePinningCall string bool
  | AddTagCall string string
  | GetAffinityGroupCall string string
  | AddVMToAffinityGroupCall string string string
  | StartVMCall string
  | StopVMCall string bool
  | RemoveVMCall string
  | ReportedIPsCall string
  | SupportsFeatureCall string
  | TestCall
  | GetSecretCall string string
  | GetInfrastructureCall string
  | PatchMachineCall Machine Machine
  | PatchMachineStatusCall Machine Machine
  | UpdateMachineCall Machine
  | GetNodeCall string
  | UpdateNodeCall Node
  | DeleteNodeCall string
  | DrainNodeCall string
  | GetMachineCall string
  | CreateTempCall
  | WriteFileCall string string
  | NewClientCall "Credentials option"
  | ManagerCall string

section \<open>Clients\<close>

text \<open>
  An operation returns an error or a value (the pairs \<open>(zero, err)\<close> and \<open>(v, nil)\<close> of
  Go). \<open>GetVMByName\<close> keeps both parts of its result, because the code tests them
  separately. \<open>oc_ReportedIPs\<close> is the engine's answer before the client filters it.
\<close>

type_synonym ('w, 'a) op = "'w \<Rightarrow> (gerr + 'a) \<times> 'w"

record 'w ovirt_client =
  oc_GetVMByName :: "string \<Rightarrow> 'w \<Rightarrow> (vm option \<times> gerr option) \<times> 'w"
  oc_ListHosts :: "('w, host list) op"
  oc_GetTemplateByName :: "string \<Rightarrow> ('w, string) op"
  oc_ListTemplateDiskAttachments :: "string \<Rightarrow> ('w, string list) op"
  oc_CreateVM :: "string \<Rightarrow> string \<Rightarrow> string \<Rightarrow> vm_params \<Rightarrow> ('w, vm) op"
  oc_WaitForVMStatus :: "string \<Rightarrow> VMStatus \<Rightarrow> ('w, vm) op"
  oc_ListGraphicsConsoles :: "string \<Rightarrow> ('w, graphics_console list) op"
  oc_RemoveGraphicsConsole :: "string \<Rightarrow> string \<Rightarrow> ('w, unit) op"
  oc_ListDiskAttachments :: "string \<Rightarrow> ('w, disk_attachment list) op"
  oc_GetDisk :: "string \<Rightarrow> ('w, disk) op"
  oc_UpdateDisk :: "string \<Rightarrow> uint64 \<Rightarrow> ('w, disk) op"
  oc_WaitForDiskOK :: "string \<Rightarrow> ('w, disk) op"
  oc_ListNICs :: "string \<Rightarrow> ('w, nic list) op"
  oc_RemoveNIC :: "string \<Rightarrow> string \<Rightarrow> ('w, unit) op"
  oc_CreateNIC :: "string \<Rightarrow> string \<Rightarrow> string \<Rightarrow> ('w, nic) op"
  oc_AutoOptimizeVMCPUPinningSettings :: "string \<Rightarrow> bool \<Rightarrow> ('w, unit) op"
  oc_AddTagToVMByName :: "string \<Rightarrow> string \<Rightarrow> ('w, unit) op"
  oc_GetAffinityGroupByName :: "string \<Rightarrow> string \<Rightarrow> ('w, affinity_group) op"
  oc_AddVMToAffinityGroup :: "string \<Rightarrow> string \<Rightarrow> string \<Rightarrow> ('w, unit) op"
  oc_StartVM :: "string \<Rightarrow> ('w, unit) op"
  oc_StopVM :: "string \<Rightarrow> bool \<Rightarrow> ('w, unit) op"
  oc_RemoveVM :: "string \<Rightarrow> ('w, unit) op"
  oc_ReportedIPs :: "string \<Rightarrow> ('w, (string \<times> IP list) list) op"
  oc_SupportsFeature :: "string \<Rightarrow> ('w, bool) op"
  oc_Test :: "('w, unit) op"

record 'w k8s_client =
  kc_GetSecret :: "string \<Rightarrow> string \<Rightarrow> ('w, secret_data) op"
  kc_GetInfrastructure :: "string \<Rightarrow> ('w, Infrastructure) op"
  kc_PatchMachine :: "Machine \<Rightarrow> Machine \<Rightarrow> ('w, Machine) op"
  kc_PatchMachineStatus :: "Machine \<Rightarrow> Machine \<Rightarrow> ('w, Machine) op"
  kc_UpdateMachine :: "Machine \<Rightarrow> ('w, Machine) op"
  kc_GetNode :: "string \<Rightarrow> ('w, Node) op"
  kc_UpdateNode :: "Node \<Rightarrow> ('w, Node) op"
  kc_DeleteNode :: "string \<Rightarrow> ('w, unit) op"
  kc_GetMachine :: "string \<Rightarrow> ('w, Machine) op"

text \<open>The TLS settings \<open>CreateNewOVirtClient\<close> builds (\<open>tls.go\<close> of the client library).\<close>

record tls_config =
  tls_insecure :: bool
  tls_caCerts :: "string list"
  tls_files :: "string list"
  tls_system :: bool

text \<open>
  A client creation function takes a pointer to the credentials, which may be nil.
  \<open>environment\<close> gathers the libraries: the constructor of a real client, the temporary
  files, the JSON codecs, and the order in which Go visits the keys of a map.
\<close>

type_synonym 'w CreateOVirtClientFunc = "Credentials option \<Rightarrow> ('w, 'w ovirt_client) op"

record 'w environment =
  env_NewWithVerify :: "string \<Rightarrow> string \<Rightarrow> string \<Rightarrow> tls_config \<Rightarrow> ('w, 'w ovirt_client) op"
  env_CreateTemp :: "('w, string) op"
  env_Write :: "string \<Rightarrow> string \<Rightarrow> ('w, unit) op"
  env_codec :: codec
  env_map_order :: "string list \<Rightarrow> string list"

record 'w cachedOVirtClient =
  cc_name :: string
  cc_credentials :: "Credentials option"
  cc_client :: "'w ovirt_client option"
  cc_clientCreateFunc :: "'w CreateOVirtClientFunc option"

section \<open>The state\<close>

record 'w sys =
  world :: 'w
  machine :: Machine
  caches :: "'w cachedOVirtClient list"
  credUpdateListener :: "nat list"
  recorded :: "(string \<times> string \<times> string) list"
  calls :: "(api_call \<times> bool) list"

text \<open>One call: the world changes, the log grows by the call and whether it succeeded.\<close>

definition api :: "api_call \<Rightarrow> ('w, 'a) op \<Rightarrow> ('w sys, 'a) go" where
  "api c f = (\<lambda>s. case f (world s) of
       (Inl e, w) \<Rightarrow> (Fail e, s\<lparr>world := w, calls := calls s @ [(c, False)]\<rparr>)
     | (Inr x, w) \<Rightarrow> (Val x, s\<lparr>world := w, calls := calls s @ [(c, True)]\<rparr>))"

definition GetVMByName ::
  "'w ovirt_client \<Rightarrow> string \<Rightarrow> ('w sys, vm option \<times> gerr option) go" where
  "GetVMByName C name = (\<lambda>s. case oc_GetVMByName C name (world s) of
       ((v, err), w) \<Rightarrow> (Val (v, err),
          s\<lparr>world := w, calls := calls s @ [(GetVMByNameCall name, err = None)]\<rparr>))"

end
