(* ===== verification/Call_Log.thy ===== *)
theory Call_Log
  imports Services
begin

text \<open>
  How operations extend the log of API calls and which parts of the state they leave
  alone. \<open>emits A m\<close>: every call \<open>m\<close> adds to the log, whatever the services answer and
  however \<open>m\<close> ends, satisfies \<open>A\<close>. \<open>preserves f m\<close>: \<open>m\<close> never changes the part \<open>f\<close> of
  the state. The introduction rules follow the effect combinators, so a fact about an
  operation is proved by one \<open>intro\<close> over its definition.
\<close>

type_synonym call_log = "(api_call \<times> bool) list"

named_theorems emits_intros \<open>rules for the calls an operation can make\<close>
named_theorems preserves_intros \<open>rules for the parts of the state an operation keeps\<close>

section \<open>The calls of an operation\<close>

definition emits :: "(api_call \<Rightarrow> bool) \<Rightarrow> ('w sys, 'a) go \<Rightarrow> bool" where
  "emits A m \<longleftrightarrow>
     (\<forall>s r s'. m s = (r, s') \<longrightarrow> (\<exists>new. calls s' = calls s @ new \<and> (\<forall>e \<in> set new. A (fst e))))"

lemma emitsI:
  "(\<And>s r s'. m s = (r, s') \<Longrightarrow> \<exists>new. calls s' = calls s @ new \<and> (\<forall>e \<in> set new. A (fst e)))
     \<Longrightarrow> emits A m"
  by (simp add: emits_def)

lemma emitsE:
  assumes "emits A m" and "m s = (r, s')"
  obtains new where "calls s' = calls s @ new" and "\<forall>e \<in> set new. A (fst e)"
  using assms unfolding emits_def by blast

lemma emitsD:
  assumes "emits A m" and "m s = (r, s')"
  shows "\<exists>new. calls s' = calls s @ new \<and> (\<forall>e \<in> set new. A (fst e))"
  using assms unfolding emits_def by blast

lemma emits_mono: "emits A m \<Longrightarrow> (\<And>c. A c \<Longrightarrow> B c) \<Longrightarrow> emits B m"
  unfolding emits_def by meson

lemma emits_const:
  assumes "\<And>s. calls (snd (m s)) = calls s"
  shows "emits A m"
proof (rule emitsI)
  fix s r s'
  assume "m s = (r, s')"
  with assms [of s] show "\<exists>new. calls s' = calls s @ new \<and> (\<forall>e \<in> set new. A (fst e))" by simp
qed

lemma emits_ret [emits_intros]: "emits A (ret x)"
  by (rule emits_const) simp

lemma emits_Pair [emits_intros]: "emits A (Pair r)"
  by (rule emits_const) simp

lemma emits_fail [emits_intros]: "emits A (fail e)"
  by (rule emits_const) simp

lemma emits_crash [emits_intros]: "emits A (crash p)"
  by (rule emits_const) simp

lemma emits_gets [emits_intros]: "emits A (gets f)"
  by (rule emits_const) simp

lemma emits_lift_res [emits_intros]: "emits A (lift_res r)"
  by (rule emits_const) simp

lemma emits_lift_err [emits_intros]: "emits A (lift_err eo)"
  by (cases eo) (simp_all add: emits_intros)

lemma emits_deref [emits_intros]: "emits A (deref p)"
  by (cases p) (simp_all add: emits_intros)

lemma emits_modify [emits_intros]: "(\<And>s. calls (f s) = calls s) \<Longrightarrow> emits A (modify f)"
  by (rule emits_const) simp

text \<open>The continuation may rely on what the first operation returned.\<close>

lemma emits_bind_dep:
  assumes "emits A m" and "\<And>s x s'. m s = (Val x, s') \<Longrightarrow> emits A (k x)"
  shows "emits A (bind m k)"
proof (rule emitsI)
  fix s r s''
  assume "bind m k s = (r, s'')"
  then show "\<exists>new. calls s'' = calls s @ new \<and> (\<forall>e \<in> set new. A (fst e))"
  proof (cases rule: bind_cases)
    case (Val x s')
    from assms(1) Val(1) obtain n1
      where 1: "calls s' = calls s @ n1" "\<forall>e \<in> set n1. A (fst e)" by (rule emitsE)
    from assms(2) [OF Val(1)] Val(2) obtain n2
      where 2: "calls s'' = calls s' @ n2" "\<forall>e \<in> set n2. A (fst e)" by (rule emitsE)
    from 1 2 show ?thesis by (intro exI [of _ "n1 @ n2"]) auto
  qed (use assms(1) in \<open>auto elim: emitsE\<close>)
qed

lemma emits_bind [emits_intros]:
  "emits A m \<Longrightarrow> (\<And>x. emits A (k x)) \<Longrightarrow> emits A (bind m k)"
  by (rule emits_bind_dep)

lemma emits_map_err [emits_intros]: "emits A m \<Longrightarrow> emits A (map_err f m)"
  unfolding emits_def by (metis prod.collapse snd_conv snd_map_err)

lemma emits_annotate [emits_intros]: "emits A m \<Longrightarrow> emits A (annotate msg m)"
  by (simp add: annotate_def emits_map_err)

lemma emits_attempt [emits_intros]: "emits A m \<Longrightarrow> emits A (attempt m)"
  unfolding emits_def by (metis prod.collapse snd_conv snd_attempt)

lemma emits_if [emits_intros]:
  "(b \<Longrightarrow> emits A m) \<Longrightarrow> (\<not> b \<Longrightarrow> emits A n) \<Longrightarrow> emits A (if b then m else n)"
  by simp

lemma emits_case_option [emits_intros]:
  "(x = None \<Longrightarrow> emits A m) \<Longrightarrow> (\<And>y. x = Some y \<Longrightarrow> emits A (k y)) \<Longrightarrow>
   emits A (case x of None \<Rightarrow> m | Some y \<Rightarrow> k y)"
  by (cases x) simp_all

lemma emits_case_sum [emits_intros]:
  "(\<And>y. x = Inl y \<Longrightarrow> emits A (m y)) \<Longrightarrow> (\<And>y. x = Inr y \<Longrightarrow> emits A (k y)) \<Longrightarrow>
   emits A (case x of Inl y \<Rightarrow> m y | Inr y \<Rightarrow> k y)"
  by (cases x) simp_all

lemma emits_case_prod [emits_intros]:
  "(\<And>a b. x = (a, b) \<Longrightarrow> emits A (k a b)) \<Longrightarrow> emits A (case x of (a, b) \<Rightarrow> k a b)"
  by (cases x) simp

lemma emits_Let [emits_intros]: "(\<And>x. x = t \<Longrightarrow> emits A (k x)) \<Longrightarrow> emits A (let x = t in k x)"
  by simp

lemma emits_for_each [emits_intros]:
  "(\<And>x. x \<in> set xs \<Longrightarrow> emits A (f x)) \<Longrightarrow> emits A (for_each f xs)"
  by (induction xs) (auto intro: emits_intros)

lemma api_ok [simp]:
  "f (world s) = (Inr x, w) \<Longrightarrow>
     api c f s = (Val x, s\<lparr>world := w, calls := calls s @ [(c, True)]\<rparr>)"
  by (simp add: api_def)

lemma api_failed [simp]:
  "f (world s) = (Inl e, w) \<Longrightarrow>
     api c f s = (Fail e, s\<lparr>world := w, calls := calls s @ [(c, False)]\<rparr>)"
  by (simp add: api_def)

lemma api_run: "api c f s = (r, s') \<Longrightarrow> calls s' = calls s @ [(c, \<exists>x. r = Val x)]"
  by (auto simp: api_def split: prod.splits sum.splits)

lemma emits_api [emits_intros]: "A c \<Longrightarrow> emits A (api c f)"
  by (rule emitsI) (auto dest: api_run)

lemma emits_GetVMByName [emits_intros]: "A (GetVMByNameCall n) \<Longrightarrow> emits A (GetVMByName C n)"
  by (rule emitsI) (auto simp: GetVMByName_def split: prod.splits)

lemma api_ValD: "api c f s = (Val x, s') \<Longrightarrow> calls s' = calls s @ [(c, True)]"
  by (drule api_run) simp

lemma api_FailD: "api c f s = (Fail e, s') \<Longrightarrow> calls s' = calls s @ [(c, False)]"
  by (drule api_run) simp

text \<open>
  \<open>answers f x\<close>, \<open>rejects f e\<close>: from some state of the world, the operation \<open>f\<close> returns
  \<open>x\<close>, or the error \<open>e\<close>.
\<close>

definition answers :: "('w, 'a) op \<Rightarrow> 'a \<Rightarrow> bool" where
  "answers f x \<longleftrightarrow> (\<exists>w w'. f w = (Inr x, w'))"

definition rejects :: "('w, 'a) op \<Rightarrow> gerr \<Rightarrow> bool" where
  "rejects f e \<longleftrightarrow> (\<exists>w w'. f w = (Inl e, w'))"

lemma api_rejects: "api c f s = (Fail e, s') \<Longrightarrow> rejects f e"
  unfolding rejects_def
  by (auto simp: api_def split: prod.splits sum.splits)

lemma api_answers: "api c f s = (Val x, s') \<Longrightarrow> answers f x"
  unfolding answers_def
  by (auto simp: api_def split: prod.splits sum.splits)

lemma no_crash_api [no_crash_intros]: "no_crash (api c f)"
  by (auto simp: no_crash_def api_def split: prod.splits sum.splits)

lemma no_crash_GetVMByName [no_crash_intros]: "no_crash (GetVMByName C n)"
  by (auto simp: no_crash_def GetVMByName_def split: prod.splits)

text \<open>A call returns an answer or an error, and logs which.\<close>

lemma api_cases:
  assumes "api c f s = (r, s')"
  obtains (answer) x where "r = Val x" and "answers f x" and "calls s' = calls s @ [(c, True)]"
    | (error) e where "r = Fail e" and "rejects f e" and "calls s' = calls s @ [(c, False)]"
  using assms by (cases r) (auto dest: api_answers api_rejects api_ValD api_FailD no_crashD [OF no_crash_api])

lemma api_Val_iff: "api c f s = (Val x, s') \<longleftrightarrow>
    (\<exists>w. f (world s) = (Inr x, w) \<and> s' = s\<lparr>world := w, calls := calls s @ [(c, True)]\<rparr>)"
  by (auto simp: api_def split: prod.splits sum.splits)

lemma api_not_Crash [simp]: "api c f s \<noteq> (Crash p, s')"
  by (auto simp: api_def split: prod.splits sum.splits)

lemma GetVMByName_answer [simp]:
  "oc_GetVMByName C n (world s) = (x, w) \<Longrightarrow> GetVMByName C n s =
     (Val x, s\<lparr>world := w, calls := calls s @ [(GetVMByNameCall n, snd x = None)]\<rparr>)"
  by (cases x) (simp add: GetVMByName_def)

lemma GetVMByName_iff:
  "GetVMByName C n s = (Val x, s') \<longleftrightarrow>
     (\<exists>w. oc_GetVMByName C n (world s) = (x, w) \<and>
       s' = s\<lparr>world := w, calls := calls s @ [(GetVMByNameCall n, snd x = None)]\<rparr>)"
  by (auto simp: GetVMByName_def split: prod.splits)

text \<open>A logged call that an earlier operation cannot make was made by a later one.\<close>

lemma logged_in_bind:
  assumes "bind m k s = (r, s')" and "calls s' = calls s @ new" and "(c, ok) \<in> set new"
    and "emits A m" and "\<not> A c" and "\<And>x. emits (\<lambda>_. True) (k x)"
  obtains x s1 n2 where "m s = (Val x, s1)" and "k x s1 = (r, s')"
    and "calls s' = calls s1 @ n2" and "(c, ok) \<in> set n2"
  using assms(1)
proof (cases rule: bind_cases)
  case (Val x s1)
  from emitsD [OF assms(4) Val(1)] obtain n1 where n1: "calls s1 = calls s @ n1" "\<forall>e \<in> set n1. A (fst e)"
    by blast
  from emitsD [OF assms(6) Val(2)] obtain n2 where n2: "calls s' = calls s1 @ n2" by blast
  from n1 n2 assms(2,3,5) have "(c, ok) \<in> set n2" by auto
  with Val n2 that show thesis by blast
qed (use emitsD [OF assms(4)] assms(2,3,5) in fastforce)+

lemma logged_in_attempt:
  assumes "bind (attempt m) (case_sum f k) s = (r, s')" and "calls s' = calls s @ new"
    and "(c, ok) \<in> set new" and "emits A m" and "\<not> A c" and "\<And>e. emits (\<lambda>_. False) (f e)"
    and "\<And>x. emits (\<lambda>_. True) (k x)"
  obtains x s1 n2 where "m s = (Val x, s1)" and "k x s1 = (r, s')"
    and "calls s' = calls s1 @ n2" and "(c, ok) \<in> set n2"
proof -
  have "emits (\<lambda>_. True) (case_sum f k y)" for y
    by (cases y) (auto intro: assms(7) emits_mono [OF assms(6)])
  then obtain y s1 n2 where 1: "attempt m s = (Val y, s1)" "case_sum f k y s1 = (r, s')"
    "calls s' = calls s1 @ n2" "(c, ok) \<in> set n2"
    by (rule logged_in_bind [OF assms(1-3) emits_attempt [OF assms(4)] assms(5)])
  from 1(1) show thesis
  proof (cases rule: attempt_Val_cases)
    case (error e)
    with 1(2-4) emitsD [OF assms(6) [of e]] show thesis by fastforce
  qed (use 1 that in auto)
qed

section \<open>The parts of the state an operation keeps\<close>

definition preserves :: "('w sys \<Rightarrow> 'b) \<Rightarrow> ('w sys, 'a) go \<Rightarrow> bool" where
  "preserves f m \<longleftrightarrow> (\<forall>s r s'. m s = (r, s') \<longrightarrow> f s' = f s)"

lemma preservesI: "(\<And>s r s'. m s = (r, s') \<Longrightarrow> f s' = f s) \<Longrightarrow> preserves f m"
  by (simp add: preserves_def)

lemma preservesD: "preserves f m \<Longrightarrow> m s = (r, s') \<Longrightarrow> f s' = f s"
  by (simp add: preserves_def)

lemma preserves_pure [preserves_intros]:
  "preserves f (ret x)" "preserves f (fail e)" "preserves f (crash p)"
  "preserves f (gets g)" "preserves f (lift_res r)"
  by (simp_all add: preserves_def)

lemma preserves_lift_err [preserves_intros]: "preserves f (lift_err eo)"
  by (cases eo) (simp_all add: preserves_intros)

lemma preserves_deref [preserves_intros]: "preserves f (deref p)"
  by (cases p) (simp_all add: preserves_intros)

lemma preserves_modify [preserves_intros]: "(\<And>s. f (g s) = f s) \<Longrightarrow> preserves f (modify g)"
  by (simp add: preserves_def)

lemma preserves_bind [preserves_intros]:
  "preserves f m \<Longrightarrow> (\<And>x. preserves f (k x)) \<Longrightarrow> preserves f (bind m k)"
  unfolding preserves_def by (metis bind_cases)

lemma preserves_map_err [preserves_intros]: "preserves f m \<Longrightarrow> preserves f (map_err g m)"
  unfolding preserves_def by (metis prod.collapse snd_conv snd_map_err)

lemma preserves_annotate [preserves_intros]: "preserves f m \<Longrightarrow> preserves f (annotate msg m)"
  by (simp add: annotate_def preserves_map_err)

lemma preserves_attempt [preserves_intros]: "preserves f m \<Longrightarrow> preserves f (attempt m)"
  unfolding preserves_def by (metis prod.collapse snd_conv snd_attempt)

lemma preserves_if [preserves_intros]:
  "(b \<Longrightarrow> preserves f m) \<Longrightarrow> (\<not> b \<Longrightarrow> preserves f n) \<Longrightarrow> preserves f (if b then m else n)"
  by simp

lemma preserves_case_option [preserves_intros]:
  "(x = None \<Longrightarrow> preserves f m) \<Longrightarrow> (\<And>y. x = Some y \<Longrightarrow> preserves f (k y)) \<Longrightarrow>
   preserves f (case x of None \<Rightarrow> m | Some y \<Rightarrow> k y)"
  by (cases x) simp_all

lemma preserves_case_sum [preserves_intros]:
  "(\<And>y. x = Inl y \<Longrightarrow> preserves f (m y)) \<Longrightarrow> (\<And>y. x = Inr y \<Longrightarrow> preserves f (k y)) \<Longrightarrow>
   preserves f (case x of Inl y \<Rightarrow> m y | Inr y \<Rightarrow> k y)"
  by (cases x) simp_all

lemma preserves_case_prod [preserves_intros]:
  "(\<And>a b. x = (a, b) \<Longrightarrow> preserves f (k a b)) \<Longrightarrow> preserves f (case x of (a, b) \<Rightarrow> k a b)"
  by (cases x) simp

lemma preserves_Let [preserves_intros]:
  "(\<And>x. x = t \<Longrightarrow> preserves f (k x)) \<Longrightarrow> preserves f (let x = t in k x)"
  by simp

lemma preserves_for_each [preserves_intros]:
  "(\<And>x. x \<in> set xs \<Longrightarrow> preserves f (g x)) \<Longrightarrow> preserves f (for_each g xs)"
  by (induction xs) (auto intro: preserves_intros)

lemma preserves_api [preserves_intros]:
  "preserves machine (api c f)" "preserves caches (api c f)" "preserves recorded (api c f)"
  "preserves credUpdateListener (api c f)"
  by (auto simp: preserves_def api_def split: prod.splits sum.splits)

lemma preserves_GetVMByName [preserves_intros]:
  "preserves machine (GetVMByName C n)" "preserves caches (GetVMByName C n)"
  "preserves recorded (GetVMByName C n)" "preserves credUpdateListener (GetVMByName C n)"
  by (auto simp: preserves_def GetVMByName_def split: prod.splits)

end
