(* ===== verification/Example_World.thy ===== *)
theory Example_World
  imports Call_Log
begin

text \<open>
  A small concrete world in which the theorems are applied: an engine that holds at most
  one VM, a Kubernetes API server that holds at most one Node, and a valid provider spec.
  It stands for the external services in the witnesses only; no theorem depends on it.
\<close>

record demo_world =
  dw_vm :: "vm option"
  dw_node :: "Node option"

definition demo_vm :: "string \<Rightarrow> vm" where
  "demo_vm name = \<lparr>vm_id = ''id1'', vm_name = name, vm_status = VMStatusUp\<rparr>"

definition demo_GetVMByName ::
  "string \<Rightarrow> demo_world \<Rightarrow> (vm option \<times> gerr option) \<times> demo_world" where
  "demo_GetVMByName n w = (case dw_vm w of
       Some v \<Rightarrow> if vm_name v = n then ((Some v, None), w)
                 else ((None, Some (newError ENotFound ''no such VM'')), w)
     | None \<Rightarrow> ((None, Some (newError ENotFound ''no such VM'')), w))"

definition demo_engine :: "demo_world ovirt_client" where
  "demo_engine =
     \<lparr>oc_GetVMByName = demo_GetVMByName,
      oc_ListHosts = (\<lambda>w. (Inr [\<lparr>host_id = ''h1'', host_clusterID = ''c1''\<rparr>,
                             \<lparr>host_id = ''h2'', host_clusterID = ''c2''\<rparr>], w)),
      oc_GetTemplateByName = (\<lambda>n w. (Inr ''t1'', w)),
      oc_ListTemplateDiskAttachments = (\<lambda>t w. (Inr [''td1''], w)),
      oc_CreateVM = (\<lambda>c t n p w. (Inr (demo_vm n), w\<lparr>dw_vm := Some (demo_vm n)\<rparr>)),
      oc_WaitForVMStatus = (\<lambda>i st w. (Inr \<lparr>vm_id = i, vm_name = ''m1'', vm_status = st\<rparr>, w)),
      oc_ListGraphicsConsoles = (\<lambda>i w. (Inr [\<lparr>gc_id = ''g1'', gc_vmID = i\<rparr>], w)),
      oc_RemoveGraphicsConsole = (\<lambda>v g w. (Inr (), w)),
      oc_ListDiskAttachments = (\<lambda>i w. (Inr [\<lparr>da_diskID = ''d1'', da_bootable = True\<rparr>], w)),
      oc_GetDisk = (\<lambda>i w. (Inr \<lparr>dsk_id = i, dsk_provisionedSize = 1073741824\<rparr>, w)),
      oc_UpdateDisk = (\<lambda>i n w. (Inr \<lparr>dsk_id = i, dsk_provisionedSize = n\<rparr>, w)),
      oc_WaitForDiskOK = (\<lambda>i w. (Inr \<lparr>dsk_id = i, dsk_provisionedSize = 0\<rparr>, w)),
      oc_ListNICs = (\<lambda>i w. (Inr [\<lparr>nic_id = ''n0'', nic_vmID = i\<rparr>], w)),
      oc_RemoveNIC = (\<lambda>v n w. (Inr (), w)),
      oc_CreateNIC = (\<lambda>v n pr w. (Inr \<lparr>nic_id = n, nic_vmID = v\<rparr>, w)),
      oc_AutoOptimizeVMCPUPinningSettings = (\<lambda>v b w. (Inr (), w)),
      oc_AddTagToVMByName = (\<lambda>v t w. (Inr (), w)),
      oc_GetAffinityGroupByName = (\<lambda>c n w. (Inr \<lparr>ag_id = n, ag_clusterID = c\<rparr>, w)),
      oc_AddVMToAffinityGroup = (\<lambda>c v g w. (Inr (), w)),
      oc_StartVM = (\<lambda>v w. (Inr (), w)),
      oc_StopVM = (\<lambda>v b w. (Inr (), w)),
      oc_RemoveVM = (\<lambda>v w. (Inr (), w\<lparr>dw_vm := None\<rparr>)),
      oc_ReportedIPs = (\<lambda>v w. (Inr [(''eth0'', [v4InV6Prefix @ [10, 0, 0, 1],
                                               v4InV6Prefix @ [10, 0, 0, 7]])], w)),
      oc_SupportsFeature = (\<lambda>f w. (Inr True, w)),
      oc_Test = (\<lambda>w. (Inr (), w))\<rparr>"

definition demo_k8s :: "demo_world k8s_client" where
  "demo_k8s =
     \<lparr>kc_GetSecret = (\<lambda>ns n w. (Inr [userDataSecretKey \<mapsto> ''ignition''], w)),
      kc_GetInfrastructure = (\<lambda>n w. (Inr \<lparr>inf_PlatformStatus = Some (Some
         \<lparr>ops_APIServerInternalIP = ''10.0.0.1'', ops_IngressIP = ''10.0.0.2''\<rparr>)\<rparr>, w)),
      kc_PatchMachine = (\<lambda>base m w. (Inr m, w)),
      kc_PatchMachineStatus = (\<lambda>base m w. (Inr m, w)),
      kc_UpdateMachine = (\<lambda>m w. (Inr m, w)),
      kc_GetNode = (\<lambda>n w. (case dw_node w of
          Some nd \<Rightarrow> if nd_Name nd = n then (Inr nd, w)
                     else (Inl (ApiStatus ''NotFound'' 404 ''node not found''), w)
        | None \<Rightarrow> (Inl (ApiStatus ''NotFound'' 404 ''node not found''), w))),
      kc_UpdateNode = (\<lambda>nd w. (Inr nd, w\<lparr>dw_node := Some nd\<rparr>)),
      kc_DeleteNode = (\<lambda>n w. (Inr (), w\<lparr>dw_node := None\<rparr>)),
      kc_GetMachine = (\<lambda>n w. (Inl (ApiStatus ''NotFound'' 404 ''machine not found''), w))\<rparr>"

definition demo_spec :: OvirtMachineProviderSpec where
  "demo_spec = empty_spec
     \<lparr>ps_UserDataSecret := Some \<lparr>lor_Name = ''user-data''\<rparr>,
      ps_TemplateName := ''rhcos'', ps_ClusterId := ''c1'',
      ps_CPU := Some \<lparr>cpu_Sockets = 1, cpu_Cores = 4, cpu_Threads = 2\<rparr>,
      ps_MemoryMB := 16384, ps_OSDisk := Some \<lparr>disk_SizeGB = 120\<rparr>,
      ps_VMType := ''server'',
      ps_NetworkInterfaces := [Some \<lparr>ni_VNICProfileID = ''p1''\<rparr>, Some \<lparr>ni_VNICProfileID = ''p2''\<rparr>]\<rparr>"

definition demo_machine :: Machine where
  "demo_machine =
     \<lparr>mc_Name = ''m1'', mc_Namespace = ''openshift-machine-api'',
      mc_Labels = [''machine.openshift.io/cluster-api-cluster'' \<mapsto> ''ocp''],
      mc_Annotations = None, mc_ProviderSpecValue = None, mc_ProviderID = None,
      mc_Deleted = False, mc_Finalizers = [''machine.machine.openshift.io''],
      mc_PreDrain = [], mc_PreTerminate = [],
      mc_Status = \<lparr>mst_ErrorReason = None, mst_ErrorMessage = None,
                   mst_ProviderStatus = None, mst_Addresses = [],
                   mst_Phase = None, mst_NodeRef = None\<rparr>\<rparr>"

definition demo_node :: Node where
  "demo_node = \<lparr>nd_Name = ''m1'', nd_ProviderID = ''''\<rparr>"

definition demo_sys :: "vm option \<Rightarrow> Node option \<Rightarrow> demo_world sys" where
  "demo_sys v n = \<lparr>world = \<lparr>dw_vm = v, dw_node = n\<rparr>, machine = demo_machine, caches = [],
     credUpdateListener = [],
     recorded = [], calls = []\<rparr>"

text \<open>
  The libraries of the concrete world. Its codec writes a provider status as the state, a
  comma and the identifier, and knows one provider spec, the demo one.
\<close>

definition demo_marshal_status :: "OvirtMachineProviderStatus \<Rightarrow> gerr + string" where
  "demo_marshal_status st = (case (pst_InstanceState st, pst_InstanceID st) of
       (Some t, Some i) \<Rightarrow> if CHR '','' \<in> set t then Inl (ErrorString ''comma'') else Inr (t @ '','' @ i)
     | _ \<Rightarrow> Inl (ErrorString ''incomplete''))"

definition demo_unmarshal_status :: "string \<Rightarrow> gerr + OvirtMachineProviderStatus" where
  "demo_unmarshal_status b = Inr \<lparr>pst_InstanceID = Some (tl (dropWhile (\<lambda>c. c \<noteq> CHR '','') b)),
     pst_InstanceState = Some (takeWhile (\<lambda>c. c \<noteq> CHR '','') b)\<rparr>"

definition demo_codec :: codec where
  "demo_codec =
     \<lparr>yaml_Unmarshal_spec = (\<lambda>b. if b = ''demo'' then Inr demo_spec else Inl (ErrorString ''yaml'')),
      yaml_Unmarshal_spec_ptr = (\<lambda>b. if b = ''demo'' then Inr (Some demo_spec)
         else if b = ''null'' then Inr None else Inl (ErrorString ''yaml'')),
      json_Marshal_spec = (\<lambda>sp. if sp = demo_spec then Inr ''demo'' else Inl (ErrorString ''json'')),
      yaml_Unmarshal_status = demo_unmarshal_status,
      json_Marshal_status = demo_marshal_status\<rparr>"

definition demo_env :: "demo_world environment" where
  "demo_env =
     \<lparr>env_NewWithVerify = (\<lambda>url user pw tls w. (Inr demo_engine, w)),
      env_CreateTemp = (\<lambda>w. (Inr ''/tmp/ovirt-ca-bundle1'', w)),
      env_Write = (\<lambda>f content w. (Inr (), w)),
      env_codec = demo_codec,
      env_map_order = (\<lambda>ks. ks)\<rparr>"

definition demo_credentials :: Credentials where
  "demo_credentials = \<lparr>cr_URL = ''https://engine/api'', cr_Username = ''admin'',
     cr_Password = ''secret'', cr_CAFile = [], cr_Insecure = False, cr_CABundle = ''PEM''\<rparr>"

definition demo_secret :: secret_data where
  "demo_secret = [''ovirt_url'' \<mapsto> ''https://engine/api'', ''ovirt_username'' \<mapsto> ''admin'',
     ''ovirt_password'' \<mapsto> ''secret'', ''ovirt_insecure'' \<mapsto> ''false'', ''ovirt_ca_bundle'' \<mapsto> ''PEM'']"

lemma demo_secret_parses: "FromK8sSecret demo_secret = Inr demo_credentials"
  by (simp add: FromK8sSecret_def demo_secret_def demo_credentials_def map_index_def secret_fields ParseBool_def)

lemma demo_status_roundtrip:
  assumes "demo_marshal_status st = Inr b" shows "demo_unmarshal_status b = Inr st"
proof -
  from assms obtain t i where st: "pst_InstanceState st = Some t" "pst_InstanceID st = Some i"
    and t: "\<forall>c \<in> set t. c \<noteq> CHR '',''" and b: "b = t @ '','' @ i"
    by (auto simp: demo_marshal_status_def split: option.splits if_splits)
  from t have "takeWhile (\<lambda>c. c \<noteq> CHR '','') (t @ '','' @ i) = t"
    and "dropWhile (\<lambda>c. c \<noteq> CHR '','') (t @ '','' @ i) = '','' @ i"
    by (simp_all add: takeWhile_append2 dropWhile_append2)
  with st b show ?thesis by (simp add: demo_unmarshal_status_def)
qed

lemma demo_codec_faithful: "codec_faithful demo_codec"
  by (simp add: codec_faithful_def demo_codec_def demo_status_roundtrip)

lemmas demo_defs = demo_vm_def demo_GetVMByName_def demo_engine_def demo_k8s_def demo_spec_def
  demo_machine_def demo_node_def demo_sys_def empty_spec_def

end
