(* ===== verification/Validations.thy ===== *)
theory Validations
  imports Example_World
begin

text \<open>
  The checks a machine's provider spec passes before a VM is created
  (\<open>pkg/actuators/machine/validations.go\<close>), and what a spec that passed them satisfies.
\<close>

definition ErrorInvalidMachineObject :: string where
  "ErrorInvalidMachineObject = ''error validating machine object fields''"

definition noHugePages :: int32 where "noHugePages = 0"
definition hugePages2M :: int32 where "hugePages2M = 2048"
definition hugePages1GB :: int32 where "hugePages1GB = 1048576"

definition FeatureAutoPinning :: string where "FeatureAutoPinning = ''autopinning''"

definition validateInstanceID :: "OvirtMachineProviderSpec \<Rightarrow> gerr option" where
  "validateInstanceID config =
     (if ps_InstanceTypeId config \<noteq> [] then
        (if ps_MemoryMB config \<noteq> 0 \<or> ps_CPU config \<noteq> None then
           Some (ErrorString (ErrorInvalidMachineObject @
             '' InstanceTypeID and MemoryMB OR CPU cannot be set at the same time''))
         else None)
      else if ps_MemoryMB config = 0 then
        Some (ErrorString (ErrorInvalidMachineObject @ '' MemoryMB must be specified''))
      else if ps_CPU config = None then
        Some (ErrorString (ErrorInvalidMachineObject @ '' CPU must be specified''))
      else None)"

definition validateVirtualMachineType :: "string \<Rightarrow> gerr option" where
  "validateVirtualMachineType vmtype =
     (if vmtype = [] then
        Some (ErrorString ''VMType (keyword: type in YAML) must be specified'')
      else if vmtype \<in> set [''server'', ''high_performance'', ''desktop''] then None
      else Some (ErrorString (''error creating oVirt instance: The machine type must '' @
             ''be one of the following options: '' @
             ''server, high_performance or desktop. The value: '' @ vmtype @ '' is not valid'')))"

definition validateHugepages :: "int32 \<Rightarrow> gerr option" where
  "validateHugepages v =
     (if v = noHugePages \<or> v = hugePages2M \<or> v = hugePages1GB then None
      else Some (ErrorString (''error creating oVirt instance: The machine `hugepages` custom property must '' @
             ''be one of the following options: 2048, 1048576. '' @
             ''The value: '' @ int_string (sint v) @ '' is not valid'')))"

definition validateGuaranteedMemory :: "OvirtMachineProviderSpec \<Rightarrow> gerr option" where
  "validateGuaranteedMemory config =
     (if sint (ps_GuaranteedMemoryMB config) > sint (ps_MemoryMB config) then
        Some (ErrorString (''GuaranteedMemoryMB ('' @ int_string (sint (ps_GuaranteedMemoryMB config)) @
             '') cannot be bigger then  MemoryMB ('' @ int_string (sint (ps_MemoryMB config)) @ '')''))
      else None)"

text \<open>
  The two parts of \<open>validateMachine\<close> before and after the feature check, as the sequence of
  their first errors. Only the feature check talks to the engine. In its second branch the
  code wraps \<open>err\<close>, which is nil there, so it returns nil.
\<close>

definition validate_required :: "OvirtMachineProviderSpec \<Rightarrow> gerr option" where
  "validate_required config =
     (case ps_UserDataSecret config of
        None \<Rightarrow> Some (ErrorString (ErrorInvalidMachineObject @ '' UserDataSecret must be provided!''))
      | Some sec \<Rightarrow>
          if lor_Name sec = [] then
            Some (ErrorString (ErrorInvalidMachineObject @ '' UserDataSecret *Name* must be provided!''))
          else (case validateInstanceID config of
             Some err \<Rightarrow> Some (ErrorString (''error validating InstanceID '' @ error_string err))
           | None \<Rightarrow> (case ps_OSDisk config of
                None \<Rightarrow> Some (ErrorString (ErrorInvalidMachineObject @ '' OS Disk (os_disk) must be specified!''))
              | Some d \<Rightarrow>
                  if disk_SizeGB d = 0 then
                    Some (ErrorString (ErrorInvalidMachineObject @
                      '' OS Disk (os_disk) *SizeGB* must be specified!''))
                  else (case validateVirtualMachineType (ps_VMType config) of
                     Some err \<Rightarrow> Some (WrapError
                       (''error validating Machine Type '' @ error_string err) err)
                   | None \<Rightarrow> None))))"

definition validate_optional :: "OvirtMachineProviderSpec \<Rightarrow> gerr option" where
  "validate_optional config =
     (case validateHugepages (ps_Hugepages config) of
        Some err \<Rightarrow> Wrap (Some err) ''error validating Hugepages''
      | None \<Rightarrow> (case validateGuaranteedMemory config of
           Some err \<Rightarrow> Wrap (Some err) ''error validating GuaranteedMemory''
         | None \<Rightarrow> None))"

definition validateMachine ::
  "'w ovirt_client \<Rightarrow> OvirtMachineProviderSpec option \<Rightarrow> ('w sys, unit) go" where
  "validateMachine C config_ptr =
     bind (deref config_ptr) (\<lambda>config.
     bind (lift_err (validate_required config)) (\<lambda>_.
     if ps_AutoPinningPolicy config \<noteq> [] then
       bind (annotate ''failed to check autopinning support''
               (api (SupportsFeatureCall FeatureAutoPinning) (oc_SupportsFeature C FeatureAutoPinning)))
         (\<lambda>supported.
           if \<not> supported then lift_err (Wrap None ''autopinning is not supported.'')
           else lift_err (validate_optional config))
     else lift_err (validate_optional config)))"

section \<open>What each check accepts\<close>

definition valid_required :: "OvirtMachineProviderSpec \<Rightarrow> bool" where
  "valid_required p \<longleftrightarrow>
     (\<exists>sec. ps_UserDataSecret p = Some sec \<and> lor_Name sec \<noteq> []) \<and>
     (if ps_InstanceTypeId p \<noteq> [] then ps_MemoryMB p = 0 \<and> ps_CPU p = None
      else ps_MemoryMB p \<noteq> 0 \<and> ps_CPU p \<noteq> None) \<and>
     (\<exists>d. ps_OSDisk p = Some d \<and> disk_SizeGB d \<noteq> 0) \<and>
     ps_VMType p \<in> {''server'', ''high_performance'', ''desktop''}"

definition valid_optional :: "OvirtMachineProviderSpec \<Rightarrow> bool" where
  "valid_optional p \<longleftrightarrow>
     ps_Hugepages p \<in> {0, 2048, 1048576} \<and>
     sint (ps_GuaranteedMemoryMB p) \<le> sint (ps_MemoryMB p)"

lemma validateInstanceID_None_iff:
  "validateInstanceID p = None \<longleftrightarrow>
     (if ps_InstanceTypeId p \<noteq> [] then ps_MemoryMB p = 0 \<and> ps_CPU p = None
      else ps_MemoryMB p \<noteq> 0 \<and> ps_CPU p \<noteq> None)"
  by (simp add: validateInstanceID_def)

lemma validateVirtualMachineType_None_iff:
  "validateVirtualMachineType t = None \<longleftrightarrow> t \<in> {''server'', ''high_performance'', ''desktop''}"
  by (auto simp: validateVirtualMachineType_def)

lemma validate_required_None_iff: "validate_required p = None \<longleftrightarrow> valid_required p"
  unfolding valid_required_def validateInstanceID_None_iff [symmetric]
    validateVirtualMachineType_None_iff [symmetric]
  by (auto simp: validate_required_def split: option.split)

lemma validate_optional_None_iff: "validate_optional p = None \<longleftrightarrow> valid_optional p"
  by (auto simp: validate_optional_def valid_optional_def validateHugepages_def
      validateGuaranteedMemory_def noHugePages_def hugePages2M_def hugePages1GB_def
      split: option.split)

section \<open>What validateMachine accepts\<close>

lemma lift_err_Val_iff: "lift_err eo s = (Val u, s') \<longleftrightarrow> eo = None \<and> s' = s"
  by (cases eo) auto

lemma validateMachine_ValD:
  assumes "validateMachine C cfg s = (Val u, s')"
  obtains p where "cfg = Some p" and "valid_required p"
    and "ps_AutoPinningPolicy p = [] \<Longrightarrow> valid_optional p \<and> s' = s"
proof -
  from assms obtain p where p: "cfg = Some p" by (cases cfg) (auto simp: validateMachine_def)
  with assms have "valid_required p"
    by (auto simp: validateMachine_def lift_err_Val_iff validate_required_None_iff elim!: bind_ValE)
  moreover from assms p have "valid_optional p \<and> s' = s" if "ps_AutoPinningPolicy p = []"
    using that
    by (auto simp: validateMachine_def lift_err_Val_iff validate_optional_None_iff elim!: bind_ValE)
  ultimately show thesis using that p by blast
qed

lemma emits_validateMachine:
  "emits (\<lambda>c. c = SupportsFeatureCall FeatureAutoPinning) (validateMachine C cfg)"
  unfolding validateMachine_def by (intro emits_intros refl)

lemma preserves_validateMachine [preserves_intros]:
  "preserves machine (validateMachine C cfg)" "preserves caches (validateMachine C cfg)"
  "preserves recorded (validateMachine C cfg)" "preserves credUpdateListener (validateMachine C cfg)"
  unfolding validateMachine_def by (intro preserves_intros)+

section \<open>Properties\<close>

text \<open>C26: for every spec, validation succeeds exactly when the spec has what is required (a named
  secret, either an instance type or memory and CPU but not both, a disk with a size, a known
  VM type) and, if no auto pinning policy is set, has allowed huge pages and no more
  guaranteed memory than memory. With any policy set, \<open>none\<close> included, the engine is asked
  whether it supports auto pinning: an error refuses the spec, a yes leaves the rule as it
  is, and a no accepts the spec with huge pages and guaranteed memory unchecked. Validation
  never panics and makes no other call.\<close>

theorem validate_accepts_exactly:
  "(fst (validateMachine C (Some p) s) = Val () \<longleftrightarrow> valid_required p \<and>
     (if ps_AutoPinningPolicy p = [] then valid_optional p
      else (case fst (oc_SupportsFeature C ''autopinning'' (world s)) of
          Inl err \<Rightarrow> False
        | Inr supported \<Rightarrow> if supported then valid_optional p else True))) \<and>
   (case fst (validateMachine C (Some p) s) of Crash q \<Rightarrow> False | _ \<Rightarrow> True) \<and>
   calls (snd (validateMachine C (Some p) s)) = calls s @
     (if valid_required p \<and> ps_AutoPinningPolicy p \<noteq> []
      then [(SupportsFeatureCall ''autopinning'', case fst (oc_SupportsFeature C ''autopinning'' (world s)) of
               Inl err \<Rightarrow> False | Inr supported \<Rightarrow> True)]
      else [])"
proof (cases "validate_required p")
  case None
  then have req: "valid_required p" by (simp add: validate_required_None_iff)
  obtain r w where q: "oc_SupportsFeature C ''autopinning'' (world s) = (r, w)" by fastforce
  show ?thesis
  proof (cases "ps_AutoPinningPolicy p = []")
    case True
    then show ?thesis
      by (cases "validate_optional p") (simp_all add: validateMachine_def None req validate_optional_None_iff [symmetric])
  next
    case False
    then show ?thesis using q
      by (cases r; cases "validate_optional p")
        (auto simp: validateMachine_def None req validate_optional_None_iff [symmetric] FeatureAutoPinning_def
          bind_def annotate_def map_err_def api_def)
  qed
next
  case (Some e)
  then have "\<not> valid_required p" by (simp add: validate_required_None_iff [symmetric])
  with Some show ?thesis by (simp add: validateMachine_def)
qed

text \<open>The demo spec passes.\<close>

lemma demo_spec_passes: "fst (validateMachine demo_engine (Some demo_spec) (demo_sys None None)) = Val ()"
  by (simp add: validateMachine_def validate_required_None_iff [symmetric] validate_required_def validateInstanceID_def
      validateVirtualMachineType_def validate_optional_def validateHugepages_def validateGuaranteedMemory_def
      noHugePages_def demo_spec_def empty_spec_def)

text \<open>When the engine does not support auto pinning, validation still succeeds for every
  spec that asks for it, and the huge pages and guaranteed memory are not checked at all:
  the error it means to return wraps a nil error.\<close>

lemma unsupported_autopinning_accepted:
  assumes "valid_required p" and "ps_AutoPinningPolicy p \<noteq> []"
    and "oc_SupportsFeature C FeatureAutoPinning (world s) = (Inr False, w)"
  shows "fst (validateMachine C (Some p) s) = Val ()"
  using assms by (simp add: validateMachine_def validate_required_None_iff [symmetric])

theorem unsupported_autopinning_accepted_witness:
  "\<not> valid_optional (demo_spec\<lparr>ps_AutoPinningPolicy := ''resize_and_pin'', ps_Hugepages := 7\<rparr>) \<and>
   fst (validateMachine (demo_engine\<lparr>oc_SupportsFeature := \<lambda>f w. (Inr False, w)\<rparr>)
     (Some (demo_spec\<lparr>ps_AutoPinningPolicy := ''resize_and_pin'', ps_Hugepages := 7\<rparr>))
     (demo_sys None None)) = Val ()"
proof
  show "\<not> valid_optional (demo_spec\<lparr>ps_AutoPinningPolicy := ''resize_and_pin'', ps_Hugepages := 7\<rparr>)"
    by (simp add: valid_optional_def)
  show "fst (validateMachine (demo_engine\<lparr>oc_SupportsFeature := \<lambda>f w. (Inr False, w)\<rparr>)
     (Some (demo_spec\<lparr>ps_AutoPinningPolicy := ''resize_and_pin'', ps_Hugepages := 7\<rparr>))
     (demo_sys None None)) = Val ()"
    by (rule unsupported_autopinning_accepted)
       (simp_all add: valid_required_def demo_spec_def empty_spec_def)
qed

end
