(* ===== verification/VM_Request.thy ===== *)
theory VM_Request
  imports Validations
begin

text \<open>
  How \<open>create\<close> turns a provider spec into the request for a new VM (\<open>machine.go\<close>, from the
  ignition to the placement policy). Each definition is one block of the function, in its
  order; the blocks that only call builders are pure and can panic, the others also call
  the engine. The conversions between Go's integer types are those of words: \<open>scast\<close>
  extends the sign, \<open>*\<close> wraps.
\<close>

section \<open>The blocks\<close>

definition isAutoPinning :: "OvirtMachineProviderSpec \<Rightarrow> bool" where
  "isAutoPinning p \<longleftrightarrow> ps_AutoPinningPolicy p \<noteq> [] \<and> ps_AutoPinningPolicy p \<noteq> ''none''"

definition memory_bytes :: "int32 \<Rightarrow> int64" where
  "memory_bytes mb = bytesInMB * scast mb"

text \<open>The call passes cores, sockets, threads to parameters named cores, threads, sockets.\<close>

definition cpu_params :: "CPU \<Rightarrow> vm_params \<Rightarrow> gerr + vm_params" where
  "cpu_params c = WithCPUParameters (scast (cpu_Cores c)) (scast (cpu_Sockets c)) (scast (cpu_Threads c))"

definition base_params :: "string \<Rightarrow> string \<Rightarrow> OvirtMachineProviderSpec \<Rightarrow> vm_params res" where
  "base_params ignition name p =
     (let o1 = MustWithInitializationParameters ignition name NewCreateVMParams in
      res_bind (if ps_VMType p \<noteq> [] then must (WithVMType (ps_VMType p) o1) else Val o1) (\<lambda>o2.
      if ps_InstanceTypeId p \<noteq> [] then Val (MustWithInstanceTypeID (ps_InstanceTypeId p) o2)
      else
        res_bind (case ps_CPU p of None \<Rightarrow> Val o2 | Some c \<Rightarrow> must (cpu_params c o2)) (\<lambda>o3.
        let o4 = (if sint (ps_MemoryMB p) > 0
                  then MustWithMemory (memory_bytes (ps_MemoryMB p)) o3 else o3) in
        Val (if sint (ps_GuaranteedMemoryMB p) > 0
             then WithMemoryPolicy (mp_MustWithGuaranteed (memory_bytes (ps_GuaranteedMemoryMB p))
                    NewMemoryPolicyParameters) o4
             else o4))))"

definition format_strings :: "string list \<Rightarrow> string" where
  "format_strings xs = ''['' @ concat (case xs of [] \<Rightarrow> [] | y # ys \<Rightarrow> y # map (\<lambda>z. '' '' @ z) ys) @ '']''"

definition hosts_of_cluster :: "string \<Rightarrow> host list \<Rightarrow> string list" where
  "hosts_of_cluster clusterId hosts =
     map host_id (filter (\<lambda>h. host_clusterID h = clusterId) hosts)"

definition placement_hosts ::
  "'w ovirt_client \<Rightarrow> OvirtMachineProviderSpec \<Rightarrow> ('w sys, placement_policy) go" where
  "placement_hosts C p =
     (let pp = NewVMPlacementPolicyParameters in
      if isAutoPinning p then
        bind (annotate ''error Listing hosts'' (api ListHostsCall (oc_ListHosts C))) (\<lambda>hosts.
        let hostIDs = hosts_of_cluster (ps_ClusterId p) hosts in
        if hostIDs \<noteq> [] then
          (case pp_WithHostIDs hostIDs pp of
             Inl err \<Rightarrow> fail (Wrapped (''failed to create placement policy parameters with host IDs: ''
                                  @ format_strings hostIDs) err)
           | Inr pp' \<Rightarrow> ret pp')
        else ret pp)
      else ret pp)"

definition hugepages_params :: "OvirtMachineProviderSpec \<Rightarrow> vm_params \<Rightarrow> vm_params res" where
  "hugepages_params p o1 =
     (if sint (ps_Hugepages p) > 0 then must (WithHugePages (scast (ps_Hugepages p)) o1) else Val o1)"

definition list_template_disks ::
  "'w ovirt_client \<Rightarrow> OvirtMachineProviderSpec \<Rightarrow> string \<Rightarrow> ('w sys, string list) go" where
  "list_template_disks C p tid =
     annotate (''failed to fetch template '' @ ps_TemplateName p @ '' disk attachments from oVirt Engine'')
       (api (ListTemplateDiskAttachmentsCall tid) (oc_ListTemplateDiskAttachments C tid))"

definition template_disk :: "OvirtMachineProviderSpec \<Rightarrow> string \<Rightarrow> disk_params res" where
  "template_disk p diskID =
     (let d = NewBuildableVMDiskParameters diskID;
          d' = (case ps_Sparse p of None \<Rightarrow> d | Some b \<Rightarrow> dp_MustWithSparse b d) in
      if ps_Format p \<noteq> [] then must (dp_WithFormat (ps_Format p) d') else Val d')"

primrec res_map :: "('a \<Rightarrow> 'b res) \<Rightarrow> 'a list \<Rightarrow> 'b list res" where
  "res_map f [] = Val []"
| "res_map f (x # xs) = res_bind (f x) (\<lambda>y. res_bind (res_map f xs) (\<lambda>ys. Val (y # ys)))"

definition template_disks_params ::
  "'w ovirt_client \<Rightarrow> OvirtMachineProviderSpec \<Rightarrow> string \<Rightarrow> vm_params \<Rightarrow> ('w sys, vm_params) go" where
  "template_disks_params C p tid o1 =
     (if ps_Sparse p \<noteq> None \<or> ps_Format p \<noteq> [] then
        bind (list_template_disks C p tid) (\<lambda>ids.
        bind (lift_res (res_map (template_disk p) ids)) (\<lambda>ds. ret (MustWithDisks ds o1)))
      else ret o1)"

definition clone_params :: "OvirtMachineProviderSpec \<Rightarrow> vm_params \<Rightarrow> vm_params" where
  "clone_params p o1 =
     (case ps_Clone p of Some b \<Rightarrow> MustWithClone b o1
      | None \<Rightarrow> if ps_VMType p = VMTypeDesktop then MustWithClone False o1 else MustWithClone True o1)"

definition storage_domain_params ::
  "'w ovirt_client \<Rightarrow> OvirtMachineProviderSpec \<Rightarrow> string \<Rightarrow> vm_params \<Rightarrow> ('w sys, vm_params) go" where
  "storage_domain_params C p tid o1 =
     (if ps_StorageDomainId p \<noteq> [] then
        bind (list_template_disks C p tid) (\<lambda>ids.
        case ids of
          [] \<Rightarrow> crash IndexOutOfRange
        | i # _ \<Rightarrow> ret (MustWithDisks
            [dp_MustWithStorageDomainID (ps_StorageDomainId p) (NewBuildableVMDiskParameters i)] o1))
      else ret o1)"

definition high_performance_params ::
  "OvirtMachineProviderSpec \<Rightarrow> vm_params \<Rightarrow> (string \<times> vm_params) res" where
  "high_performance_params p o1 =
     (if ps_VMType p = VMTypeHighPerformance then
        let o2 = WithSoundcardEnabled False o1; o3 = WithSerialConsole True o2 in
        res_bind (must (cpu_WithMode CPUModeHostPassthrough NewVMCPUParams)) (\<lambda>cpuMode.
        let o4 = MustWithCPU cpuMode o3;
            memPolicy = mp_MustWithBallooning False NewMemoryPolicyParameters in
        Val (VMAffinityUserMigratable, WithMemoryPolicy memPolicy o4))
      else Val (VMAffinityMigratable, o1))"

definition placement_params ::
  "OvirtMachineProviderSpec \<Rightarrow> placement_policy \<Rightarrow> vm_params \<Rightarrow> vm_params res" where
  "placement_params p pp o1 =
     res_bind (high_performance_params p o1) (\<lambda>(vmAffinity, o2).
     res_bind (must (pp_WithAffinity vmAffinity pp)) (\<lambda>pp'.
     Val (WithPlacementPolicy pp' o2)))"

text \<open>The blocks in sequence: the template's identifier and the finished parameters.\<close>

definition build_request ::
  "'w ovirt_client \<Rightarrow> string \<Rightarrow> string \<Rightarrow> OvirtMachineProviderSpec \<Rightarrow>
     ('w sys, string \<times> vm_params) go" where
  "build_request C ignition name p =
     bind (lift_res (base_params ignition name p)) (\<lambda>o1.
     bind (placement_hosts C p) (\<lambda>pp.
     bind (lift_res (hugepages_params p o1)) (\<lambda>o2.
     bind (annotate (''error finding template name '' @ ps_TemplateName p @ ''.'')
            (api (GetTemplateByNameCall (ps_TemplateName p))
               (oc_GetTemplateByName C (ps_TemplateName p)))) (\<lambda>tid.
     bind (template_disks_params C p tid o2) (\<lambda>o3.
     bind (storage_domain_params C p tid (clone_params p o3)) (\<lambda>o4.
     bind (lift_res (placement_params p pp o4)) (\<lambda>o5.
     ret (tid, o5))))))))"

section \<open>The request a spec describes\<close>

text \<open>
  The same parameters field by field, without the order of the calls: what each field of
  the request is, given the answers of the engine (the template's disks, the hosts).
\<close>

definition requested_cpu :: "OvirtMachineProviderSpec \<Rightarrow> vm_cpu_params option" where
  "requested_cpu p =
     (if ps_VMType p = VMTypeHighPerformance
        then Some \<lparr>cpu_mode = Some CPUModeHostPassthrough, cpu_topo = None\<rparr>
      else if ps_InstanceTypeId p \<noteq> [] then None
      else map_option (\<lambda>c. \<lparr>cpu_mode = None, cpu_topo = Some
             \<lparr>topo_sockets = scast (cpu_Threads c), topo_cores = scast (cpu_Cores c),
              topo_threads = scast (cpu_Sockets c)\<rparr>\<rparr>) (ps_CPU p))"

definition requested_memory :: "OvirtMachineProviderSpec \<Rightarrow> int64 option" where
  "requested_memory p =
     (if ps_InstanceTypeId p = [] \<and> sint (ps_MemoryMB p) > 0
      then Some (memory_bytes (ps_MemoryMB p)) else None)"

definition requested_memory_policy :: "OvirtMachineProviderSpec \<Rightarrow> memory_policy option" where
  "requested_memory_policy p =
     (if ps_VMType p = VMTypeHighPerformance
        then Some \<lparr>mp_guaranteed = None, mp_max = None, mp_ballooning = Some False\<rparr>
      else if ps_InstanceTypeId p = [] \<and> sint (ps_GuaranteedMemoryMB p) > 0
        then Some \<lparr>mp_guaranteed = Some (memory_bytes (ps_GuaranteedMemoryMB p)),
                   mp_max = None, mp_ballooning = None\<rparr>
      else None)"

definition requested_disks :: "OvirtMachineProviderSpec \<Rightarrow> string list \<Rightarrow> disk_params list" where
  "requested_disks p ids =
     (if ps_StorageDomainId p \<noteq> [] then
        map (\<lambda>i. \<lparr>dp_diskID = i, dp_sparse = None, dp_format = None,
                  dp_storageDomainID = Some (ps_StorageDomainId p)\<rparr>) (take 1 ids)
      else if ps_Sparse p \<noteq> None \<or> ps_Format p \<noteq> [] then
        map (\<lambda>i. \<lparr>dp_diskID = i, dp_sparse = ps_Sparse p,
                  dp_format = (if ps_Format p = [] then None else Some (ps_Format p)),
                  dp_storageDomainID = None\<rparr>) ids
      else [])"

definition requested_clone :: "OvirtMachineProviderSpec \<Rightarrow> bool" where
  "requested_clone p = (case ps_Clone p of Some b \<Rightarrow> b | None \<Rightarrow> ps_VMType p \<noteq> VMTypeDesktop)"

definition requested_affinity :: "OvirtMachineProviderSpec \<Rightarrow> string" where
  "requested_affinity p =
     (if ps_VMType p = VMTypeHighPerformance then VMAffinityUserMigratable else VMAffinityMigratable)"

definition request_spec ::
  "string \<Rightarrow> string \<Rightarrow> OvirtMachineProviderSpec \<Rightarrow> string list \<Rightarrow> host list \<Rightarrow> vm_params" where
  "request_spec ignition name p ids hosts =
     (let hp = ps_VMType p = VMTypeHighPerformance in
      \<lparr>vp_cpu = requested_cpu p,
       vp_hugePages = (if sint (ps_Hugepages p) > 0 then Some (scast (ps_Hugepages p)) else None),
       vp_initialization = Some (ignition, name),
       vp_memory = requested_memory p,
       vp_memoryPolicy = requested_memory_policy p,
       vp_clone = Some (requested_clone p),
       vp_disks = requested_disks p ids,
       vp_placementPolicy = Some \<lparr>pp_affinity = Some (requested_affinity p),
          pp_hostIDs = (if isAutoPinning p then hosts_of_cluster (ps_ClusterId p) hosts else [])\<rparr>,
       vp_instanceTypeID = (if ps_InstanceTypeId p = [] then None else Some (ps_InstanceTypeId p)),
       vp_vmType = (if ps_VMType p = [] then None else Some (ps_VMType p)),
       vp_serialConsole = (if hp then Some True else None),
       vp_soundcardEnabled = (if hp then Some False else None)\<rparr>)"

section \<open>Each block computes its fields\<close>

lemma res_bind_ValE:
  assumes "res_bind m k = Val y" obtains x where "m = Val x" and "k x = Val y"
  using assms by (cases m) auto

lemma WithVMType_Inr: "WithVMType t o1 = Inr o2 \<Longrightarrow> o2 = o1\<lparr>vp_vmType := Some t\<rparr>"
  by (simp add: WithVMType_def split: if_splits)

lemma cpu_params_Inr:
  "cpu_params c o1 = Inr o2 \<Longrightarrow> o2 = o1\<lparr>vp_cpu := Some \<lparr>cpu_mode = None, cpu_topo = Some
     \<lparr>topo_sockets = scast (cpu_Threads c), topo_cores = scast (cpu_Cores c),
      topo_threads = scast (cpu_Sockets c)\<rparr>\<rparr>\<rparr>"
  by (simp add: cpu_params_def WithCPUParameters_eq split: if_splits)

lemma base_params_Val:
  assumes "base_params ignition name p = Val o1"
  shows "o1 = NewCreateVMParams
    \<lparr>vp_initialization := Some (ignition, name),
     vp_vmType := (if ps_VMType p = [] then None else Some (ps_VMType p)),
     vp_instanceTypeID := (if ps_InstanceTypeId p = [] then None else Some (ps_InstanceTypeId p)),
     vp_cpu := (if ps_InstanceTypeId p \<noteq> [] then None
       else map_option (\<lambda>c. \<lparr>cpu_mode = None, cpu_topo = Some
             \<lparr>topo_sockets = scast (cpu_Threads c), topo_cores = scast (cpu_Cores c),
              topo_threads = scast (cpu_Sockets c)\<rparr>\<rparr>) (ps_CPU p)),
     vp_memory := requested_memory p,
     vp_memoryPolicy := (if ps_InstanceTypeId p = [] \<and> sint (ps_GuaranteedMemoryMB p) > 0
        then Some \<lparr>mp_guaranteed = Some (memory_bytes (ps_GuaranteedMemoryMB p)),
                   mp_max = None, mp_ballooning = None\<rparr> else None)\<rparr>"
  using assms
  by (auto simp: base_params_def Let_def requested_memory_def NewCreateVMParams_def
      MustWithInitializationParameters_def MustWithInstanceTypeID_def MustWithMemory_def
      WithMemoryPolicy_def mp_MustWithGuaranteed_def NewMemoryPolicyParameters_def
      elim!: res_bind_ValE dest!: WithVMType_Inr cpu_params_Inr split: if_splits option.splits)

lemma hugepages_params_Val:
  "hugepages_params p o1 = Val o2 \<Longrightarrow>
     o2 = (if sint (ps_Hugepages p) > 0 then o1\<lparr>vp_hugePages := Some (scast (ps_Hugepages p))\<rparr> else o1)"
  by (simp add: hugepages_params_def WithHugePages_def split: if_splits)

lemma placement_params_Val:
  "placement_params p pp o1 = Val o2 \<Longrightarrow>
     o2 = (let hp = ps_VMType p = VMTypeHighPerformance in
       o1\<lparr>vp_cpu := (if hp then Some \<lparr>cpu_mode = Some CPUModeHostPassthrough, cpu_topo = None\<rparr>
                   else vp_cpu o1),
          vp_memoryPolicy := (if hp then
                Some \<lparr>mp_guaranteed = None, mp_max = None, mp_ballooning = Some False\<rparr>
              else vp_memoryPolicy o1),
          vp_serialConsole := (if hp then Some True else vp_serialConsole o1),
          vp_soundcardEnabled := (if hp then Some False else vp_soundcardEnabled o1),
          vp_placementPolicy := Some (pp\<lparr>pp_affinity := Some (requested_affinity p)\<rparr>)\<rparr>)"
  by (auto simp: placement_params_def high_performance_params_def Let_def requested_affinity_def
      WithSoundcardEnabled_def WithSerialConsole_def cpu_WithMode_def NewVMCPUParams_def
      MustWithCPU_def mp_MustWithBallooning_def NewMemoryPolicyParameters_def
      WithMemoryPolicy_def WithPlacementPolicy_def pp_WithAffinity_def
      elim!: res_bind_ValE split: if_splits)

lemma clone_params_eq: "clone_params p o1 = o1\<lparr>vp_clone := Some (requested_clone p)\<rparr>"
  by (simp add: clone_params_def requested_clone_def MustWithClone_def split: option.split)

section \<open>The blocks that ask the engine\<close>

lemma list_template_disks_answers:
  "list_template_disks C p tid s = (Val ids, s') \<Longrightarrow> answers (oc_ListTemplateDiskAttachments C tid) ids"
  by (auto simp: list_template_disks_def dest: api_answers)

lemma res_map_Val: "res_map f xs = Val ys \<Longrightarrow> list_all2 (\<lambda>x y. f x = Val y) xs ys"
  by (induction xs arbitrary: ys) (auto elim!: res_bind_ValE)

lemma template_disk_Val:
  "template_disk p i = Val d \<Longrightarrow> d =
     \<lparr>dp_diskID = i, dp_sparse = ps_Sparse p,
      dp_format = (if ps_Format p = [] then None else Some (ps_Format p)), dp_storageDomainID = None\<rparr>"
  by (auto simp: template_disk_def NewBuildableVMDiskParameters_def dp_MustWithSparse_def
      dp_WithFormat_def Let_def split: option.splits if_splits)

lemma template_disks_Val:
  assumes "res_map (template_disk p) ids = Val ds"
  shows "ds = map (\<lambda>i. \<lparr>dp_diskID = i, dp_sparse = ps_Sparse p,
      dp_format = (if ps_Format p = [] then None else Some (ps_Format p)),
      dp_storageDomainID = None\<rparr>) ids"
proof -
  from assms have "list_all2 (\<lambda>i d. template_disk p i = Val d) ids ds" by (rule res_map_Val)
  then show ?thesis by induction (auto dest!: template_disk_Val)
qed

lemma template_disks_params_Val:
  assumes "template_disks_params C p tid o1 s = (Val o2, s')"
  obtains ids where "o2 = (if ps_Sparse p \<noteq> None \<or> ps_Format p \<noteq> []
      then o1\<lparr>vp_disks := map (\<lambda>i. \<lparr>dp_diskID = i, dp_sparse = ps_Sparse p,
        dp_format = (if ps_Format p = [] then None else Some (ps_Format p)),
        dp_storageDomainID = None\<rparr>) ids\<rparr> else o1)"
    and "ps_Sparse p \<noteq> None \<or> ps_Format p \<noteq> [] \<Longrightarrow>
      answers (oc_ListTemplateDiskAttachments C tid) ids"
proof (cases "ps_Sparse p \<noteq> None \<or> ps_Format p \<noteq> []")
  case True
  with assms obtain ids s1 ds where "list_template_disks C p tid s = (Val ids, s1)"
    and "res_map (template_disk p) ids = Val ds" and "o2 = MustWithDisks ds o1"
    by (auto simp: template_disks_params_def elim!: bind_ValE)
  with True show thesis
    using template_disks_Val list_template_disks_answers
    by (intro that [of ids]) (auto simp: MustWithDisks_def)
next
  case False
  with assms show thesis by (intro that [of "[]"]) (simp_all add: template_disks_params_def)
qed

lemma storage_domain_params_Val:
  assumes "storage_domain_params C p tid o1 s = (Val o2, s')"
  obtains ids where "o2 = (if ps_StorageDomainId p \<noteq> []
      then o1\<lparr>vp_disks := map (\<lambda>i. \<lparr>dp_diskID = i, dp_sparse = None, dp_format = None,
        dp_storageDomainID = Some (ps_StorageDomainId p)\<rparr>) (take 1 ids)\<rparr> else o1)"
    and "ps_StorageDomainId p \<noteq> [] \<Longrightarrow> ids \<noteq> [] \<and> answers (oc_ListTemplateDiskAttachments C tid) ids"
proof (cases "ps_StorageDomainId p \<noteq> []")
  case True
  with assms obtain ids s1 where 1: "list_template_disks C p tid s = (Val ids, s1)"
    and 2: "ids \<noteq> []" and 3: "o2 = MustWithDisks [dp_MustWithStorageDomainID (ps_StorageDomainId p)
              (NewBuildableVMDiskParameters (hd ids))] o1"
    by (auto simp: storage_domain_params_def elim!: bind_ValE split: list.splits)
  from True 2 3 list_template_disks_answers [OF 1] show thesis
    by (intro that [of ids])
       (auto simp: MustWithDisks_def dp_MustWithStorageDomainID_def
          NewBuildableVMDiskParameters_def neq_Nil_conv)
next
  case False
  with assms show thesis by (intro that [of "[]"]) (simp_all add: storage_domain_params_def)
qed

lemma placement_hosts_Val:
  assumes "placement_hosts C p s = (Val pp, s')"
  obtains hosts where "pp = \<lparr>pp_affinity = None, pp_hostIDs =
      (if isAutoPinning p then hosts_of_cluster (ps_ClusterId p) hosts else [])\<rparr>"
    and "isAutoPinning p \<Longrightarrow> answers (oc_ListHosts C) hosts"
proof (cases "isAutoPinning p")
  case True
  with assms obtain hosts s1 where 1: "api ListHostsCall (oc_ListHosts C) s = (Val hosts, s1)"
    and 2: "pp = NewVMPlacementPolicyParameters
                \<lparr>pp_hostIDs := hosts_of_cluster (ps_ClusterId p) hosts\<rparr>"
    by (auto simp: placement_hosts_def Let_def pp_WithHostIDs_def NewVMPlacementPolicyParameters_def
        elim!: bind_ValE split: if_splits)
  from True 2 api_answers [OF 1] show thesis
    by (intro that [of hosts]) (auto simp: NewVMPlacementPolicyParameters_def)
next
  case False
  with assms show thesis
    by (intro that [of "[]"])
       (auto simp: placement_hosts_def Let_def NewVMPlacementPolicyParameters_def)
qed

text \<open>
  The refinement: what the sequence of blocks builds is the request the spec describes,
  for a template identifier, disks and hosts the engine answered.
\<close>

lemma build_request_refines:
  assumes "build_request C ignition name p s = (Val (tid, params), s')"
  obtains ids hosts where "params = request_spec ignition name p ids hosts"
    and "answers (oc_GetTemplateByName C (ps_TemplateName p)) tid"
    and "requested_disks p ids \<noteq> [] \<Longrightarrow> answers (oc_ListTemplateDiskAttachments C tid) ids"
    and "isAutoPinning p \<Longrightarrow> answers (oc_ListHosts C) hosts"
proof -
  from assms obtain o1 pp s1 o2 s2 s3 o3 s4 o4 s5 where
    1: "base_params ignition name p = Val o1" and
    2: "placement_hosts C p s = (Val pp, s1)" and
    3: "hugepages_params p o1 = Val o2" and
    4: "api (GetTemplateByNameCall (ps_TemplateName p)) (oc_GetTemplateByName C (ps_TemplateName p)) s1
          = (Val tid, s3)" and
    5: "template_disks_params C p tid o2 s3 = (Val o3, s4)" and
    6: "storage_domain_params C p tid (clone_params p o3) s4 = (Val o4, s5)" and
    7: "placement_params p pp o4 = Val params"
    by (auto simp: build_request_def elim!: bind_ValE)
  obtain hosts where h: "pp = \<lparr>pp_affinity = None, pp_hostIDs =
      (if isAutoPinning p then hosts_of_cluster (ps_ClusterId p) hosts else [])\<rparr>"
    "isAutoPinning p \<Longrightarrow> answers (oc_ListHosts C) hosts"
    using placement_hosts_Val [OF 2] by blast
  obtain ids1 where d1: "o3 = (if ps_Sparse p \<noteq> None \<or> ps_Format p \<noteq> []
      then o2\<lparr>vp_disks := map (\<lambda>i. \<lparr>dp_diskID = i, dp_sparse = ps_Sparse p,
        dp_format = (if ps_Format p = [] then None else Some (ps_Format p)),
        dp_storageDomainID = None\<rparr>) ids1\<rparr> else o2)"
    "ps_Sparse p \<noteq> None \<or> ps_Format p \<noteq> [] \<Longrightarrow> answers (oc_ListTemplateDiskAttachments C tid) ids1"
    using template_disks_params_Val [OF 5] by blast
  obtain ids2 where d2: "o4 = (if ps_StorageDomainId p \<noteq> []
      then (clone_params p o3)\<lparr>vp_disks := map (\<lambda>i. \<lparr>dp_diskID = i, dp_sparse = None, dp_format = None,
        dp_storageDomainID = Some (ps_StorageDomainId p)\<rparr>) (take 1 ids2)\<rparr> else clone_params p o3)"
    "ps_StorageDomainId p \<noteq> [] \<Longrightarrow> ids2 \<noteq> [] \<and> answers (oc_ListTemplateDiskAttachments C tid) ids2"
    using storage_domain_params_Val [OF 6] by blast
  define ids where "ids = (if ps_StorageDomainId p \<noteq> [] then ids2 else ids1)"
  note fields = base_params_Val [OF 1] hugepages_params_Val [OF 3] placement_params_Val [OF 7]
    clone_params_eq d1(1) d2(1) h(1)
  show thesis
  proof (rule that [of ids hosts])
    show "params = request_spec ignition name p ids hosts"
      by (simp add: fields request_spec_def Let_def requested_disks_def requested_cpu_def
          requested_memory_policy_def NewCreateVMParams_def ids_def)
    show "answers (oc_GetTemplateByName C (ps_TemplateName p)) tid" by (rule api_answers [OF 4])
    show "answers (oc_ListTemplateDiskAttachments C tid) ids" if "requested_disks p ids \<noteq> []"
      using that d1(2) d2(2) by (auto simp: ids_def requested_disks_def split: if_splits)
    show "answers (oc_ListHosts C) hosts" if "isAutoPinning p" using that by (rule h(2))
  qed
qed

section \<open>Memory sizes do not overflow\<close>

lemma sint_scast_int32 [simp]: "sint (scast (x :: int32) :: int64) = sint x"
  by (rule sint_up_scast) (simp add: is_up_def source_size_def target_size_def word_size)

lemma sint_memory_bytes: "sint (memory_bytes mb) = 1048576 * sint mb"
proof -
  have b: "- (2 ^ 31) \<le> sint mb" "sint mb < 2 ^ 31"
    using sint_range_size [of mb] by (simp_all add: word_size)
  have "sint (memory_bytes mb) = signed_take_bit 63 (1048576 * sint mb)"
    by (simp add: memory_bytes_def bytesInMB_def sint_word_ariths)
  also have "\<dots> = 1048576 * sint mb"
    using b by (intro signed_take_bit_int_eq_self) simp_all
  finally show ?thesis .
qed

section \<open>Requests that cannot panic\<close>

text \<open>What the builders accept: \<open>validateMachine\<close> does not check the last two.\<close>

definition buildable :: "OvirtMachineProviderSpec \<Rightarrow> bool" where
  "buildable p \<longleftrightarrow>
     ps_VMType p \<in> {[], ''server'', ''high_performance'', ''desktop''} \<and>
     (sint (ps_Hugepages p) > 0 \<longrightarrow> ps_Hugepages p \<in> {2048, 1048576}) \<and>
     (ps_InstanceTypeId p = [] \<longrightarrow> (\<forall>c. ps_CPU p = Some c \<longrightarrow>
        cpu_Cores c \<noteq> 0 \<and> cpu_Sockets c \<noteq> 0 \<and> cpu_Threads c \<noteq> 0)) \<and>
     ps_Format p \<in> {[], ''cow'', ''raw''}"

lemma scast_int32_eq_0 [simp]: "(scast (x :: int32) :: 64 word) = 0 \<longleftrightarrow> x = 0"
  by (metis sint_scast_int32 signed_0 signed_eq_0_iff)

lemma VMType_cases:
  "VMTypeDesktop = ''desktop''" "VMTypeServer = ''server''"
  "VMTypeHighPerformance = ''high_performance''"
  by (simp_all add: VMTypeDesktop_def VMTypeServer_def VMTypeHighPerformance_def)

lemma base_params_total: "buildable p \<Longrightarrow> \<exists>o1. base_params ignition name p = Val o1"
  by (auto simp: buildable_def base_params_def Let_def WithVMType_def VMType_cases cpu_params_def
      WithCPUParameters_eq split: option.split)

lemma hugepages_params_total: "buildable p \<Longrightarrow> \<exists>o2. hugepages_params p o1 = Val o2"
  by (auto simp: buildable_def hugepages_params_def WithHugePages_def)

lemma template_disk_total: "buildable p \<Longrightarrow> \<exists>d. template_disk p i = Val d"
  by (auto simp: buildable_def template_disk_def dp_WithFormat_def ImageFormatValues_def Let_def)

lemma template_disks_total: "buildable p \<Longrightarrow> \<exists>ds. res_map (template_disk p) ids = Val ds"
proof (induction ids)
  case Nil
  then show ?case by simp
next
  case (Cons i ids)
  with template_disk_total [of p i] show ?case by auto
qed

lemma placement_params_total: "\<exists>o2. placement_params p pp o1 = Val o2"
  by (auto simp: placement_params_def high_performance_params_def Let_def cpu_WithMode_def
      CPUModeHostPassthrough_def pp_WithAffinity_def VMAffinityUserMigratable_def
      VMAffinityMigratable_def)

lemma no_crash_lift_total [no_crash_intros]: "\<exists>x. r = Val x \<Longrightarrow> no_crash (lift_res r)"
  by (auto intro: no_crash_intros)

lemma no_crash_list_template_disks [no_crash_intros]: "no_crash (list_template_disks C p tid)"
  unfolding list_template_disks_def by (intro no_crash_intros)

lemma no_crash_placement_hosts [no_crash_intros]: "no_crash (placement_hosts C p)"
  by (auto simp: placement_hosts_def Let_def pp_WithHostIDs_def intro!: no_crash_intros)

definition template_has_disks :: "'w ovirt_client \<Rightarrow> bool" where
  "template_has_disks C \<longleftrightarrow> (\<forall>tid. \<not> answers (oc_ListTemplateDiskAttachments C tid) [])"

lemma no_crash_storage_domain_params:
  assumes "ps_StorageDomainId p = [] \<or> template_has_disks C"
  shows "no_crash (storage_domain_params C p tid o1)"
  unfolding no_crash_def
proof (intro allI notI)
  fix s q s'
  assume "storage_domain_params C p tid o1 s = (Crash q, s')"
  with assms no_crashD [OF no_crash_list_template_disks [of C p tid]] show False
    by (auto simp: storage_domain_params_def template_has_disks_def
        elim!: bind_cases split: if_splits list.splits dest!: list_template_disks_answers)
qed

lemma no_crash_build_request:
  assumes "buildable p" and "ps_StorageDomainId p = [] \<or> template_has_disks C"
  shows "no_crash (build_request C ignition name p)"
  unfolding build_request_def template_disks_params_def
  by (intro no_crash_intros base_params_total hugepages_params_total template_disks_total
      placement_params_total no_crash_storage_domain_params assms)

section \<open>The calls of a request\<close>

lemma emits_build_request:
  "emits (\<lambda>c. c = ListHostsCall \<or> (\<exists>t. c = GetTemplateByNameCall t)
     \<or> (\<exists>t. c = ListTemplateDiskAttachmentsCall t)) (build_request C ignition name p)"
  unfolding build_request_def placement_hosts_def template_disks_params_def
    storage_domain_params_def list_template_disks_def
  by (auto simp: pp_WithHostIDs_def Let_def intro!: emits_intros split: list.split)

lemma preserves_build_request [preserves_intros]:
  "preserves machine (build_request C ignition name p)"
  "preserves caches (build_request C ignition name p)"
  "preserves recorded (build_request C ignition name p)"
  "preserves credUpdateListener (build_request C ignition name p)"
  unfolding build_request_def placement_hosts_def template_disks_params_def
    storage_domain_params_def list_template_disks_def
  by (auto simp: pp_WithHostIDs_def Let_def intro!: preserves_intros split: list.split)

section \<open>Properties\<close>

text \<open>C2: whenever the sequence of builder calls ends, the request it built is the one the
  spec describes field by field, for the template, disks and hosts the engine answered.\<close>

theorem request_is_as_specified:
  assumes "build_request C ignition name p s = (Val (tid, params), s')"
  shows "\<exists>ids hosts. params = request_spec ignition name p ids hosts \<and>
     answers (oc_GetTemplateByName C (ps_TemplateName p)) tid \<and>
     (requested_disks p ids \<noteq> [] \<longrightarrow> answers (oc_ListTemplateDiskAttachments C tid) ids) \<and>
     (isAutoPinning p \<longrightarrow> answers (oc_ListHosts C) hosts)"
  by (rule build_request_refines [OF assms]) blast

lemmas build_request_defs =
  build_request_def base_params_def placement_hosts_def isAutoPinning_def hugepages_params_def
  list_template_disks_def template_disks_params_def clone_params_def storage_domain_params_def
  placement_params_def high_performance_params_def Let_def

lemmas builder_eval =
  WithVMType_def VMType_cases cpu_params_def WithCPUParameters_eq pp_WithAffinity_def
  VMAffinityMigratable_def VMAffinityUserMigratable_def cpu_WithMode_def CPUModeHostPassthrough_def

lemma demo_request_runs:
  "\<exists>params s'. build_request demo_engine ''ign'' ''m1'' demo_spec (demo_sys None None)
     = (Val (''t1'', params), s')"
  by (simp add: build_request_defs builder_eval demo_defs)

theorem request_is_as_specified_witness:
  "\<exists>params s' ids hosts. build_request demo_engine ''ign'' ''m1'' demo_spec (demo_sys None None)
      = (Val (''t1'', params), s') \<and> params = request_spec ''ign'' ''m1'' demo_spec ids hosts"
  using demo_request_runs request_is_as_specified by blast

text \<open>C35: the sockets and threads of a spec are exchanged: a VM requested with \<open>s\<close> sockets,
  \<open>c\<close> cores and \<open>t\<close> threads gets a topology of \<open>t\<close> sockets, \<open>c\<close> cores and \<open>s\<close> threads.\<close>

theorem cpu_sockets_threads_swapped:
  assumes "ps_CPU p = Some c" and "ps_InstanceTypeId p = []"
    and "ps_VMType p \<noteq> VMTypeHighPerformance"
    and "build_request C ignition name p s = (Val (tid, params), s')"
  shows "vp_cpu params = Some \<lparr>cpu_mode = None, cpu_topo = Some
     \<lparr>topo_sockets = scast (cpu_Threads c), topo_cores = scast (cpu_Cores c),
      topo_threads = scast (cpu_Sockets c)\<rparr>\<rparr>"
  by (rule build_request_refines [OF assms(4)])
     (simp add: request_spec_def requested_cpu_def Let_def assms(1-3))

theorem cpu_sockets_threads_swapped_witness:
  "\<exists>params s'. build_request demo_engine ''ign'' ''m1'' demo_spec (demo_sys None None)
      = (Val (''t1'', params), s') \<and>
     ps_CPU demo_spec = Some \<lparr>cpu_Sockets = 1, cpu_Cores = 4, cpu_Threads = 2\<rparr> \<and>
     vp_cpu params = Some \<lparr>cpu_mode = None, cpu_topo = Some
       \<lparr>topo_sockets = 2, topo_cores = 4, topo_threads = 1\<rparr>\<rparr>"
proof -
  obtain params s' where run: "build_request demo_engine ''ign'' ''m1'' demo_spec (demo_sys None None)
      = (Val (''t1'', params), s')" using demo_request_runs by blast
  have "ps_CPU demo_spec = Some \<lparr>cpu_Sockets = 1, cpu_Cores = 4, cpu_Threads = 2\<rparr>"
    by (simp add: demo_spec_def)
  from cpu_sockets_threads_swapped [OF this _ _ run] run this show ?thesis
    by (simp add: demo_spec_def empty_spec_def VMType_cases)
qed

text \<open>A high performance VM is requested without the CPU topology and without the
  guaranteed memory of its spec: the second memory policy and the host CPU mode replace
  them.\<close>

lemma high_performance_overrides:
  assumes "ps_VMType p = VMTypeHighPerformance"
    and "build_request C ignition name p s = (Val (tid, params), s')"
  shows "vp_memoryPolicy params = Some \<lparr>mp_guaranteed = None, mp_max = None, mp_ballooning = Some False\<rparr>
     \<and> vp_cpu params = Some \<lparr>cpu_mode = Some CPUModeHostPassthrough, cpu_topo = None\<rparr>"
  by (rule build_request_refines [OF assms(2)])
     (simp add: request_spec_def requested_cpu_def requested_memory_policy_def Let_def assms(1))

theorem high_performance_overrides_witness:
  "\<exists>params s'. build_request demo_engine ''ign'' ''m1''
       (demo_spec\<lparr>ps_VMType := ''high_performance'', ps_GuaranteedMemoryMB := 1024\<rparr>)
       (demo_sys None None) = (Val (''t1'', params), s') \<and>
     vp_memoryPolicy params = Some \<lparr>mp_guaranteed = None, mp_max = None, mp_ballooning = Some False\<rparr>"
proof -
  let ?p = "demo_spec\<lparr>ps_VMType := ''high_performance'', ps_GuaranteedMemoryMB := 1024\<rparr>"
  obtain params s' where run: "build_request demo_engine ''ign'' ''m1'' ?p (demo_sys None None)
      = (Val (''t1'', params), s')"
    by (simp add: build_request_defs builder_eval demo_defs)
  with high_performance_overrides [OF _ run] show ?thesis by (simp add: VMType_cases)
qed

text \<open>C32: the memory sizes of a request are the spec's megabytes in bytes, exactly: the 64-bit
  product does not overflow, and only positive sizes are passed on.\<close>

theorem memory_sizes_exact:
  assumes "build_request C ignition name p s = (Val (tid, params), s')"
  shows "case vp_memory params of None \<Rightarrow> ps_InstanceTypeId p \<noteq> [] \<or> sint (ps_MemoryMB p) \<le> 0
     | Some m \<Rightarrow> sint m = 1048576 * sint (ps_MemoryMB p) \<and> sint m > 0"
  by (rule build_request_refines [OF assms])
     (auto simp: request_spec_def requested_memory_def sint_memory_bytes Let_def)

theorem memory_sizes_exact_witness:
  "\<exists>params s'. build_request demo_engine ''ign'' ''m1'' demo_spec (demo_sys None None)
      = (Val (''t1'', params), s') \<and> vp_memory params = Some 17179869184 \<and>
     (case vp_memory params of None \<Rightarrow> False
      | Some m \<Rightarrow> sint m = 1048576 * sint (ps_MemoryMB demo_spec) \<and> sint m > 0)"
proof -
  obtain params s' where run: "build_request demo_engine ''ign'' ''m1'' demo_spec (demo_sys None None)
      = (Val (''t1'', params), s')" and m: "vp_memory params = Some 17179869184"
    by (simp add: build_request_defs builder_eval demo_defs builder_defs memory_bytes_def bytesInMB_def)
  from memory_sizes_exact [OF run] run m show ?thesis by simp
qed

text \<open>For a spec that passed the required checks, the first builder calls panic exactly
  when a CPU count is zero, which validation does not test.\<close>

lemma zero_cpu_panics:
  assumes "valid_required p"
  shows "(\<exists>q. base_params ignition name p = Crash q) \<longleftrightarrow>
     (\<exists>c. ps_CPU p = Some c \<and> (cpu_Sockets c = 0 \<or> cpu_Cores c = 0 \<or> cpu_Threads c = 0))"
  using assms
  by (auto simp: valid_required_def base_params_def Let_def WithVMType_def VMType_cases
      cpu_params_def WithCPUParameters_eq split: if_splits)

theorem zero_cpu_panics_witness:
  "\<exists>q. base_params ''ign'' ''m1'' (demo_spec\<lparr>ps_CPU := Some \<lparr>cpu_Sockets = 1, cpu_Cores = 4, cpu_Threads = 0\<rparr>\<rparr>)
     = Crash q"
proof -
  have "valid_required (demo_spec\<lparr>ps_CPU := Some \<lparr>cpu_Sockets = 1, cpu_Cores = 4, cpu_Threads = 0\<rparr>\<rparr>)"
    by (simp add: valid_required_def demo_spec_def empty_spec_def)
  from zero_cpu_panics [OF this] show ?thesis by simp
qed

text \<open>With a storage domain the disk parameters made before are replaced by one entry for the
  first disk of the template, and a template without disks makes the index panic.\<close>

lemma storage_domain_replaces_disks:
  assumes "ps_StorageDomainId p \<noteq> []" and "oc_ListTemplateDiskAttachments C tid (world s) = (Inr ids, w)"
  shows "fst (storage_domain_params C p tid o1 s) = (case ids of
       [] \<Rightarrow> Crash IndexOutOfRange
     | i # _ \<Rightarrow> Val (MustWithDisks [dp_MustWithStorageDomainID (ps_StorageDomainId p) (NewBuildableVMDiskParameters i)] o1))"
  using assms by (cases ids) (simp_all add: storage_domain_params_def list_template_disks_def api_def bind_def annotate_def)


end
