(* ===== verification/Protocol.thy ===== *)
theory Protocol
  imports Call_Log
begin

text \<open>
  Protocols over the log of API calls. A protocol is a step relation \<open>step\<close> on phases,
  labelled with a call and whether it succeeded. \<open>follows step q m A F\<close>: from phase \<open>q\<close>,
  whatever the services answer, the calls \<open>m\<close> makes are accepted by the protocol, and
  the phase reached satisfies \<open>A x\<close> if \<open>m\<close> returns \<open>x\<close> and \<open>F\<close> if it returns an error.
  The rules follow the effect combinators, like the rules of a Hoare logic whose only
  state is the phase.
\<close>

named_theorems follows_intros \<open>rules for the protocol an operation follows\<close>

type_synonym 'q protocol = "'q \<Rightarrow> api_call \<times> bool \<Rightarrow> 'q \<Rightarrow> bool"

inductive accepts :: "'q protocol \<Rightarrow> 'q \<Rightarrow> call_log \<Rightarrow> 'q \<Rightarrow> bool" for step where
  accepts_Nil: "accepts step q [] q"
| accepts_Cons: "step q e q1 \<Longrightarrow> accepts step q1 es q2 \<Longrightarrow> accepts step q (e # es) q2"

inductive_simps accepts_Nil_iff [simp]: "accepts step q [] q'"
inductive_simps accepts_Cons_iff: "accepts step q (e # es) q'"

lemma accepts_append:
  "accepts step q xs q1 \<Longrightarrow> accepts step q1 ys q2 \<Longrightarrow> accepts step q (xs @ ys) q2"
  by (induction rule: accepts.induct) (auto intro: accepts_Cons)

lemma accepts_single: "step q e q1 \<Longrightarrow> accepts step q [e] q1"
  by (rule accepts_Cons [OF _ accepts_Nil])

lemma accepts_append_iff:
  "accepts step q (xs @ ys) q2 \<longleftrightarrow> (\<exists>q1. accepts step q xs q1 \<and> accepts step q1 ys q2)"
proof (induction xs arbitrary: q)
  case Nil
  then show ?case by simp
next
  case (Cons e xs)
  then show ?case by (auto simp: accepts_Cons_iff)
qed

text \<open>A property of phases that every step keeps holds along every accepted log.\<close>

lemma accepts_invariant:
  assumes "accepts step q es q'" and "P q"
    and "\<And>q e q1. P q \<Longrightarrow> step q e q1 \<Longrightarrow> P q1"
  shows "P q'"
  using assms by (induction rule: accepts.induct) auto

definition follows ::
  "'q protocol \<Rightarrow> 'q \<Rightarrow> ('w sys, 'a) go \<Rightarrow> ('a \<Rightarrow> 'q \<Rightarrow> bool) \<Rightarrow> ('q \<Rightarrow> bool) \<Rightarrow> bool" where
  "follows step q m A F \<longleftrightarrow>
     (\<forall>s r s'. m s = (r, s') \<longrightarrow>
        (\<exists>new q'. calls s' = calls s @ new \<and> accepts step q new q' \<and>
           (\<forall>x. r = Val x \<longrightarrow> A x q') \<and> (\<forall>e. r = Fail e \<longrightarrow> F q')))"

lemma followsE:
  assumes "follows step q m A F" and "m s = (r, s')"
  obtains new q' where "calls s' = calls s @ new" and "accepts step q new q'"
    and "\<forall>x. r = Val x \<longrightarrow> A x q'" and "\<forall>e. r = Fail e \<longrightarrow> F q'"
proof -
  from assms have "\<exists>new q'. calls s' = calls s @ new \<and> accepts step q new q' \<and>
      (\<forall>x. r = Val x \<longrightarrow> A x q') \<and> (\<forall>e. r = Fail e \<longrightarrow> F q')"
    by (simp add: follows_def)
  then show thesis using that by blast
qed

lemma follows_ValD:
  assumes "follows step q m A F" and "m s = (Val x, s')"
  shows "\<exists>new q'. calls s' = calls s @ new \<and> accepts step q new q' \<and> A x q'"
  by (rule followsE [OF assms]) auto

lemma follows_FailD:
  assumes "follows step q m A F" and "m s = (Fail e, s')"
  shows "\<exists>new q'. calls s' = calls s @ new \<and> accepts step q new q' \<and> F q'"
  by (rule followsE [OF assms]) auto

lemma follows_CrashD:
  assumes "follows step q m A F" and "m s = (Crash p, s')"
  shows "\<exists>new q'. calls s' = calls s @ new \<and> accepts step q new q'"
  by (rule followsE [OF assms]) auto

lemma followsI:
  assumes "\<And>s r s'. m s = (r, s') \<Longrightarrow>
      \<exists>new q'. calls s' = calls s @ new \<and> accepts step q new q' \<and>
           (\<forall>x. r = Val x \<longrightarrow> A x q') \<and> (\<forall>e. r = Fail e \<longrightarrow> F q')"
  shows "follows step q m A F"
  using assms unfolding follows_def by blast

lemma follows_weaken:
  assumes "follows step q m A F" and "\<And>x q'. A x q' \<Longrightarrow> B x q'" and "\<And>q'. F q' \<Longrightarrow> G q'"
  shows "follows step q m B G"
proof (rule followsI)
  fix s r s'
  assume "m s = (r, s')"
  with assms(1) obtain new q' where *: "calls s' = calls s @ new" "accepts step q new q'"
    "\<forall>x. r = Val x \<longrightarrow> A x q'" "\<forall>e. r = Fail e \<longrightarrow> F q'" by (rule followsE)
  show "\<exists>new q'. calls s' = calls s @ new \<and> accepts step q new q' \<and>
      (\<forall>x. r = Val x \<longrightarrow> B x q') \<and> (\<forall>e. r = Fail e \<longrightarrow> G q')"
    using * by (intro exI [of _ new] exI [of _ q']) (auto intro: assms(2,3))
qed

lemma follows_silent:
  assumes "\<And>s. calls (snd (m s)) = calls s"
    and "\<And>s x. fst (m s) = Val x \<Longrightarrow> A x q" and "\<And>s e. fst (m s) = Fail e \<Longrightarrow> F q"
  shows "follows step q m A F"
proof (rule followsI)
  fix s r s'
  assume "m s = (r, s')"
  with assms(1) [of s] assms(2,3) [of s]
  show "\<exists>new q'. calls s' = calls s @ new \<and> accepts step q new q' \<and>
      (\<forall>x. r = Val x \<longrightarrow> A x q') \<and> (\<forall>e. r = Fail e \<longrightarrow> F q')"
    by (intro exI [of _ "[]"] exI [of _ q]) simp
qed

lemma follows_ret [follows_intros]: "A x q \<Longrightarrow> follows step q (ret x) A F"
  by (rule follows_silent) simp_all

lemma follows_fail [follows_intros]: "F q \<Longrightarrow> follows step q (fail e) A F"
  by (rule follows_silent) simp_all

lemma follows_crash [follows_intros]: "follows step q (crash p) A F"
  by (rule follows_silent) simp_all

lemma follows_gets [follows_intros]: "(\<And>s. A (f s) q) \<Longrightarrow> follows step q (gets f) A F"
  by (rule follows_silent) auto

lemma follows_modify [follows_intros]:
  "(\<And>s. calls (f s) = calls s) \<Longrightarrow> A () q \<Longrightarrow> follows step q (modify f) A F"
  by (rule follows_silent) simp_all

lemma follows_lift_res [follows_intros]:
  "(\<And>x. r = Val x \<Longrightarrow> A x q) \<Longrightarrow> (\<And>e. r = Fail e \<Longrightarrow> F q) \<Longrightarrow> follows step q (lift_res r) A F"
  by (rule follows_silent) simp_all

lemma follows_lift_err [follows_intros]:
  "A () q \<Longrightarrow> (\<And>e. eo = Some e \<Longrightarrow> F q) \<Longrightarrow> follows step q (lift_err eo) A F"
  by (cases eo) (auto intro: follows_intros)

lemma follows_deref [follows_intros]:
  "(\<And>x. p = Some x \<Longrightarrow> A x q) \<Longrightarrow> follows step q (deref p) A F"
  by (cases p) (auto intro: follows_intros)

lemma follows_api_answers:
  assumes "step q (c, True) q1" and "\<And>x. answers f x \<Longrightarrow> A x q1"
    and "step q (c, False) q2" and "F q2"
  shows "follows step q (api c f) A F"
proof (rule followsI)
  fix s r s'
  assume *: "api c f s = (r, s')"
  then consider x where "r = Val x" "answers f x" | e where "r = Fail e"
    by (cases r) (auto dest: api_answers no_crashD [OF no_crash_api])
  then show "\<exists>new q'. calls s' = calls s @ new \<and> accepts step q new q' \<and>
      (\<forall>x. r = Val x \<longrightarrow> A x q') \<and> (\<forall>e. r = Fail e \<longrightarrow> F q')"
    by cases (use * assms in \<open>force dest!: api_run intro: accepts_single\<close>)+
qed

lemma follows_api [follows_intros]:
  assumes "step q (c, True) q1" and "\<And>x. A x q1"
    and "step q (c, False) q2" and "F q2"
  shows "follows step q (api c f) A F"
  using assms by (intro follows_api_answers)

lemma follows_GetVMByName [follows_intros]:
  assumes "\<And>ok. \<exists>q1. step q (GetVMByNameCall n, ok) q1 \<and> (\<forall>v err. ok = (err = None) \<longrightarrow> A (v, err) q1)"
  shows "follows step q (GetVMByName C n) A F"
proof (rule followsI)
  fix s r s'
  assume "GetVMByName C n s = (r, s')"
  then obtain v err where r: "r = Val (v, err)"
    and c: "calls s' = calls s @ [(GetVMByNameCall n, err = None)]"
    by (auto simp: GetVMByName_def split: prod.splits)
  from assms [of "err = None"] obtain q1
    where "step q (GetVMByNameCall n, err = None) q1" and "A (v, err) q1" by blast
  with r c show "\<exists>new q'. calls s' = calls s @ new \<and> accepts step q new q' \<and>
      (\<forall>x. r = Val x \<longrightarrow> A x q') \<and> (\<forall>e. r = Fail e \<longrightarrow> F q')"
    by (intro exI [of _ "[(GetVMByNameCall n, err = None)]"] exI [of _ q1])
       (simp add: accepts_single)
qed

lemma follows_bind:
  assumes m: "follows step q m R F" and k: "\<And>x q'. R x q' \<Longrightarrow> follows step q' (k x) A F"
  shows "follows step q (bind m k) A F"
proof (rule followsI)
  fix s r s''
  assume "bind m k s = (r, s'')"
  then show "\<exists>new q'. calls s'' = calls s @ new \<and> accepts step q new q' \<and>
      (\<forall>x. r = Val x \<longrightarrow> A x q') \<and> (\<forall>e. r = Fail e \<longrightarrow> F q')"
  proof (cases rule: bind_cases)
    case (Val x s')
    from follows_ValD [OF m Val(1)] obtain n1 q1
      where 1: "calls s' = calls s @ n1" "accepts step q n1 q1" "R x q1" by blast
    from k [OF 1(3)] Val(2) obtain n2 q2 where 2: "calls s'' = calls s' @ n2"
      "accepts step q1 n2 q2" "\<forall>x. r = Val x \<longrightarrow> A x q2" "\<forall>e. r = Fail e \<longrightarrow> F q2"
      by (rule followsE)
    from 1 2 show ?thesis
      by (intro exI [of _ "n1 @ n2"] exI [of _ q2]) (auto intro: accepts_append)
  next
    case (Fail e)
    with follows_FailD [OF m Fail(1)] show ?thesis by simp
  next
    case (Crash p)
    with follows_CrashD [OF m Crash(1)] show ?thesis by simp
  qed
qed

text \<open>The common case: the first operation leads to one phase.\<close>

lemma follows_seq:
  assumes "follows step q m (\<lambda>_ q'. q' = q1) F" and "\<And>x. follows step q1 (k x) A F"
  shows "follows step q (bind m k) A F"
  using assms by (auto intro: follows_bind)

lemma follows_map_err [follows_intros]:
  assumes "follows step q m A F" shows "follows step q (map_err f m) A F"
proof (rule followsI)
  fix s r s'
  assume *: "map_err f m s = (r, s')"
  obtain r0 where m: "m s = (r0, s')" using * by (metis prod.collapse snd_conv snd_map_err)
  with assms obtain new q' where 1: "calls s' = calls s @ new" "accepts step q new q'"
    "\<forall>x. r0 = Val x \<longrightarrow> A x q'" "\<forall>e. r0 = Fail e \<longrightarrow> F q'" by (rule followsE)
  have "\<And>x. r = Val x \<Longrightarrow> r0 = Val x" and "\<And>e. r = Fail e \<Longrightarrow> \<exists>e'. r0 = Fail e'"
    using * m by (cases r0; auto)+
  with 1 show "\<exists>new q'. calls s' = calls s @ new \<and> accepts step q new q' \<and>
      (\<forall>x. r = Val x \<longrightarrow> A x q') \<and> (\<forall>e. r = Fail e \<longrightarrow> F q')" by blast
qed

lemma follows_annotate [follows_intros]:
  "follows step q m A F \<Longrightarrow> follows step q (annotate msg m) A F"
  by (simp add: annotate_def follows_map_err)

lemma follows_attempt [follows_intros]:
  assumes "follows step q m (\<lambda>x. A (Inr x)) (\<lambda>q'. \<forall>e. A (Inl e) q')"
  shows "follows step q (attempt m) A F"
proof (rule followsI)
  fix s r s'
  assume *: "attempt m s = (r, s')"
  obtain r0 where m: "m s = (r0, s')" using * by (metis prod.collapse snd_conv snd_attempt)
  with assms obtain new q' where "calls s' = calls s @ new" "accepts step q new q'"
    "\<forall>x. r0 = Val x \<longrightarrow> A (Inr x) q'" "\<forall>e. r0 = Fail e \<longrightarrow> (\<forall>e. A (Inl e) q')"
    by (rule followsE)
  then show "\<exists>new q'. calls s' = calls s @ new \<and> accepts step q new q' \<and>
      (\<forall>x. r = Val x \<longrightarrow> A x q') \<and> (\<forall>e. r = Fail e \<longrightarrow> F q')"
    using * m by (cases r0) auto
qed

lemma follows_if [follows_intros]:
  "(b \<Longrightarrow> follows step q m A F) \<Longrightarrow> (\<not> b \<Longrightarrow> follows step q n A F) \<Longrightarrow>
   follows step q (if b then m else n) A F"
  by simp

lemma follows_case_option [follows_intros]:
  "(x = None \<Longrightarrow> follows step q m A F) \<Longrightarrow> (\<And>y. x = Some y \<Longrightarrow> follows step q (k y) A F) \<Longrightarrow>
   follows step q (case x of None \<Rightarrow> m | Some y \<Rightarrow> k y) A F"
  by (cases x) simp_all

lemma follows_Let [follows_intros]:
  "(\<And>x. x = t \<Longrightarrow> follows step q (k x) A F) \<Longrightarrow> follows step q (let x = t in k x) A F"
  by simp

lemma follows_stay:
  assumes "follows step q m (\<lambda>_ q'. q' = q) F" and "\<And>x. follows step q (k x) A F"
  shows "follows step q (bind m k) A F"
  using assms by (rule follows_seq)

text \<open>A loop whose body keeps the phase.\<close>

lemma follows_for_each [follows_intros]:
  assumes "\<And>x. x \<in> set xs \<Longrightarrow> follows step q (f x) (\<lambda>_ q'. q' = q) F" and "A () q"
  shows "follows step q (for_each f xs) A F"
  using assms
  by (induction xs) (auto intro!: follows_intros intro: follows_seq)

end
