(* ===== verification/Machine_Create.thy ===== *)
theory Machine_Create
  imports VM_Request Protocol
begin

text \<open>
  The machine scope and \<open>create\<close> (\<open>pkg/actuators/machine/machine.go\<close>): look the VM up, build
  the request, create the VM, wait for it, configure it, start it and wait again. One
  definition per block of the function, composed in \<open>create_vm\<close> and \<open>create\<close> in the
  code's order.
\<close>

section \<open>The machine scope\<close>

text \<open>\<open>client\<close> is an interface value and \<open>machineProviderSpec\<close> a pointer; both may be nil.\<close>

record 'w machineScope =
  ms_ovirtClient :: "'w ovirt_client"
  ms_client :: "'w k8s_client option"
  ms_original :: Machine
  ms_providerSpec :: "OvirtMachineProviderSpec option"

definition newMachineScope ::
  "'w ovirt_client \<Rightarrow> 'w k8s_client option \<Rightarrow> OvirtMachineProviderSpec option \<Rightarrow>
     ('w sys, 'w machineScope) go" where
  "newMachineScope C k providerSpec =
     gets (\<lambda>s. \<lparr>ms_ovirtClient = C, ms_client = k, ms_original = machine s,
                ms_providerSpec = providerSpec\<rparr>)"

definition getIgnition :: "'w machineScope \<Rightarrow> ('w sys, string) go" where
  "getIgnition ms =
     (case ms_providerSpec ms of
        None \<Rightarrow> ret []
      | Some p \<Rightarrow>
          (case ps_UserDataSecret p of
             None \<Rightarrow> ret []
           | Some sec \<Rightarrow>
               bind (gets machine) (\<lambda>m.
               bind (deref (ms_client ms)) (\<lambda>k.
               bind (annotate ''error getting userDataSecret''
                       (api (GetSecretCall (mc_Namespace m) (lor_Name sec))
                          (kc_GetSecret k (mc_Namespace m) (lor_Name sec)))) (\<lambda>data.
               case data userDataSecretKey of
                 None \<Rightarrow> fail (ErrorString (''secret '' @ mc_Namespace m @ ''/'' @ lor_Name sec @
                                 '' missing '' @ userDataSecretKey @ '' key''))
               | Some userData \<Rightarrow> ret userData)))))"

section \<open>Configuring the new VM\<close>

text \<open>A block of \<open>create\<close> either falls through or returns from the function.\<close>

datatype flow = Next | Return "gerr option"

definition remove_graphics_consoles ::
  "'w ovirt_client \<Rightarrow> OvirtMachineProviderSpec \<Rightarrow> string \<Rightarrow> ('w sys, unit) go" where
  "remove_graphics_consoles C p vmid =
     (if ps_VMType p = VMTypeHighPerformance then
        bind (annotate ''failed to list graphics consoles''
               (api (ListGraphicsConsolesCall vmid) (oc_ListGraphicsConsoles C vmid))) (\<lambda>gcs.
        for_each (\<lambda>g. annotate (''failed to remove graphics console '' @ [CHR 0x27] @ gc_id g @
                          [CHR 0x27] @ '' from VM '' @ [CHR 0x27] @ gc_vmID g @ [CHR 0x27])
                    (api (RemoveGraphicsConsoleCall (gc_vmID g) (gc_id g))
                       (oc_RemoveGraphicsConsole C (gc_vmID g) (gc_id g)))) gcs)
      else ret ())"

definition bytesPerGB :: int64 where "bytesPerGB = 1073741824"

definition new_disk_size :: "Disk \<Rightarrow> uint64" where
  "new_disk_size d = disk_SizeGB d * bytesPerGB"

text \<open>The loop keeps the last bootable attachment.\<close>

definition bootable_attachment :: "disk_attachment list \<Rightarrow> disk_attachment option" where
  "bootable_attachment das = foldl (\<lambda>b d. if da_bootable d then Some d else b) None das"

text \<open>
  The size is computed from \<open>OSDisk\<close> before \<open>OSDisk\<close> is compared with nil. When no
  attachment is bootable the code wraps \<open>err\<close>, which is nil at that point.
\<close>

definition extend_os_disk ::
  "'w ovirt_client \<Rightarrow> OvirtMachineProviderSpec \<Rightarrow> vm \<Rightarrow> ('w sys, flow) go" where
  "extend_os_disk C p v =
     bind (deref (ps_OSDisk p)) (\<lambda>d.
     let newDiskSize = new_disk_size d in
     bind (annotate (''failed to list disk attachments for VM '' @ vm_id v @ ''.'')
             (api (ListDiskAttachmentsCall (vm_id v)) (oc_ListDiskAttachments C (vm_id v)))) (\<lambda>das.
     case bootable_attachment das of
       None \<Rightarrow> ret (Return (Wrap None (''VM '' @ vm_name v @ ''('' @ vm_id v @
                  '') doesn'' @ [CHR 0x27] @ ''t have a bootable disk'')))
     | Some da \<Rightarrow>
         bind (api (GetDiskCall (da_diskID da)) (oc_GetDisk C (da_diskID da))) (\<lambda>dsk.
         if newDiskSize > dsk_provisionedSize dsk then
           bind (lift_res (must (WithProvisionedSize newDiskSize))) (\<lambda>sz.
           bind (annotate (''failed to extend disk '' @ dsk_id dsk)
                   (api (UpdateDiskCall (dsk_id dsk) sz) (oc_UpdateDisk C (dsk_id dsk) sz))) (\<lambda>upd.
           bind (api (WaitForDiskOKCall (dsk_id upd)) (oc_WaitForDiskOK C (dsk_id upd))) (\<lambda>_.
           ret Next)))
         else ret Next)))"

definition nic_name :: "nat \<Rightarrow> string" where
  "nic_name i = ''nic'' @ itoa (i + 1)"

definition create_nic ::
  "'w ovirt_client \<Rightarrow> string \<Rightarrow> nat \<times> NetworkInterface option \<Rightarrow> ('w sys, unit) go" where
  "create_nic C vmid = (\<lambda>(i, ni).
     bind (deref ni) (\<lambda>n.
     bind (api (CreateNICCall vmid (nic_name i) (ni_VNICProfileID n))
             (oc_CreateNIC C vmid (nic_name i) (ni_VNICProfileID n))) (\<lambda>_. ret ())))"

definition reattach_nics ::
  "'w ovirt_client \<Rightarrow> OvirtMachineProviderSpec \<Rightarrow> string \<Rightarrow> ('w sys, unit) go" where
  "reattach_nics C p vmid =
     (if ps_NetworkInterfaces p \<noteq> [] then
        bind (annotate (''failed to list NICs on VM '' @ vmid)
                (api (ListNICsCall vmid) (oc_ListNICs C vmid))) (\<lambda>nics.
        bind (for_each (\<lambda>n. annotate (''failed to remove NIC '' @ nic_id n)
                (api (RemoveNICCall (nic_vmID n) (nic_id n))
                   (oc_RemoveNIC C (nic_vmID n) (nic_id n)))) nics) (\<lambda>_.
        for_each (create_nic C vmid) (List.enumerate 0 (ps_NetworkInterfaces p))))
      else ret ())"

definition optimize_pinning ::
  "'w ovirt_client \<Rightarrow> OvirtMachineProviderSpec \<Rightarrow> string \<Rightarrow> ('w sys, unit) go" where
  "optimize_pinning C p vmid =
     (if isAutoPinning p
      then api (AutoOptimizePinningCall vmid True) (oc_AutoOptimizeVMCPUPinningSettings C vmid True)
      else ret ())"

definition clusterLabel :: string where
  "clusterLabel = ''machine.openshift.io/cluster-api-cluster''"

definition tag_vm :: "'w ovirt_client \<Rightarrow> string \<Rightarrow> ('w sys, unit) go" where
  "tag_vm C vmid =
     bind (gets machine) (\<lambda>m.
     let tag = map_index (mc_Labels m) clusterLabel in
     api (AddTagCall vmid tag) (oc_AddTagToVMByName C vmid tag))"

definition join_affinity_group ::
  "'w ovirt_client \<Rightarrow> OvirtMachineProviderSpec \<Rightarrow> string \<Rightarrow> string \<Rightarrow> ('w sys, unit) go" where
  "join_affinity_group C p vmid agName =
     bind (api (GetAffinityGroupCall (ps_ClusterId p) agName)
             (oc_GetAffinityGroupByName C (ps_ClusterId p) agName)) (\<lambda>ag.
     api (AddVMToAffinityGroupCall (ag_clusterID ag) vmid (ag_id ag))
       (oc_AddVMToAffinityGroup C (ag_clusterID ag) vmid (ag_id ag)))"

definition start_vm :: "'w ovirt_client \<Rightarrow> string \<Rightarrow> ('w sys, unit) go" where
  "start_vm C vmid =
     bind (annotate ''error running oVirt VM'' (api (StartVMCall vmid) (oc_StartVM C vmid))) (\<lambda>_.
     bind (annotate ''error waiting for oVirt VM to be UP''
             (api (WaitForVMStatusCall vmid VMStatusUp) (oc_WaitForVMStatus C vmid VMStatusUp))) (\<lambda>_.
     ret ()))"

definition configure_and_start ::
  "'w ovirt_client \<Rightarrow> OvirtMachineProviderSpec \<Rightarrow> vm \<Rightarrow> ('w sys, unit) go" where
  "configure_and_start C p v =
     bind (remove_graphics_consoles C p (vm_id v)) (\<lambda>_.
     bind (extend_os_disk C p v) (\<lambda>fl.
     case fl of
       Return err \<Rightarrow> lift_err err
     | Next \<Rightarrow>
         bind (reattach_nics C p (vm_id v)) (\<lambda>_.
         bind (optimize_pinning C p (vm_id v)) (\<lambda>_.
         bind (tag_vm C (vm_id v)) (\<lambda>_.
         bind (for_each (join_affinity_group C p (vm_id v)) (ps_AffinityGroupsNames p)) (\<lambda>_.
         start_vm C (vm_id v)))))))"

section \<open>create\<close>

definition create_vm :: "'w machineScope \<Rightarrow> OvirtMachineProviderSpec \<Rightarrow> ('w sys, unit) go" where
  "create_vm ms p =
     bind (annotate ''error getting VM ignition'' (getIgnition ms)) (\<lambda>ignition.
     bind (gets machine) (\<lambda>m.
     bind (build_request (ms_ovirtClient ms) ignition (mc_Name m) p) (\<lambda>(tid, params).
     bind (annotate ''error creating Ovirt instance''
             (api (CreateVMCall (ps_ClusterId p) tid (mc_Name m) params)
                (oc_CreateVM (ms_ovirtClient ms) (ps_ClusterId p) tid (mc_Name m) params))) (\<lambda>v.
     bind (annotate ''error creating oVirt VM''
             (api (WaitForVMStatusCall (vm_id v) VMStatusDown)
                (oc_WaitForVMStatus (ms_ovirtClient ms) (vm_id v) VMStatusDown))) (\<lambda>_.
     configure_and_start (ms_ovirtClient ms) p v)))))"

definition create :: "'w machineScope \<Rightarrow> ('w sys, unit) go" where
  "create ms =
     bind (gets machine) (\<lambda>m.
     bind (GetVMByName (ms_ovirtClient ms) (mc_Name m)) (\<lambda>(vms, err).
     bind (deref (ms_providerSpec ms)) (\<lambda>p.
     bind (case err of
             None \<Rightarrow> ret ()
           | Some e \<Rightarrow>
               bind (lift_res (HasErrorCode e ENotFound)) (\<lambda>notFound.
               if \<not> notFound then fail (Wrapped ''error finding VM by name'' e) else ret ())) (\<lambda>_.
     if vms \<noteq> None then ret () else create_vm ms p))))"

end
