(* ===== verification/Machine_Reconcile.thy ===== *)
theory Machine_Reconcile
  imports Machine_Create
begin

text \<open>
  The other operations of the machine scope (\<open>pkg/actuators/machine/machine.go\<close>): \<open>exists\<close>,
  \<open>delete\<close>, \<open>reconcileMachine\<close> with its four parts, and \<open>patchMachine\<close>. The Machine object
  is the field \<open>machine\<close> of the state, which the reconcile functions write through their
  pointer.
\<close>

section \<open>exists, delete\<close>

definition vm_exists :: "'w machineScope \<Rightarrow> ('w sys, bool) go" where
  "vm_exists ms =
     bind (gets machine) (\<lambda>m.
     bind (GetVMByName (ms_ovirtClient ms) (mc_Name m)) (\<lambda>(_, err).
     case err of
       Some e \<Rightarrow>
         bind (lift_res (HasErrorCode e ENotFound)) (\<lambda>notFound.
         if notFound then ret False else fail (Wrapped ''error finding VM by name'' e))
     | None \<Rightarrow> ret True))"

definition delete_found :: "'w ovirt_client \<Rightarrow> string \<Rightarrow> ('w sys, unit) go" where
  "delete_found C vmid =
     bind (api (StopVMCall vmid True) (oc_StopVM C vmid True)) (\<lambda>_.
     bind (api (WaitForVMStatusCall vmid VMStatusDown) (oc_WaitForVMStatus C vmid VMStatusDown)) (\<lambda>_.
     bind (attempt (api (RemoveVMCall vmid) (oc_RemoveVM C vmid))) (\<lambda>r.
     case r of
       Inr _ \<Rightarrow> ret ()
     | Inl err \<Rightarrow>
         bind (lift_res (HasErrorCode err ENotFound)) (\<lambda>notFound.
         if \<not> notFound then fail err else ret ()))))"

definition delete :: "'w machineScope \<Rightarrow> ('w sys, unit) go" where
  "delete ms =
     bind (gets machine) (\<lambda>m.
     bind (GetVMByName (ms_ovirtClient ms) (mc_Name m)) (\<lambda>(v, err).
     case err of
       Some e \<Rightarrow>
         bind (lift_res (HasErrorCode e ENotFound)) (\<lambda>notFound.
         if notFound then ret () else fail (Wrapped ''error finding VM by name'' e))
     | None \<Rightarrow> bind (deref v) (\<lambda>v. delete_found (ms_ovirtClient ms) (vm_id v))))"

section \<open>Writing the Machine object\<close>

definition set_machine :: "(Machine \<Rightarrow> Machine) \<Rightarrow> ('w sys, unit) go" where
  "set_machine f = modify (\<lambda>s. s\<lparr>machine := f (machine s)\<rparr>)"

definition reconcileMachineProviderID :: "string \<Rightarrow> ('w sys, unit) go" where
  "reconcileMachineProviderID vmid =
     set_machine (\<lambda>m. m\<lparr>mc_ProviderID := Some (ProviderIDPrefix @ vmid)\<rparr>)"

text \<open>A nil annotation map is replaced by an empty one first.\<close>

definition reconcileMachineAnnotations :: "string \<Rightarrow> string \<Rightarrow> ('w sys, unit) go" where
  "reconcileMachineAnnotations status vmid =
     set_machine (\<lambda>m.
       let ann = (case mc_Annotations m of None \<Rightarrow> Map.empty | Some a \<Rightarrow> a) in
       m\<lparr>mc_Annotations := Some (ann(InstanceStatusAnnotationKey \<mapsto> status, OvirtIDAnnotationKey \<mapsto> vmid))\<rparr>)"

definition reconcileMachineProviderStatus :: "codec \<Rightarrow> string \<Rightarrow> string \<Rightarrow> ('w sys, unit) go" where
  "reconcileMachineProviderStatus J status vmid =
     bind (gets machine) (\<lambda>m.
     case ProviderStatusFromRawExtension J (mst_ProviderStatus (mc_Status m)) of
       Inl err \<Rightarrow> fail (Wrapped ''error unmarshaling machine ProviderStatus field'' err)
     | Inr providerStatus \<Rightarrow>
         (case RawExtensionFromProviderStatus J (Some (providerStatus
                 \<lparr>pst_InstanceState := Some status, pst_InstanceID := Some vmid\<rparr>)) of
            Inl err \<Rightarrow> fail (Wrapped ''error marshaling machine ProviderStatus field'' err)
          | Inr rawExtension \<Rightarrow>
              set_machine (\<lambda>m. m\<lparr>mc_Status := (mc_Status m)\<lparr>mst_ProviderStatus := Some rawExtension\<rparr>\<rparr>)))"

section \<open>The network\<close>

text \<open>The two addresses as the keys of a map: a set, listed without repetition.\<close>

definition getClusterAddress :: "'w machineScope \<Rightarrow> ('w sys, string list) go" where
  "getClusterAddress ms =
     bind (deref (ms_client ms)) (\<lambda>k.
     bind (annotate ''error getting infrastucture data''
             (api (GetInfrastructureCall globalInfrastuctureName)
                (kc_GetInfrastructure k globalInfrastuctureName))) (\<lambda>infra.
     bind (deref (inf_PlatformStatus infra)) (\<lambda>ps.
     bind (deref ps) (\<lambda>ovirt.
     ret (if ops_APIServerInternalIP ovirt = ops_IngressIP ovirt
          then [ops_APIServerInternalIP ovirt]
          else [ops_APIServerInternalIP ovirt, ops_IngressIP ovirt])))))"

text \<open>The regular expression \<open>^(eth|en|br\-ex).*\<close>.\<close>

definition nicRegex :: "string \<Rightarrow> bool" where
  "nicRegex name \<longleftrightarrow> has_prefix name ''eth'' \<or> has_prefix name ''en'' \<or> has_prefix name ''br-ex''"

primrec exclude_addresses :: "string list \<Rightarrow> VMIPSearchParams \<Rightarrow> gerr + VMIPSearchParams" where
  "exclude_addresses [] IPParams = Inr IPParams"
| "exclude_addresses (a # as) IPParams =
     (case ParseCIDR (a @ ''/32'') of
        Inl err \<Rightarrow> Inl (Wrapped (''failed to convert IP Address '' @ a @ '' to CIDR'') err)
      | Inr (_, ipnet) \<Rightarrow> exclude_addresses as (WithExcludedRange ipnet IPParams))"

text \<open>
  \<open>GetVMIPAddresses\<close> is the engine's answer filtered by the client. Its result is a map,
  so the interfaces are visited in any order; \<open>order\<close> is the order of this run.
\<close>

definition visit :: "(string list \<Rightarrow> string list) \<Rightarrow> (string \<times> 'a) list \<Rightarrow> (string \<times> 'a) list" where
  "visit order m = List.map_filter (\<lambda>k. map_option (Pair k) (map_of m k)) (order (map fst m))"

definition first_address :: "(string \<times> IP list) list \<Rightarrow> IP option" where
  "first_address nics = (case concat (map snd nics) of [] \<Rightarrow> None | ip # _ \<Rightarrow> Some ip)"

definition findUsableInternalAddress ::
  "(string list \<Rightarrow> string list) \<Rightarrow> 'w machineScope \<Rightarrow> string \<Rightarrow> string list \<Rightarrow> ('w sys, string) go" where
  "findUsableInternalAddress order ms vmID excludeAddr =
     (let IPParams = WithIncludedInterfacePattern nicRegex NewVMIPSearchParams in
      case exclude_addresses (order excludeAddr) IPParams of
        Inl err \<Rightarrow> fail err
      | Inr params \<Rightarrow>
          bind (annotate ''failed to get reported devices list''
                  (api (ReportedIPsCall vmID) (oc_ReportedIPs (ms_ovirtClient ms) vmID))) (\<lambda>reported.
          case first_address (visit order (filterReportedIPList reported params)) of
            Some ip \<Rightarrow> ret (ip_String ip)
          | None \<Rightarrow> bind (lift_err (Wrap None (''failed to find usable address for VM '' @ vmID @ '' '')))
                      (\<lambda>_. ret [])))"

definition NodeInternalDNS :: string where "NodeInternalDNS = ''InternalDNS''"
definition NodeInternalIP :: string where "NodeInternalIP = ''InternalIP''"

definition reconcileMachineNetwork ::
  "(string list \<Rightarrow> string list) \<Rightarrow> 'w machineScope \<Rightarrow> VMStatus \<Rightarrow> string \<Rightarrow> string \<Rightarrow>
     ('w sys, unit) go" where
  "reconcileMachineNetwork order ms status name vmID =
     (if status = VMStatusUp \<or> status = VMStatusMigrating then
        bind (annotate ''error getting cluster address'' (getClusterAddress ms)) (\<lambda>excludeAddr.
        bind (annotate ''failed to lookup the VM IP - skip setting addresses for this machine''
                (findUsableInternalAddress order ms vmID excludeAddr)) (\<lambda>ip.
        set_machine (\<lambda>m. m\<lparr>mc_Status := (mc_Status m)\<lparr>mst_Addresses :=
             [\<lparr>na_Type = NodeInternalDNS, na_Address = name\<rparr>,
              \<lparr>na_Type = NodeInternalIP, na_Address = ip\<rparr>]\<rparr>\<rparr>)))
      else if status = VMStatusDown then ret ()
      else fail (ErrorString (''requeuing reconciliation, VM '' @ name @ '' state is '' @ status)))"

section \<open>reconcileMachine, patchMachine\<close>

definition reconcileMachine :: "'w environment \<Rightarrow> 'w machineScope \<Rightarrow> ('w sys, unit) go" where
  "reconcileMachine E ms =
     bind (gets machine) (\<lambda>m.
     bind (GetVMByName (ms_ovirtClient ms) (mc_Name m)) (\<lambda>(v, err).
     case err of
       Some e \<Rightarrow> fail (Wrapped ''error finding VM by name'' e)
     | None \<Rightarrow>
         bind (deref v) (\<lambda>v.
         bind (reconcileMachineProviderID (vm_id v)) (\<lambda>_.
         bind (reconcileMachineAnnotations (vm_status v) (vm_id v)) (\<lambda>_.
         bind (annotate ''error reconciling machine network''
                 (reconcileMachineNetwork (env_map_order E) ms (vm_status v) (vm_name v) (vm_id v))) (\<lambda>_.
         annotate ''error reconciling machine provider status''
           (reconcileMachineProviderStatus (env_codec E) (vm_status v) (vm_id v))))))))"

text \<open>
  \<open>Patch\<close> writes the server's answer into the Machine, whose status the first call
  discards; the copy taken before restores it for the second call.
\<close>

definition patchMachine :: "'w machineScope \<Rightarrow> ('w sys, unit) go" where
  "patchMachine ms =
     bind (gets machine) (\<lambda>m.
     let statusCopy = mc_Status m in
     bind (deref (ms_client ms)) (\<lambda>k.
     bind (api (PatchMachineCall (ms_original ms) m) (kc_PatchMachine k (ms_original ms) m)) (\<lambda>m1.
     bind (set_machine (\<lambda>_. m1\<lparr>mc_Status := statusCopy\<rparr>)) (\<lambda>_.
     bind (gets machine) (\<lambda>m2.
     bind (api (PatchMachineStatusCall (ms_original ms) m2)
             (kc_PatchMachineStatus k (ms_original ms) m2)) (\<lambda>m3.
     set_machine (\<lambda>_. m3)))))))"

end
