(* ===== verification/VM_Lifecycle.thy ===== *)
theory VM_Lifecycle
  imports Machine_Create
begin

text \<open>
  The life cycle \<open>create\<close> takes a VM through, as a state machine over the log of API calls
  after the lookup by name: prepare the request, create the VM, wait until it is down,
  configure it, start it, wait until it is up. A failed call aborts. The theory shows that
  \<open>create\<close> makes calls after the lookup only when the engine has no VM of the name, that these
  calls are a run of this machine, and derives the ordering facts from the machine alone.
\<close>

section \<open>The state machine\<close>

datatype vm_phase =
  Preparing | Requested | Configuring string | Started string | Running string | Aborted

fun preparing :: "api_call \<Rightarrow> bool" where
  "preparing (GetSecretCall ns n) = True"
| "preparing ListHostsCall = True"
| "preparing (GetTemplateByNameCall t) = True"
| "preparing (ListTemplateDiskAttachmentsCall t) = True"
| "preparing _ = False"

fun configuring :: "string \<Rightarrow> api_call \<Rightarrow> bool" where
  "configuring i (ListGraphicsConsolesCall v) = (v = i)"
| "configuring i (RemoveGraphicsConsoleCall v g) = True"
| "configuring i (ListDiskAttachmentsCall v) = (v = i)"
| "configuring i (GetDiskCall d) = True"
| "configuring i (UpdateDiskCall d n) = True"
| "configuring i (WaitForDiskOKCall d) = True"
| "configuring i (ListNICsCall v) = (v = i)"
| "configuring i (RemoveNICCall v n) = True"
| "configuring i (CreateNICCall v n pr) = (v = i)"
| "configuring i (AutoOptimizePinningCall v b) = (v = i \<and> b)"
| "configuring i (AddTagCall v t) = (v = i)"
| "configuring i (GetAffinityGroupCall c n) = True"
| "configuring i (AddVMToAffinityGroupCall c v g) = (v = i)"
| "configuring i _ = False"

inductive vm_step :: "vm_phase protocol" where
  prepare: "preparing c \<Longrightarrow> vm_step Preparing (c, True) Preparing"
| request: "vm_step Preparing (CreateVMCall cl t n ps, True) Requested"
| ready: "vm_step Requested (WaitForVMStatusCall i VMStatusDown, True) (Configuring i)"
| configure: "configuring i c \<Longrightarrow> vm_step (Configuring i) (c, True) (Configuring i)"
| start: "vm_step (Configuring i) (StartVMCall i, True) (Started i)"
| up: "vm_step (Started i) (WaitForVMStatusCall i VMStatusUp, True) (Running i)"
| abort: "vm_step q (c, True) q' \<Longrightarrow> vm_step q (c, False) Aborted"

inductive_simps vm_step_Preparing: "vm_step Preparing e q"
inductive_simps vm_step_Requested: "vm_step Requested e q"
inductive_simps vm_step_Configuring: "vm_step (Configuring i) e q"
inductive_simps vm_step_Started: "vm_step (Started i) e q"

lemma no_step_Aborted: "vm_step Aborted e q \<Longrightarrow> False"
proof -
  have "vm_step r e q \<Longrightarrow> r \<noteq> Aborted" for r by (induction rule: vm_step.induct) auto
  then show "vm_step Aborted e q \<Longrightarrow> False" by blast
qed

lemma no_step_Running: "vm_step (Running i) e q \<Longrightarrow> False"
proof -
  have "vm_step r e q \<Longrightarrow> r \<noteq> Running i" for r by (induction rule: vm_step.induct) auto
  then show "vm_step (Running i) e q \<Longrightarrow> False" by blast
qed

lemma accepts_Aborted: "accepts vm_step Aborted es q \<longleftrightarrow> es = [] \<and> q = Aborted"
  by (cases es) (auto simp: accepts_Cons_iff dest: no_step_Aborted)

lemma accepts_Running: "accepts vm_step (Running i) es q \<longleftrightarrow> es = [] \<and> q = Running i"
  by (cases es) (auto simp: accepts_Cons_iff dest: no_step_Running)

section \<open>Each block follows it\<close>

lemma follows_step:
  assumes "vm_step q (c, True) q1"
  shows "follows vm_step q (api c f) (\<lambda>_ q'. q' = q1) (\<lambda>_. True)"
  by (rule follows_api [where ?q1.0 = q1 and ?q2.0 = Aborted])
     (simp_all add: assms abort [OF assms])

lemma follows_prepare:
  "preparing c \<Longrightarrow> follows vm_step Preparing (api c f) (\<lambda>_ q'. q' = Preparing) (\<lambda>_. True)"
  by (rule follows_step) (auto intro: prepare)

lemma follows_configure:
  "configuring i c \<Longrightarrow>
     follows vm_step (Configuring i) (api c f) (\<lambda>_ q'. q' = Configuring i) (\<lambda>_. True)"
  by (rule follows_step) (auto intro: configure)

lemma follows_remove_graphics_consoles:
  "follows vm_step (Configuring i) (remove_graphics_consoles C p i)
     (\<lambda>_ q'. q' = Configuring i) (\<lambda>_. True)"
  unfolding remove_graphics_consoles_def
  by (intro follows_if follows_stay follows_annotate follows_configure follows_for_each follows_ret)
    simp_all

lemma follows_extend_os_disk:
  "follows vm_step (Configuring (vm_id v)) (extend_os_disk C p v)
     (\<lambda>_ q'. q' = Configuring (vm_id v)) (\<lambda>_. True)"
  unfolding extend_os_disk_def Let_def
  by (intro follows_if follows_case_option follows_stay follows_annotate follows_configure
      follows_deref follows_lift_res follows_ret) simp_all

lemma follows_reattach_nics:
  "follows vm_step (Configuring i) (reattach_nics C p i) (\<lambda>_ q'. q' = Configuring i) (\<lambda>_. True)"
  unfolding reattach_nics_def create_nic_def split_beta
  by (intro follows_if follows_stay follows_annotate follows_configure follows_for_each
      follows_deref follows_ret) simp_all

lemma follows_optimize_pinning:
  "follows vm_step (Configuring i) (optimize_pinning C p i) (\<lambda>_ q'. q' = Configuring i) (\<lambda>_. True)"
  unfolding optimize_pinning_def by (intro follows_if follows_configure follows_ret) simp_all

lemma follows_tag_vm:
  "follows vm_step (Configuring i) (tag_vm C i) (\<lambda>_ q'. q' = Configuring i) (\<lambda>_. True)"
  unfolding tag_vm_def Let_def by (intro follows_stay follows_gets follows_configure) simp_all

lemma follows_join_affinity_group:
  "follows vm_step (Configuring i) (join_affinity_group C p i a)
     (\<lambda>_ q'. q' = Configuring i) (\<lambda>_. True)"
  unfolding join_affinity_group_def by (intro follows_stay follows_configure) simp_all

lemma follows_start_vm:
  "follows vm_step (Configuring i) (start_vm C i) (\<lambda>_ q'. q' = Running i) (\<lambda>_. True)"
  unfolding start_vm_def
  by (rule follows_seq [where ?q1.0 = "Started i"], intro follows_annotate follows_step,
      auto intro: start, rule follows_seq [where ?q1.0 = "Running i"],
      intro follows_annotate follows_step, auto intro: up follows_ret)

lemma follows_configure_and_start:
  "follows vm_step (Configuring (vm_id v)) (configure_and_start C p v)
     (\<lambda>_ q'. q' \<in> {Configuring (vm_id v), Running (vm_id v)}) (\<lambda>_. True)"
  unfolding configure_and_start_def
proof (rule follows_seq [OF follows_remove_graphics_consoles],
       rule follows_seq [OF follows_extend_os_disk])
  fix fl
  show "follows vm_step (Configuring (vm_id v)) (case fl of Return err \<Rightarrow> lift_err err
     | Next \<Rightarrow> bind (reattach_nics C p (vm_id v)) (\<lambda>_. bind (optimize_pinning C p (vm_id v)) (\<lambda>_.
         bind (tag_vm C (vm_id v)) (\<lambda>_.
         bind (for_each (join_affinity_group C p (vm_id v)) (ps_AffinityGroupsNames p)) (\<lambda>_.
         start_vm C (vm_id v))))))
     (\<lambda>_ q'. q' \<in> {Configuring (vm_id v), Running (vm_id v)}) (\<lambda>_. True)"
  proof (cases fl)
    case Next
    show ?thesis
      unfolding Next flow.case
      by (intro follows_stay follows_reattach_nics follows_optimize_pinning follows_tag_vm
          follows_for_each follows_join_affinity_group follows_weaken [OF follows_start_vm]) auto
  next
    case (Return err)
    show ?thesis unfolding Return flow.case by (rule follows_lift_err) simp_all
  qed
qed

lemma follows_getIgnition:
  "follows vm_step Preparing (getIgnition ms) (\<lambda>_ q'. q' = Preparing) (\<lambda>_. True)"
  unfolding getIgnition_def
  by (intro follows_case_option follows_stay follows_gets follows_deref follows_annotate
      follows_prepare follows_fail follows_ret) simp_all

lemma follows_list_template_disks:
  "follows vm_step Preparing (list_template_disks C p tid) (\<lambda>_ q'. q' = Preparing) (\<lambda>_. True)"
  unfolding list_template_disks_def by (intro follows_annotate follows_prepare) simp

lemma follows_placement_hosts:
  "follows vm_step Preparing (placement_hosts C p) (\<lambda>_ q'. q' = Preparing) (\<lambda>_. True)"
  unfolding placement_hosts_def Let_def pp_WithHostIDs_def sum.case
  by (intro follows_if follows_stay follows_annotate follows_prepare follows_ret) simp_all

lemma follows_template_disks_params:
  "follows vm_step Preparing (template_disks_params C p tid o1) (\<lambda>_ q'. q' = Preparing) (\<lambda>_. True)"
  unfolding template_disks_params_def
  by (intro follows_if follows_stay [OF follows_list_template_disks] follows_stay follows_lift_res
      follows_ret) simp_all

lemma follows_storage_domain_params:
  "follows vm_step Preparing (storage_domain_params C p tid o1) (\<lambda>_ q'. q' = Preparing) (\<lambda>_. True)"
  unfolding storage_domain_params_def
  by (intro follows_if follows_stay [OF follows_list_template_disks] follows_ret)
     (auto split: list.split intro!: follows_crash follows_ret)

lemma follows_build_request:
  "follows vm_step Preparing (build_request C ignition name p) (\<lambda>_ q'. q' = Preparing) (\<lambda>_. True)"
  unfolding build_request_def
  by (intro follows_stay follows_placement_hosts follows_template_disks_params
      follows_storage_domain_params follows_lift_res follows_annotate follows_prepare follows_ret)
    simp_all

text \<open>The phases \<open>create\<close> can return successfully in, for a VM it created.\<close>

fun done_phase :: "vm_phase \<Rightarrow> bool" where
  "done_phase (Configuring i) = True"
| "done_phase (Running i) = True"
| "done_phase _ = False"

lemma follows_create_vm:
  "follows vm_step Preparing (create_vm ms p) (\<lambda>_. done_phase) (\<lambda>_. True)"
  unfolding create_vm_def split_beta
  by (rule follows_stay [OF follows_annotate [OF follows_getIgnition]],
      rule follows_stay [OF follows_gets], rule refl,
      rule follows_stay [OF follows_build_request],
      rule follows_seq [OF follows_annotate [OF follows_step [OF request]]],
      rule follows_seq [OF follows_annotate [OF follows_step [OF ready]]],
      rule follows_weaken [OF follows_configure_and_start]) auto

text \<open>The engine has no VM of the name: it said so, or it gave neither a VM nor an error.\<close>

definition vm_missing :: "vm option \<Rightarrow> gerr option \<Rightarrow> bool" where
  "vm_missing v err \<longleftrightarrow> v = None \<and> (case err of None \<Rightarrow> True | Some e \<Rightarrow> HasErrorCode e ENotFound = Val True)"

lemma create_cases:
  assumes "create ms s = (r, s')"
  obtains (missing) p err t where "GetVMByName (ms_ovirtClient ms) (mc_Name (machine s)) s = (Val (None, err), t)"
      and "vm_missing None err" and "ms_providerSpec ms = Some p" and "create_vm ms p t = (r, s')"
    | (ended) v err where "GetVMByName (ms_ovirtClient ms) (mc_Name (machine s)) s = (Val (v, err), s')"
      and "\<not> (vm_missing v err \<and> ms_providerSpec ms \<noteq> None)" and "r = Val () \<Longrightarrow> v \<noteq> None"
proof -
  obtain v err t where q: "GetVMByName (ms_ovirtClient ms) (mc_Name (machine s)) s = (Val (v, err), t)"
    by (cases "oc_GetVMByName (ms_ovirtClient ms) (mc_Name (machine s)) (world s)")
      (auto simp: GetVMByName_def split: prod.splits)
  show thesis
  proof (cases "ms_providerSpec ms")
    case None
    with assms q have "s' = t" "r \<noteq> Val ()" by (auto simp: create_def)
    with q None show thesis by (intro ended) auto
  next
    case (Some p)
    show thesis
    proof (cases err)
      case None
      with assms q Some show thesis
        by (cases v) (auto simp: create_def vm_missing_def intro: missing ended)
    next
      case (Some e)
      with assms q \<open>ms_providerSpec ms = Some p\<close> show thesis
        by (cases "HasErrorCode e ENotFound"; cases v)
          (auto simp: create_def vm_missing_def split: if_splits intro: missing ended)
    qed
  qed
qed

lemma GetVMByName_calls:
  "GetVMByName C n s = (Val (v, err), t) \<Longrightarrow> calls t = calls s @ [(GetVMByNameCall n, err = None)]"
  by (auto simp: GetVMByName_def split: prod.splits)

text \<open>The calls of \<open>create\<close>: the lookup, and then a run of the life cycle.\<close>

lemma create_calls:
  assumes "create ms s = (r, s')"
  obtains ok es q where "calls s' = calls s @ (GetVMByNameCall (mc_Name (machine s)), ok) # es"
    and "accepts vm_step Preparing es q"
  using assms
proof (cases rule: create_cases)
  case (missing p err t)
  from follows_create_vm missing(4) obtain new q where "calls s' = calls t @ new" "accepts vm_step Preparing new q"
    by (rule followsE)
  with GetVMByName_calls [OF missing(1)] that show thesis by simp
next
  case (ended v err)
  from GetVMByName_calls [OF ended(1)] show thesis by (intro that) (auto intro: accepts.intros)
qed

subsection \<open>When every VM has a bootable disk\<close>

definition always_bootable :: "'w ovirt_client \<Rightarrow> bool" where
  "always_bootable C \<longleftrightarrow>
     (\<forall>i das. answers (oc_ListDiskAttachments C i) das \<longrightarrow> bootable_attachment das \<noteq> None)"

lemma follows_extend_os_disk_Next:
  assumes "always_bootable C"
  shows "follows vm_step (Configuring (vm_id v)) (extend_os_disk C p v)
     (\<lambda>fl q'. fl = Next \<and> q' = Configuring (vm_id v)) (\<lambda>_. True)"
  unfolding extend_os_disk_def Let_def
proof (rule follows_stay [OF follows_deref], rule refl,
    rule follows_bind [OF follows_annotate [OF follows_api_answers
      [where ?q1.0 = "Configuring (vm_id v)" and ?q2.0 = Aborted and
        A = "\<lambda>das q'. bootable_attachment das \<noteq> None \<and> q' = Configuring (vm_id v)"]]],
    goal_cases)
  case (5 d das q')
  then obtain da where "bootable_attachment das = Some da" and q: "q' = Configuring (vm_id v)" by blast
  then show ?case
    by simp (intro follows_if follows_stay follows_annotate follows_configure follows_lift_res
        follows_ret; simp)
qed (use assms in \<open>auto simp: always_bootable_def intro: configure abort [OF configure]\<close>)

lemma follows_configure_and_start_running:
  assumes "always_bootable C"
  shows "follows vm_step (Configuring (vm_id v)) (configure_and_start C p v)
     (\<lambda>_ q'. q' = Running (vm_id v)) (\<lambda>_. True)"
  unfolding configure_and_start_def
  by (rule follows_stay [OF follows_remove_graphics_consoles],
      rule follows_bind [OF follows_extend_os_disk_Next [OF assms]], elim conjE, simp,
      intro follows_stay follows_reattach_nics follows_optimize_pinning follows_tag_vm
        follows_for_each follows_join_affinity_group follows_start_vm refl)

section \<open>What the life cycle allows\<close>

text \<open>Once past \<open>Preparing\<close> there is no way back, so a VM is requested at most once.\<close>

definition is_create_call :: "api_call \<times> bool \<Rightarrow> bool" where
  "is_create_call e \<longleftrightarrow> (case fst e of CreateVMCall cl t n ps \<Rightarrow> True | _ \<Rightarrow> False)"

lemma not_create_configuring: "configuring i c \<Longrightarrow> \<not> is_create_call (c, ok)"
  by (cases c) (simp_all add: is_create_call_def)

lemma not_create_preparing: "preparing c \<Longrightarrow> \<not> is_create_call (c, ok)"
  by (cases c) (simp_all add: is_create_call_def)

lemma step_past_Preparing:
  assumes "vm_step q e q'" and "q \<noteq> Preparing"
  shows "q' \<noteq> Preparing \<and> \<not> is_create_call e"
  using assms
  by (induction rule: vm_step.induct)
     (auto simp: not_create_configuring, auto simp: is_create_call_def)

lemma step_create: "vm_step q e q' \<Longrightarrow> is_create_call e \<Longrightarrow> q' \<noteq> Preparing"
  by (induction rule: vm_step.induct) (auto simp: not_create_preparing)

lemma no_create_past_Preparing:
  "accepts vm_step q es q' \<Longrightarrow> q \<noteq> Preparing \<Longrightarrow> filter is_create_call es = []"
  by (induction rule: accepts.induct) (auto dest: step_past_Preparing)

lemma at_most_one_create:
  "accepts vm_step q es q' \<Longrightarrow> length (filter is_create_call es) \<le> 1"
proof (induction rule: accepts.induct)
  case (accepts_Nil q)
  then show ?case by simp
next
  case (accepts_Cons q e q1 es q2)
  then show ?case
    using no_create_past_Preparing [OF accepts_Cons(2)] step_create [OF accepts_Cons(1)] by auto
qed

text \<open>Nothing follows a failed call.\<close>

lemma failed_step: "vm_step q (c, False) q' \<Longrightarrow> q' = Aborted"
  by (induction q "(c, False)" q' rule: vm_step.induct) auto

lemma nothing_after_failure:
  assumes "accepts vm_step q (xs @ (c, False) # ys) q'"
  shows "ys = [] \<and> q' = Aborted"
  using assms by (auto simp: accepts_append_iff accepts_Cons_iff accepts_Aborted dest!: failed_step)

text \<open>A VM is started only after it was created and seen down.\<close>

lemma stays_with_vm:
  assumes "accepts vm_step (Configuring j) es q"
  shows "q \<in> {Configuring j, Started j, Running j, Aborted}"
  using assms
  by (rule accepts_invariant [where P = "\<lambda>q. q \<in> {Configuring j, Started j, Running j, Aborted}"])
     (auto simp: vm_step_Configuring vm_step_Started dest: no_step_Aborted no_step_Running)

lemma reached_Configuring:
  assumes "accepts vm_step q es (Configuring i)" and "q = Preparing \<or> q = Requested"
  shows "(WaitForVMStatusCall i VMStatusDown, True) \<in> set es \<and>
    (q = Preparing \<longrightarrow> (\<exists>cl t n ps. (CreateVMCall cl t n ps, True) \<in> set es))"
  using assms
proof (induction q es "Configuring i" rule: accepts.induct)
  case (accepts_Cons q e q1 es)
  from accepts_Cons(4) show ?case
  proof
    assume q: "q = Preparing"
    with accepts_Cons(1) have "q1 = Preparing \<or> q1 = Requested \<or> q1 = Aborted"
      by (auto simp: vm_step_Preparing)
    moreover have "q1 \<noteq> Aborted" using accepts_Cons(2) by (auto simp: accepts_Aborted)
    moreover have "\<exists>cl t n ps. e = (CreateVMCall cl t n ps, True)" if "q1 = Requested"
      using accepts_Cons(1) q that by (auto simp: vm_step_Preparing)
    ultimately show ?thesis using accepts_Cons(3) q by auto
  next
    assume q: "q = Requested"
    with accepts_Cons(1) have "(\<exists>j. q1 = Configuring j \<and> e = (WaitForVMStatusCall j VMStatusDown, True))
        \<or> q1 = Aborted"
      by (auto simp: vm_step_Requested)
    moreover have "q1 \<noteq> Aborted" using accepts_Cons(2) by (auto simp: accepts_Aborted)
    ultimately obtain j where j: "q1 = Configuring j" "e = (WaitForVMStatusCall j VMStatusDown, True)"
      by blast
    with accepts_Cons(2) q stays_with_vm [of j es] show ?thesis by auto
  qed
qed auto

lemma started_when_ready:
  assumes "accepts vm_step Preparing (xs @ (StartVMCall i, ok) # ys) q'"
  shows "(WaitForVMStatusCall i VMStatusDown, True) \<in> set xs \<and>
    (\<exists>cl t n ps. (CreateVMCall cl t n ps, True) \<in> set xs)"
proof -
  from assms obtain q1 q2 where 1: "accepts vm_step Preparing xs q1"
    and 2: "vm_step q1 (StartVMCall i, ok) q2"
    by (auto simp: accepts_append_iff accepts_Cons_iff)
  have "vm_step q e q' \<Longrightarrow> e = (StartVMCall i, ok) \<Longrightarrow> q = Configuring i" for q e q'
    by (induction arbitrary: ok rule: vm_step.induct) auto
  with 2 have "q1 = Configuring i" by blast
  with reached_Configuring [of Preparing xs i] 1 show ?thesis by simp
qed

lemma step_to_Running: "vm_step q e (Running i) \<Longrightarrow> e = (WaitForVMStatusCall i VMStatusUp, True)"
  by (cases rule: vm_step.cases) auto

text \<open>A configured VM that runs was started and seen up last, and is the one configured.\<close>

lemma started_and_seen_up:
  assumes "accepts vm_step q es (Running j)" and "q = Configuring i \<or> q = Started i"
  shows "j = i \<and> (q = Started i \<longrightarrow> es = [(WaitForVMStatusCall i VMStatusUp, True)]) \<and>
    (q = Configuring i \<longrightarrow> (\<exists>mid. es = mid @ [(StartVMCall i, True), (WaitForVMStatusCall i VMStatusUp, True)]))"
  using assms
proof (induction q es "Running j" rule: accepts.induct)
  case (accepts_Cons q e q1 es)
  from accepts_Cons(4) show ?case
  proof
    assume q: "q = Started i"
    with accepts_Cons(1,2) show ?thesis
      by (auto simp: vm_step_Started accepts_Aborted accepts_Running)
  next
    assume q: "q = Configuring i"
    with accepts_Cons(1,2) have "q1 = Configuring i \<or> q1 = Started i \<and> e = (StartVMCall i, True)"
      by (auto simp: vm_step_Configuring accepts_Aborted)
    with accepts_Cons(3) q show ?thesis by (auto intro: exI [of _ "[]"] exI [of _ "e # _"])
  qed
qed simp

section \<open>A concrete run\<close>

definition demo_scope :: "OvirtMachineProviderSpec \<Rightarrow> demo_world machineScope" where
  "demo_scope p = \<lparr>ms_ovirtClient = demo_engine, ms_client = Some demo_k8s,
     ms_original = demo_machine, ms_providerSpec = Some p\<rparr>"

lemmas create_defs =
  create_def create_vm_def getIgnition_def build_request_defs configure_and_start_def
  remove_graphics_consoles_def extend_os_disk_def bootable_attachment_def reattach_nics_def
  create_nic_def optimize_pinning_def tag_vm_def join_affinity_group_def start_vm_def

lemmas create_eval =
  builder_eval GetVMByName_def newError_def userDataSecretKey_def new_disk_size_def
  bytesPerGB_def WithProvisionedSize_def MinDiskSizeOVirt_def enumerate_eq_zip

lemma demo_create_vm_run:
  "\<exists>params w. create_vm (demo_scope demo_spec) demo_spec (demo_sys None None) =
     (Val (), (demo_sys None None)\<lparr>world := w, calls :=
       [(GetSecretCall ''openshift-machine-api'' ''user-data'', True),
        (GetTemplateByNameCall ''rhcos'', True),
        (CreateVMCall ''c1'' ''t1'' ''m1'' params, True),
        (WaitForVMStatusCall ''id1'' VMStatusDown, True),
        (ListDiskAttachmentsCall ''id1'', True), (GetDiskCall ''d1'', True),
        (UpdateDiskCall ''d1'' 128849018880, True), (WaitForDiskOKCall ''d1'', True),
        (ListNICsCall ''id1'', True), (RemoveNICCall ''id1'' ''n0'', True),
        (CreateNICCall ''id1'' (nic_name 0) ''p1'', True),
        (CreateNICCall ''id1'' (nic_name 1) ''p2'', True),
        (AddTagCall ''id1'' ''ocp'', True), (StartVMCall ''id1'', True),
        (WaitForVMStatusCall ''id1'' VMStatusUp, True)]\<rparr>)"
  by (simp add: create_defs create_eval demo_defs demo_scope_def map_index_def clusterLabel_def)

lemma demo_create_calls:
  "\<exists>params. calls (snd (create (demo_scope demo_spec) (demo_sys None None))) =
       calls (demo_sys None None) @ [(GetVMByNameCall ''m1'', False),
        (GetSecretCall ''openshift-machine-api'' ''user-data'', True),
        (GetTemplateByNameCall ''rhcos'', True),
        (CreateVMCall ''c1'' ''t1'' ''m1'' params, True),
        (WaitForVMStatusCall ''id1'' VMStatusDown, True),
        (ListDiskAttachmentsCall ''id1'', True), (GetDiskCall ''d1'', True),
        (UpdateDiskCall ''d1'' 128849018880, True), (WaitForDiskOKCall ''d1'', True),
        (ListNICsCall ''id1'', True), (RemoveNICCall ''id1'' ''n0'', True),
        (CreateNICCall ''id1'' (nic_name 0) ''p1'', True),
        (CreateNICCall ''id1'' (nic_name 1) ''p2'', True),
        (AddTagCall ''id1'' ''ocp'', True)] @ (StartVMCall ''id1'', True) #
        [(WaitForVMStatusCall ''id1'' VMStatusUp, True)]"
  by (simp add: create_defs create_eval demo_defs demo_scope_def map_index_def clusterLabel_def)

lemma demo_always_bootable: "always_bootable demo_engine"
  by (auto simp: always_bootable_def answers_def demo_engine_def bootable_attachment_def)

section \<open>Properties\<close>

text \<open>C1: \<open>create\<close> first looks the VM up by the Machine's name. It makes further calls only when
  that lookup told that the engine has no such VM, with a not-found error or with neither a
  VM nor an error, and the spec is there; after any other answer, a failed connection among
  them, it ends without another call. The further calls, whatever the services answer, are
  a sequence the VM life cycle accepts: prepare, create, wait until down, configure, start,
  wait until up, with no call after a failed one; and a run that returns without error ends
  with the VM configured or running, never in the middle of a request.\<close>

theorem create_follows_lifecycle:
  "\<exists>v err t. GetVMByName (ms_ovirtClient ms) (mc_Name (machine s)) s = (Val (v, err), t) \<and>
     (if vm_missing v err \<and> ms_providerSpec ms \<noteq> None
      then \<exists>new q. calls (snd (create ms s)) = calls t @ new \<and> accepts vm_step Preparing new q \<and>
        (case fst (create ms s) of Val u \<Rightarrow> done_phase q | _ \<Rightarrow> True)
      else snd (create ms s) = t \<and> (case fst (create ms s) of Val u \<Rightarrow> v \<noteq> None | _ \<Rightarrow> True))"
proof -
  obtain r s' where run: "create ms s = (r, s')" by fastforce
  then show ?thesis
  proof (cases rule: create_cases)
    case (missing p err t)
    from follows_create_vm missing(4) obtain new q
      where "calls s' = calls t @ new" "accepts vm_step Preparing new q" "\<forall>x. r = Val x \<longrightarrow> done_phase q"
      by (rule followsE)
    with run missing show ?thesis by (auto split: res.split)
  next
    case (ended v err)
    with run show ?thesis by (auto split: res.split)
  qed
qed

text \<open>One run of \<open>create\<close> asks the engine for at most one VM.\<close>

lemma create_requests_one_vm:
  "\<exists>new. calls (snd (create ms s)) = calls s @ new \<and> length (filter is_create_call new) \<le> 1"
proof -
  obtain r s' where run: "create ms s = (r, s')" by fastforce
  then obtain ok es q where "calls s' = calls s @ (GetVMByNameCall (mc_Name (machine s)), ok) # es"
    "accepts vm_step Preparing es q" by (rule create_calls)
  with run at_most_one_create [of Preparing es q] show ?thesis by (auto simp: is_create_call_def)
qed

text \<open>A VM is started only after this run created it and saw it down.\<close>

lemma create_starts_when_ready:
  assumes "calls (snd (create ms s)) = calls s @ xs @ (StartVMCall i, ok) # ys"
  shows "(WaitForVMStatusCall i VMStatusDown, True) \<in> set xs \<and>
     (\<exists>cl t n ps. (CreateVMCall cl t n ps, True) \<in> set xs)"
proof -
  obtain r s' where run: "create ms s = (r, s')" by fastforce
  then obtain ok' es q where e: "calls s' = calls s @ (GetVMByNameCall (mc_Name (machine s)), ok') # es"
    and a: "accepts vm_step Preparing es q" by (rule create_calls)
  from assms run e obtain xs' where "xs = (GetVMByNameCall (mc_Name (machine s)), ok') # xs'"
    "es = xs' @ (StartVMCall i, ok) # ys" by (cases xs) auto
  with started_when_ready a show ?thesis by fastforce
qed

lemma annotated_ValE:
  assumes "bind (annotate msg m) k s = (Val y, s'')"
  obtains x s' where "m s = (Val x, s')" and "k x s' = (Val y, s'')"
  using bind_ValE [OF assms] by auto

lemma gets_bind: "bind (gets f) k s = k (f s) s"
  by (simp add: bind_def)

lemma bind_pair_ValE:
  assumes "bind m (\<lambda>(a, b). k a b) s = (Val y, s'')"
  obtains a b s' where "m s = (Val (a, b), s')" and "k a b s' = (Val y, s'')"
  using bind_ValE [OF assms] by auto

text \<open>C28: if every VM of the engine has a bootable disk, a creation that returns without error
  left the VM it created up: the engine answered \<open>CreateVM\<close> with a VM, this VM was seen down,
  then started, and the last call saw the same VM up.\<close>

theorem create_vm_leaves_it_up:
  fixes ms :: "'w machineScope" and s s' :: "'w sys"
  assumes "always_bootable (ms_ovirtClient ms)" and "create_vm ms p s = (Val (), s')"
  shows "\<exists>pre tid name params v t u mid. calls t = calls s @ pre \<and>
     api (CreateVMCall (ps_ClusterId p) tid name params)
       (oc_CreateVM (ms_ovirtClient ms) (ps_ClusterId p) tid name params) t = (Val v, u) \<and>
     calls s' = calls u @ (WaitForVMStatusCall (vm_id v) VMStatusDown, True) # mid @
       [(StartVMCall (vm_id v), True), (WaitForVMStatusCall (vm_id v) VMStatusUp, True)]"
proof -
  let ?C = "ms_ovirtClient ms"
  let ?wait = "\<lambda>v. bind (annotate ''error creating oVirt VM''
      (api (WaitForVMStatusCall (vm_id v) VMStatusDown) (oc_WaitForVMStatus ?C (vm_id v) VMStatusDown)))
      (\<lambda>_. configure_and_start ?C p v)"
  let ?request = "\<lambda>m tid params. bind (annotate ''error creating Ovirt instance''
      (api (CreateVMCall (ps_ClusterId p) tid (mc_Name m) params)
         (oc_CreateVM ?C (ps_ClusterId p) tid (mc_Name m) params))) ?wait"
  from assms(2) [unfolded create_vm_def] obtain ign s1 where 1: "getIgnition ms s = (Val ign, s1)"
    and "bind (gets machine) (\<lambda>m. bind (build_request ?C ign (mc_Name m) p)
      (\<lambda>(tid, params). ?request m tid params)) s1 = (Val (), s')"
    by (rule annotated_ValE)
  then have "bind (build_request ?C ign (mc_Name (machine s1)) p)
      (\<lambda>(tid, params). ?request (machine s1) tid params) s1 = (Val (), s')"
    by (simp only: gets_bind)
  then obtain tid params s2 where 2: "build_request ?C ign (mc_Name (machine s1)) p s1 = (Val (tid, params), s2)"
    and "?request (machine s1) tid params s2 = (Val (), s')"
    by (rule bind_pair_ValE)
  from this(2) obtain v u where 3: "api (CreateVMCall (ps_ClusterId p) tid (mc_Name (machine s1)) params)
        (oc_CreateVM ?C (ps_ClusterId p) tid (mc_Name (machine s1)) params) s2 = (Val v, u)"
    and "?wait v u = (Val (), s')"
    by (rule annotated_ValE)
  from this(2) obtain w s3 where
    4: "api (WaitForVMStatusCall (vm_id v) VMStatusDown) (oc_WaitForVMStatus ?C (vm_id v) VMStatusDown) u = (Val w, s3)"
    and 5: "configure_and_start ?C p v s3 = (Val (), s')"
    by (rule annotated_ValE)
  from follows_getIgnition 1 obtain pre1 q1 where "calls s1 = calls s @ pre1" "accepts vm_step Preparing pre1 q1"
    by (rule followsE)
  moreover from follows_build_request 2 obtain pre2 q2 where "calls s2 = calls s1 @ pre2" "accepts vm_step Preparing pre2 q2"
    by (rule followsE)
  ultimately have pre: "calls s2 = calls s @ pre1 @ pre2" by simp
  have down: "calls s3 = calls u @ [(WaitForVMStatusCall (vm_id v) VMStatusDown, True)]"
    using 4 by (auto simp: api_def split: prod.splits sum.splits)
  from follows_configure_and_start_running [OF assms(1)] 5 obtain es q where "calls s' = calls s3 @ es"
    "accepts vm_step (Configuring (vm_id v)) es q" "\<forall>x. Val () = Val x \<longrightarrow> q = Running (vm_id v)"
    by (rule followsE)
  then have "calls s' = calls s3 @ es" "accepts vm_step (Configuring (vm_id v)) es (Running (vm_id v))"
    by simp_all
  moreover from started_and_seen_up [OF this(2), of "vm_id v"] obtain mid where
    "es = mid @ [(StartVMCall (vm_id v), True), (WaitForVMStatusCall (vm_id v) VMStatusUp, True)]" by auto
  ultimately have "calls s' = calls u @ (WaitForVMStatusCall (vm_id v) VMStatusDown, True) # mid @
       [(StartVMCall (vm_id v), True), (WaitForVMStatusCall (vm_id v) VMStatusUp, True)]" using down by simp
  with pre 3 show ?thesis by blast
qed

theorem create_vm_leaves_it_up_witness:
  "\<exists>s'. create_vm (demo_scope demo_spec) demo_spec (demo_sys None None) = (Val (), s') \<and>
     (\<exists>pre i. calls s' = pre @ [(StartVMCall i, True), (WaitForVMStatusCall i VMStatusUp, True)])"
proof -
  obtain s' where run: "create_vm (demo_scope demo_spec) demo_spec (demo_sys None None) = (Val (), s')"
    using demo_create_vm_run by blast
  have "always_bootable (ms_ovirtClient (demo_scope demo_spec))"
    by (simp add: demo_scope_def demo_always_bootable)
  from create_vm_leaves_it_up [OF this run] obtain u :: "demo_world sys" and v :: vm and mid where
    "calls s' = calls u @ (WaitForVMStatusCall (vm_id v) VMStatusDown, True) # mid @
      [(StartVMCall (vm_id v), True), (WaitForVMStatusCall (vm_id v) VMStatusUp, True)]" by blast
  then have "calls s' = (calls u @ (WaitForVMStatusCall (vm_id v) VMStatusDown, True) # mid) @
      [(StartVMCall (vm_id v), True), (WaitForVMStatusCall (vm_id v) VMStatusUp, True)]" by simp
  with run show ?thesis by blast
qed

end
