(* ===== verification/Create_Correct.thy ===== *)
theory Create_Correct
  imports VM_Lifecycle
begin

text \<open>
  What \<open>create\<close> does on each of its paths: the VM that exists already, the lookup that
  fails, the VM without a bootable disk, the network cards, the disk extension, and the
  specs for which it cannot panic.
\<close>

section \<open>Loops that succeed\<close>

text \<open>A loop whose body logs one successful call per element logs them in order.\<close>

lemma for_each_calls:
  assumes "for_each f xs s = (Val u, s')"
    and "\<And>x s u s'. x \<in> set xs \<Longrightarrow> f x s = (Val u, s') \<Longrightarrow> calls s' = calls s @ [g x]"
  shows "calls s' = calls s @ map g xs"
  using assms
proof (induction xs arbitrary: s)
  case Nil
  then show ?case by simp
next
  case (Cons x xs)
  from Cons.prems(1) obtain u1 s1 where 1: "f x s = (Val u1, s1)" and 2: "for_each f xs s1 = (Val u, s')"
    by (auto elim!: bind_ValE)
  from Cons.prems(2) 1 have "calls s1 = calls s @ [g x]" by simp
  moreover from Cons.IH [OF 2] Cons.prems(2) have "calls s' = calls s1 @ map g xs" by simp
  ultimately show ?case by simp
qed

section \<open>The lookup\<close>

lemma GetVMByName_run:
  assumes "oc_GetVMByName C n (world s) = ((v, err), w)"
  shows "GetVMByName C n s = (Val (v, err), s\<lparr>world := w,
           calls := calls s @ [(GetVMByNameCall n, err = None)]\<rparr>)"
  using assms by (simp add: GetVMByName_def)

lemma create_existing:
  assumes "oc_GetVMByName (ms_ovirtClient ms) (mc_Name (machine s)) (world s) = ((Some v, None), w)"
    and "ms_providerSpec ms = Some p"
  shows "create ms s = (Val (), s\<lparr>world := w,
           calls := calls s @ [(GetVMByNameCall (mc_Name (machine s)), True)]\<rparr>)"
  by (simp add: create_def GetVMByName_run [OF assms(1)] assms(2))

lemma create_lookup_failed:
  assumes "oc_GetVMByName (ms_ovirtClient ms) (mc_Name (machine s)) (world s) = ((v, Some e), w)"
    and "ms_providerSpec ms = Some p" and "HasErrorCode e ENotFound = Val False"
  shows "create ms s = (Fail (Wrapped ''error finding VM by name'' e), s\<lparr>world := w,
           calls := calls s @ [(GetVMByNameCall (mc_Name (machine s)), False)]\<rparr>)"
  by (simp add: create_def GetVMByName_run [OF assms(1)] assms(2,3))

lemma create_not_found:
  assumes "oc_GetVMByName (ms_ovirtClient ms) (mc_Name (machine s)) (world s) = ((None, Some e), w)"
    and "ms_providerSpec ms = Some p" and "HasErrorCode e ENotFound = Val True"
  shows "create ms s = create_vm ms p (s\<lparr>world := w,
           calls := calls s @ [(GetVMByNameCall (mc_Name (machine s)), False)]\<rparr>)"
  by (simp add: create_def GetVMByName_run [OF assms(1)] assms(2,3))

section \<open>The boot disk\<close>

lemma bootable_attachment_foldl:
  "foldl (\<lambda>b d. if da_bootable d then Some d else b) b0 das =
     (case filter da_bootable das of [] \<Rightarrow> b0 | x # xs \<Rightarrow> Some (last (x # xs)))"
  by (induction das arbitrary: b0) (auto split: list.splits)

lemma bootable_attachment_eq:
  "bootable_attachment das =
     (if \<exists>d \<in> set das. da_bootable d then Some (last (filter da_bootable das)) else None)"
  by (auto simp: bootable_attachment_def bootable_attachment_foldl filter_empty_conv split: list.splits)

lemma bootable_attachment_None_iff:
  "bootable_attachment das = None \<longleftrightarrow> (\<forall>d \<in> set das. \<not> da_bootable d)"
  by (auto simp: bootable_attachment_eq)

text \<open>A requested size is a multiple of one GB, so a positive one is never below the minimum.\<close>

lemma unat_new_disk_size: "unat (new_disk_size d) = (unat (disk_SizeGB d) * 2 ^ 30) mod 2 ^ 64"
  by (simp add: new_disk_size_def bytesPerGB_def unat_word_ariths)

lemma new_disk_size_min:
  assumes "new_disk_size d > x" shows "\<not> new_disk_size d < MinDiskSizeOVirt"
proof -
  have "(unat (disk_SizeGB d) * 2 ^ 30) mod (2 ^ 64 :: nat) = 2 ^ 30 * (unat (disk_SizeGB d) mod 2 ^ 34)"
    using mod_mult_mult1 [of "2 ^ 30 :: nat" "unat (disk_SizeGB d)" "2 ^ 34"] by (simp add: mult.commute)
  then have "2 ^ 30 dvd unat (new_disk_size d)" unfolding unat_new_disk_size by simp
  moreover have "unat (new_disk_size d) > 0" using assms by (simp add: word_less_nat_alt)
  ultimately have "unat (new_disk_size d) \<ge> 2 ^ 30" by (rule dvd_imp_le)
  then show ?thesis by (simp add: word_less_nat_alt MinDiskSizeOVirt_def)
qed

lemma new_disk_size_exact:
  assumes "0 \<le> sint (disk_SizeGB d)" and "sint (disk_SizeGB d) < 2 ^ 33"
  shows "uint (new_disk_size d) = sint (disk_SizeGB d) * 2 ^ 30"
proof -
  from assms have "uint (disk_SizeGB d) = sint (disk_SizeGB d)"
    by (simp add: uint_sint take_bit_eq_mod)
  with assms show ?thesis
    by (simp add: new_disk_size_def bytesPerGB_def uint_word_ariths)
qed

lemma extend_os_disk_no_bootable:
  assumes "ps_OSDisk p = Some d"
    and "oc_ListDiskAttachments C (vm_id v) (world s) = (Inr das, w)"
    and "\<forall>da \<in> set das. \<not> da_bootable da"
  shows "extend_os_disk C p v s = (Val (Return None), s\<lparr>world := w,
           calls := calls s @ [(ListDiskAttachmentsCall (vm_id v), True)]\<rparr>)"
  using assms
  by (simp add: extend_os_disk_def Let_def bootable_attachment_None_iff [THEN iffD2])

lemma configure_no_bootable:
  assumes "ps_OSDisk p = Some d" and "ps_VMType p \<noteq> VMTypeHighPerformance"
    and "oc_ListDiskAttachments C (vm_id v) (world s) = (Inr das, w)"
    and "\<forall>da \<in> set das. \<not> da_bootable da"
  shows "configure_and_start C p v s = (Val (), s\<lparr>world := w,
           calls := calls s @ [(ListDiskAttachmentsCall (vm_id v), True)]\<rparr>)"
  by (simp add: configure_and_start_def remove_graphics_consoles_def assms(2)
      extend_os_disk_no_bootable [OF assms(1,3,4)])

text \<open>A disk is only updated to the spec's size, and only when it was smaller.\<close>

definition grows_disk :: "'w ovirt_client \<Rightarrow> OvirtMachineProviderSpec \<Rightarrow> api_call \<Rightarrow> bool" where
  "grows_disk C p c = (case c of
      UpdateDiskCall i n \<Rightarrow> \<exists>d da dsk. ps_OSDisk p = Some d \<and> n = new_disk_size d \<and>
         answers (oc_GetDisk C da) dsk \<and> dsk_id dsk = i \<and> dsk_provisionedSize dsk < n
    | _ \<Rightarrow> True)"

lemma emits_bind_answers:
  "A c \<Longrightarrow> (\<And>x. answers f x \<Longrightarrow> emits A (k x)) \<Longrightarrow> emits A (bind (api c f) k)"
  by (rule emits_bind_dep [OF emits_api]) (auto dest: api_answers)

lemma extend_os_disk_grows: "emits (grows_disk C p) (extend_os_disk C p v)"
proof (cases "ps_OSDisk p")
  case None
  then show ?thesis by (simp add: extend_os_disk_def emits_crash)
next
  case (Some d)
  show ?thesis
    unfolding extend_os_disk_def Some deref_simps bind_ret Let_def
  proof (rule emits_bind [OF emits_annotate [OF emits_api]], simp add: grows_disk_def)
    fix das
    show "emits (grows_disk C p) (case bootable_attachment das of
       None \<Rightarrow> ret (Return (Wrap None (''VM '' @ vm_name v @ ''('' @ vm_id v @
                  '') doesn'' @ [CHR 0x27] @ ''t have a bootable disk'')))
     | Some da \<Rightarrow>
         bind (api (GetDiskCall (da_diskID da)) (oc_GetDisk C (da_diskID da))) (\<lambda>dsk.
         if new_disk_size d > dsk_provisionedSize dsk then
           bind (lift_res (must (WithProvisionedSize (new_disk_size d)))) (\<lambda>sz.
           bind (annotate (''failed to extend disk '' @ dsk_id dsk)
                   (api (UpdateDiskCall (dsk_id dsk) sz) (oc_UpdateDisk C (dsk_id dsk) sz))) (\<lambda>upd.
           bind (api (WaitForDiskOKCall (dsk_id upd)) (oc_WaitForDiskOK C (dsk_id upd))) (\<lambda>_.
           ret Next)))
         else ret Next))"
    proof (cases "bootable_attachment das")
      case (Some da)
      show ?thesis
        unfolding Some option.case
        by (rule emits_bind_answers, simp add: grows_disk_def)
           (use \<open>ps_OSDisk p = Some d\<close> in \<open>auto simp: WithProvisionedSize_def new_disk_size_min
              grows_disk_def intro!: emits_intros\<close>, blast)
    qed (simp add: emits_ret)
  qed
qed

lemma no_crash_extend_os_disk:
  assumes "ps_OSDisk p \<noteq> None" shows "no_crash (extend_os_disk C p v)"
proof -
  from assms obtain d where "ps_OSDisk p = Some d" by blast
  then show ?thesis
    by (auto simp: extend_os_disk_def Let_def WithProvisionedSize_def new_disk_size_min
        split: option.split intro!: no_crash_intros)
qed

section \<open>The network cards\<close>

lemma create_nic_calls:
  assumes "create_nic C i (k, Some n) s = (Val u, s')"
  shows "calls s' = calls s @ [(CreateNICCall i (nic_name k) (ni_VNICProfileID n), True)]"
  using assms by (auto simp: create_nic_def elim!: bind_ValE dest: api_ValD)

lemma create_nic_Some: "create_nic C i (k, ni) s = (Val u, s') \<Longrightarrow> \<exists>n. ni = Some n"
  by (cases ni) (simp_all add: create_nic_def)

lemma for_each_all_some:
  "for_each (create_nic C i) ks s = (Val u, s') \<Longrightarrow> (k, ni) \<in> set ks \<Longrightarrow> \<exists>n. ni = Some n"
  by (induction ks arbitrary: s) (auto elim!: bind_ValE dest: create_nic_Some)

text \<open>The specified cards with their positions.\<close>

definition wanted_nics :: "OvirtMachineProviderSpec \<Rightarrow> (nat \<times> NetworkInterface) list" where
  "wanted_nics p = map (\<lambda>(k, ni). (k, the ni)) (List.enumerate 0 (ps_NetworkInterfaces p))"

lemma reattach_nics_calls:
  assumes "reattach_nics C p i s = (Val u, s')" and "ps_NetworkInterfaces p \<noteq> []"
  shows "\<exists>nics. answers (oc_ListNICs C i) nics \<and>
     calls s' = calls s @ [(ListNICsCall i, True)]
       @ map (\<lambda>n. (RemoveNICCall (nic_vmID n) (nic_id n), True)) nics
       @ map (\<lambda>(k, n). (CreateNICCall i (nic_name k) (ni_VNICProfileID n), True)) (wanted_nics p)"
proof -
  let ?rm = "\<lambda>n. annotate (''failed to remove NIC '' @ nic_id n)
                (api (RemoveNICCall (nic_vmID n) (nic_id n)) (oc_RemoveNIC C (nic_vmID n) (nic_id n)))"
  let ?ks = "List.enumerate 0 (ps_NetworkInterfaces p)"
  from assms obtain nics s1 u1 s2 where
    1: "api (ListNICsCall i) (oc_ListNICs C i) s = (Val nics, s1)" and
    2: "for_each ?rm nics s1 = (Val u1, s2)" and
    3: "for_each (create_nic C i) ?ks s2 = (Val u, s')"
    by (auto simp: reattach_nics_def elim!: bind_ValE)
  have "calls s2 = calls s1 @ map (\<lambda>n. (RemoveNICCall (nic_vmID n) (nic_id n), True)) nics"
    by (rule for_each_calls [OF 2]) (auto dest: api_ValD)
  moreover have "calls s' = calls s2 @
      map (\<lambda>(k, ni). (CreateNICCall i (nic_name k) (ni_VNICProfileID (the ni)), True)) ?ks"
    by (rule for_each_calls [OF 3])
       (auto dest!: for_each_all_some [OF 3] create_nic_calls)
  ultimately show ?thesis
    using api_ValD [OF 1] api_answers [OF 1]
    by (intro exI [of _ nics]) (simp add: wanted_nics_def split_beta comp_def)
qed

lemma nic_names_distinct: "distinct (map nic_name [0..<n])"
  by (simp add: distinct_map inj_on_def nic_name_def)

section \<open>No panic\<close>

text \<open>
  What \<open>create\<close> relies on: the lookup reports the client's own error type, the template
  has a disk, the Kubernetes client is set, no network interface entry is null. \<open>createable\<close>
  collects the conditions on the scope.
\<close>

definition lookup_errors_known :: "'w ovirt_client \<Rightarrow> bool" where
  "lookup_errors_known C \<longleftrightarrow>
     (\<forall>n w v e w'. oc_GetVMByName C n w = ((v, Some e), w') \<longrightarrow> as_engine e \<noteq> None)"

definition createable :: "'w machineScope \<Rightarrow> bool" where
  "createable ms \<longleftrightarrow> ms_client ms \<noteq> None \<and> (\<exists>p. ms_providerSpec ms = Some p \<and>
     valid_required p \<and> buildable p \<and> None \<notin> set (ps_NetworkInterfaces p) \<and>
     (ps_StorageDomainId p = [] \<or> template_has_disks (ms_ovirtClient ms)))"

lemma HasErrorCode_known: "as_engine e \<noteq> None \<Longrightarrow> \<exists>b. HasErrorCode e c = Val b"
  by (auto simp: HasErrorCode_def)

lemma no_crash_deref [no_crash_intros]: "p \<noteq> None \<Longrightarrow> no_crash (deref p)"
  by (auto intro: no_crash_intros)

lemma no_crash_getIgnition:
  "ms_client ms \<noteq> None \<Longrightarrow> no_crash (getIgnition ms)"
  by (auto simp: getIgnition_def split: option.split intro!: no_crash_intros)

lemma no_crash_create_nic: "ni \<noteq> None \<Longrightarrow> no_crash (create_nic C i (k, ni))"
  by (auto simp: create_nic_def intro!: no_crash_intros)

lemma in_set_enumerate: "(k, x) \<in> set (List.enumerate n xs) \<Longrightarrow> x \<in> set xs"
  by (auto simp: enumerate_eq_zip dest: set_zip_rightD)

lemma no_crash_enumerated_nic:
  "(k, ni) \<in> set (List.enumerate n nis) \<Longrightarrow> None \<notin> set nis \<Longrightarrow> no_crash (create_nic C i (k, ni))"
  by (rule no_crash_create_nic) (metis in_set_enumerate)

lemma no_crash_reattach_nics:
  assumes "None \<notin> set (ps_NetworkInterfaces p)" shows "no_crash (reattach_nics C p i)"
  unfolding reattach_nics_def
  using assms
  by (auto intro!: no_crash_intros intro: no_crash_enumerated_nic)

lemma no_crash_configure_and_start:
  assumes "ps_OSDisk p \<noteq> None" and "None \<notin> set (ps_NetworkInterfaces p)"
  shows "no_crash (configure_and_start C p v)"
  unfolding configure_and_start_def remove_graphics_consoles_def optimize_pinning_def tag_vm_def
    join_affinity_group_def start_vm_def Let_def
  using assms
  by (auto intro!: no_crash_intros no_crash_extend_os_disk no_crash_reattach_nics split: flow.split)

lemma no_crash_create_vm:
  assumes "createable ms" and "ms_providerSpec ms = Some p" shows "no_crash (create_vm ms p)"
  unfolding create_vm_def split_beta
  using assms
  by (intro no_crash_intros no_crash_getIgnition no_crash_build_request no_crash_configure_and_start)
     (auto simp: createable_def valid_required_def)

lemma no_crash_create:
  assumes "createable ms" and "lookup_errors_known (ms_ovirtClient ms)"
  shows "no_crash (create ms)"
  unfolding no_crash_def
proof (intro allI notI)
  fix s q s'
  assume run: "create ms s = (Crash q, s')"
  from assms(1) obtain p where p: "ms_providerSpec ms = Some p" by (auto simp: createable_def)
  obtain v err w where g: "oc_GetVMByName (ms_ovirtClient ms) (mc_Name (machine s)) (world s)
      = ((v, err), w)" by (metis prod.exhaust)
  show False
  proof (cases err)
    case None
    with run p g show False
      using no_crashD [OF no_crash_create_vm [OF assms(1) p]]
      by (auto simp: create_def GetVMByName_run split: if_splits)
  next
    case (Some e)
    with g assms(2) have "as_engine e \<noteq> None" unfolding lookup_errors_known_def by blast
    then obtain b where "HasErrorCode e ENotFound = Val b" using HasErrorCode_known by blast
    with run p g Some show False
      using no_crashD [OF no_crash_create_vm [OF assms(1) p]]
      by (auto simp: create_def GetVMByName_run split: if_splits)
  qed
qed

section \<open>What success means\<close>

lemma preserves_getIgnition [preserves_intros]:
  "preserves machine (getIgnition ms)" "preserves caches (getIgnition ms)"
  "preserves recorded (getIgnition ms)" "preserves credUpdateListener (getIgnition ms)"
  unfolding getIgnition_def by (auto intro!: preserves_intros)

lemma preserves_configure_and_start [preserves_intros]:
  "preserves machine (configure_and_start C p v)" "preserves caches (configure_and_start C p v)"
  "preserves recorded (configure_and_start C p v)"
  "preserves credUpdateListener (configure_and_start C p v)"
  unfolding configure_and_start_def remove_graphics_consoles_def extend_os_disk_def
    reattach_nics_def create_nic_def optimize_pinning_def tag_vm_def join_affinity_group_def
    start_vm_def split_beta
  by (auto intro!: preserves_intros split: flow.split)

lemma preserves_create [preserves_intros]:
  "preserves machine (create ms)" "preserves caches (create ms)" "preserves recorded (create ms)"
  "preserves credUpdateListener (create ms)"
  unfolding create_def create_vm_def split_beta
  by (auto intro!: preserves_intros)

section \<open>Properties\<close>

text \<open>\<open>create\<close> is idempotent: when the engine has a VM of the machine's name, it returns
  without error and the lookup is the only call it makes.\<close>

lemma create_idempotent:
  assumes "oc_GetVMByName (ms_ovirtClient ms) (mc_Name (machine s)) (world s) = ((Some v, None), w)"
    and "ms_providerSpec ms = Some p"
  shows "create ms s = (Val (), s\<lparr>world := w,
           calls := calls s @ [(GetVMByNameCall (mc_Name (machine s)), True)]\<rparr>)"
  by (rule create_existing [OF assms])

theorem create_idempotent_witness:
  "create (demo_scope demo_spec) (demo_sys (Some (demo_vm ''m1'')) None) =
     (Val (), (demo_sys (Some (demo_vm ''m1'')) None)\<lparr>calls := [(GetVMByNameCall ''m1'', True)]\<rparr>)"
proof -
  have "oc_GetVMByName (ms_ovirtClient (demo_scope demo_spec))
      (mc_Name (machine (demo_sys (Some (demo_vm ''m1'')) None)))
      (world (demo_sys (Some (demo_vm ''m1'')) None)) =
      ((Some (demo_vm ''m1''), None), world (demo_sys (Some (demo_vm ''m1'')) None))"
    by (simp add: demo_scope_def demo_defs)
  from create_idempotent [OF this, of demo_spec] show ?thesis
    by (simp add: demo_scope_def demo_sys_def demo_machine_def)
qed

text \<open>\<open>create\<close> cannot panic for a spec that passed the required checks and whose CPU
  counts, disk format and network entries the builders accept, when the lookup reports the
  client's own errors and a template has a disk.\<close>

lemma create_cannot_panic:
  assumes "createable ms" and "lookup_errors_known (ms_ovirtClient ms)"
  shows "fst (create ms s) \<noteq> Crash q"
  using no_crashD [OF no_crash_create [OF assms]] by (metis prod.collapse)

lemma demo_createable: "createable (demo_scope demo_spec)"
  by (simp add: createable_def demo_scope_def valid_required_def buildable_def demo_spec_def
      empty_spec_def)

lemma demo_lookup_errors_known: "lookup_errors_known demo_engine"
  by (auto simp: lookup_errors_known_def demo_engine_def demo_GetVMByName_def newError_def
      split: option.splits if_splits)

theorem create_cannot_panic_witness:
  "fst (create (demo_scope demo_spec) (demo_sys None None)) \<noteq> Crash NilDeref"
  by (rule create_cannot_panic [OF demo_createable])
     (simp add: demo_scope_def demo_lookup_errors_known)

text \<open>C37: a VM without a bootable disk is reported as created although nothing was configured
  or started: after the disk attachments were listed \<open>create\<close> returns a wrapped nil error.\<close>

theorem no_bootable_disk_is_success:
  assumes "ps_OSDisk p = Some d" and "ps_VMType p \<noteq> VMTypeHighPerformance"
    and "oc_ListDiskAttachments C (vm_id v) (world s) = (Inr das, w)"
    and "\<forall>da \<in> set das. \<not> da_bootable da"
  shows "configure_and_start C p v s = (Val (), s\<lparr>world := w,
           calls := calls s @ [(ListDiskAttachmentsCall (vm_id v), True)]\<rparr>)"
  by (rule configure_no_bootable [OF assms])

theorem no_bootable_disk_is_success_witness:
  "fst (configure_and_start (demo_engine\<lparr>oc_ListDiskAttachments :=
       \<lambda>i w. (Inr [\<lparr>da_diskID = ''d1'', da_bootable = False\<rparr>], w)\<rparr>) demo_spec (demo_vm ''m1'')
     (demo_sys None None)) = Val ()"
  by (subst no_bootable_disk_is_success [where d = "\<lparr>disk_SizeGB = 120\<rparr>" and
        das = "[\<lparr>da_diskID = ''d1'', da_bootable = False\<rparr>]" and w = "world (demo_sys None None)"])
     (simp_all add: demo_defs VMType_cases)

text \<open>C27: the boot disk is only ever enlarged: each update asks for the spec's size, for a disk
  the engine reported smaller than that, and its size is never below the library's minimum,
  so the update cannot panic.\<close>

theorem disk_is_only_enlarged:
  assumes "ps_OSDisk p = Some d" and "extend_os_disk C p v s = (r, s')"
    and "calls s' = calls s @ new" and "(UpdateDiskCall i n, ok) \<in> set new"
  shows "n = new_disk_size d \<and> MinDiskSizeOVirt \<le> n \<and>
     (\<exists>da dsk. answers (oc_GetDisk C da) dsk \<and> dsk_id dsk = i \<and> dsk_provisionedSize dsk < n)"
proof -
  from emitsD [OF extend_os_disk_grows [of C p v] assms(2)] assms(3,4)
  have "grows_disk C p (UpdateDiskCall i n)" by auto
  then obtain da dsk where "n = new_disk_size d" "answers (oc_GetDisk C da) dsk" "dsk_id dsk = i"
    "dsk_provisionedSize dsk < n" using assms(1) by (auto simp: grows_disk_def)
  moreover from this have "MinDiskSizeOVirt \<le> n"
    using new_disk_size_min [of "dsk_provisionedSize dsk" d] by (simp add: not_less)
  ultimately show ?thesis by blast
qed

theorem disk_is_only_enlarged_witness:
  "\<exists>s'. extend_os_disk demo_engine demo_spec (demo_vm ''m1'') (demo_sys None None) = (Val Next, s') \<and>
     (UpdateDiskCall ''d1'' 128849018880, True) \<in> set (calls s') \<and>
     new_disk_size \<lparr>disk_SizeGB = 120\<rparr> = 128849018880"
proof -
  obtain s' where run: "extend_os_disk demo_engine demo_spec (demo_vm ''m1'') (demo_sys None None)
      = (Val Next, s')" and c: "calls s' = calls (demo_sys None None) @ calls s'"
      and u: "(UpdateDiskCall ''d1'' 128849018880, True) \<in> set (calls s')"
    by (simp add: extend_os_disk_def Let_def bootable_attachment_def create_eval demo_defs)
  have "ps_OSDisk demo_spec = Some \<lparr>disk_SizeGB = 120\<rparr>" by (simp add: demo_spec_def)
  from disk_is_only_enlarged [OF this run c u] run u show ?thesis by auto
qed

text \<open>For a size between zero and 2^33 GB the disk size in bytes is exact; nothing is lost
  in the conversion to an unsigned number.\<close>

lemma disk_size_exact:
  assumes "0 \<le> sint (disk_SizeGB d)" and "sint (disk_SizeGB d) < 2 ^ 33"
  shows "uint (new_disk_size d) = sint (disk_SizeGB d) * 2 ^ 30"
  by (rule new_disk_size_exact [OF assms])

theorem disk_size_exact_witness:
  "uint (new_disk_size \<lparr>disk_SizeGB = 120\<rparr>) = 120 * 2 ^ 30"
  using disk_size_exact [of "\<lparr>disk_SizeGB = 120\<rparr>"] by simp

text \<open>C22: when reattaching the network cards succeeds, exactly the cards the VM had were
  removed, and then one card per entry of the spec was created, in order, named nic1, nic2
  and so on with the entry's profile.\<close>

theorem nics_are_replaced:
  assumes "reattach_nics C p i s = (Val (), s')" and "ps_NetworkInterfaces p \<noteq> []"
  shows "\<exists>nics. answers (oc_ListNICs C i) nics \<and>
     calls s' = calls s @ [(ListNICsCall i, True)]
       @ map (\<lambda>n. (RemoveNICCall (nic_vmID n) (nic_id n), True)) nics
       @ map (\<lambda>(k, n). (CreateNICCall i (nic_name k) (ni_VNICProfileID n), True)) (wanted_nics p)"
  by (rule reattach_nics_calls [OF assms])

lemma demo_nic_names: "nic_name 0 = ''nic1''" "nic_name (Suc 0) = ''nic2''"
  by code_simp+

theorem nics_are_replaced_witness:
  "\<exists>s' (nics :: nic list). reattach_nics demo_engine demo_spec ''id1'' (demo_sys None None) = (Val (), s') \<and>
     calls s' = [(ListNICsCall ''id1'', True)]
       @ map (\<lambda>n. (RemoveNICCall (nic_vmID n) (nic_id n), True)) nics
       @ [(CreateNICCall ''id1'' ''nic1'' ''p1'', True), (CreateNICCall ''id1'' ''nic2'' ''p2'', True)]"
proof -
  obtain s' where run: "reattach_nics demo_engine demo_spec ''id1'' (demo_sys None None) = (Val (), s')"
    by (simp add: reattach_nics_def create_nic_def create_eval demo_defs)
  have w: "wanted_nics demo_spec = [(0, \<lparr>ni_VNICProfileID = ''p1''\<rparr>), (1, \<lparr>ni_VNICProfileID = ''p2''\<rparr>)]"
    by (simp add: wanted_nics_def demo_spec_def enumerate_eq_zip)
  have n: "ps_NetworkInterfaces demo_spec \<noteq> []" by (simp add: demo_spec_def)
  obtain nics :: "nic list" where "calls s' = calls (demo_sys None None) @ [(ListNICsCall ''id1'', True)]
       @ map (\<lambda>n. (RemoveNICCall (nic_vmID n) (nic_id n), True)) nics
       @ map (\<lambda>(k, n). (CreateNICCall ''id1'' (nic_name k) (ni_VNICProfileID n), True)) (wanted_nics demo_spec)"
    using nics_are_replaced [OF run n] by blast
  then have "calls s' = [(ListNICsCall ''id1'', True)]
       @ map (\<lambda>n. (RemoveNICCall (nic_vmID n) (nic_id n), True)) nics
       @ [(CreateNICCall ''id1'' ''nic1'' ''p1'', True), (CreateNICCall ''id1'' ''nic2'' ''p2'', True)]"
    by (simp add: w demo_sys_def demo_nic_names)
  with run show ?thesis by blast
qed

text \<open>The size of the OS disk is read before it is known that there is one.\<close>

lemma no_os_disk_panics:
  assumes "ps_OSDisk p = None" shows "extend_os_disk C p v s = (Crash NilDeref, s)"
  using assms by (simp add: extend_os_disk_def)


end
