(* ===== verification/Reconcile_Correct.thy ===== *)
theory Reconcile_Correct
  imports Machine_Reconcile Create_Correct
begin

text \<open>
  What \<open>exists\<close>, \<open>delete\<close>, \<open>reconcileMachine\<close> and \<open>patchMachine\<close> do: the result of every
  branch, the calls they make and in which order, and what they write into the Machine.
\<close>

section \<open>exists\<close>

lemma vm_exists_eq:
  assumes "oc_GetVMByName (ms_ovirtClient ms) (mc_Name (machine s)) (world s) = ((v, err), w)"
  shows "fst (vm_exists ms s) =
     (case err of None \<Rightarrow> Val True
      | Some e \<Rightarrow> (case HasErrorCode e ENotFound of
           Val True \<Rightarrow> Val False
         | Val False \<Rightarrow> Fail (Wrapped ''error finding VM by name'' e)
         | Fail e' \<Rightarrow> Fail e'
         | Crash q \<Rightarrow> Crash q))"
  by (auto simp: vm_exists_def GetVMByName_run [OF assms] bind_def split: option.split res.split)

section \<open>delete\<close>

text \<open>
  The calls on a VM that was found: stop, wait until down, remove; each only after the one
  before succeeded. An error of the removal that means the VM is gone is no error.
\<close>

definition removal_result :: "gerr \<Rightarrow> unit res" where
  "removal_result e = (case HasErrorCode e ENotFound of
       Val True \<Rightarrow> Val () | Val False \<Rightarrow> Fail e | Fail e' \<Rightarrow> Fail e' | Crash q \<Rightarrow> Crash q)"

lemma removal_error:
  "bind (lift_res (HasErrorCode e ENotFound)) (\<lambda>b. if \<not> b then fail e else ret ()) s
     = (removal_result e, s)"
  by (auto simp: bind_def removal_result_def split: res.split)

lemma delete_found_calls:
  assumes "delete_found C i s = (r, s')"
  obtains (stop) e where "r = Fail e" and "calls s' = calls s @ [(StopVMCall i True, False)]"
    | (wait) e where "r = Fail e" and "calls s' = calls s @
        [(StopVMCall i True, True), (WaitForVMStatusCall i VMStatusDown, False)]"
    | (removed) "r = Val ()" and "calls s' = calls s @ [(StopVMCall i True, True),
        (WaitForVMStatusCall i VMStatusDown, True), (RemoveVMCall i, True)]"
    | (remove) e where "rejects (oc_RemoveVM C i) e" and "r = removal_result e"
        and "calls s' = calls s @ [(StopVMCall i True, True),
        (WaitForVMStatusCall i VMStatusDown, True), (RemoveVMCall i, False)]"
proof -
  obtain r1 s1 where 1: "api (StopVMCall i True) (oc_StopVM C i True) s = (r1, s1)" by fastforce
  obtain r2 s2 where 2: "api (WaitForVMStatusCall i VMStatusDown)
      (oc_WaitForVMStatus C i VMStatusDown) s1 = (r2, s2)" by fastforce
  obtain r3 s3 where 3: "api (RemoveVMCall i) (oc_RemoveVM C i) s2 = (r3, s3)" by fastforce
  note run = assms [unfolded delete_found_def]
  from 1 show thesis
  proof (cases rule: api_cases)
    case (error e)
    with run 1 show thesis by (intro stop) auto
  next
    case answer
    note a1 = answer
    from 2 show thesis
    proof (cases rule: api_cases)
      case (error e)
      with run 1 2 a1 show thesis by (intro wait) auto
    next
      case answer
      note a2 = answer
      from 3 show thesis
      proof (cases rule: api_cases)
        case (error e)
        with run 1 2 3 a1 a2 show thesis by (intro remove) (auto simp: removal_error)
      next
        case answer
        with run 1 2 3 a1 a2 show thesis by (intro removed) auto
      qed
    qed
  qed
qed

section \<open>The network\<close>

text \<open>An IPv4 address has no slash, so its \<open>/32\<close> network is parsed as just that address.\<close>

lemma split_at_chars: "c \<in> set s \<Longrightarrow> c \<noteq> d \<Longrightarrow> \<exists>w \<in> set (split_at d s). c \<in> set w"
  by (induction d s rule: split_at.induct) (auto split: list.split)

lemma parse_octet_digits: "parse_octet w = Some b \<Longrightarrow> list_all is_digit w"
  by (simp add: parse_octet_def split: if_splits)

lemma parseIPv4_octets:
  assumes "parseIPv4 s = Some ip"
  obtains a b c d where "ip = v4InV6Prefix @ [a, b, c, d]"
    and "\<forall>w \<in> set (split_at (CHR ''.'') s). list_all is_digit w"
proof -
  from assms obtain a b c d where m: "map parse_octet (split_at (CHR ''.'') s) = [Some a, Some b, Some c, Some d]"
    and ip: "ip = v4InV6Prefix @ [a, b, c, d]"
    by (auto simp: parseIPv4_def split: list.splits option.splits)
  have "list_all is_digit w" if "w \<in> set (split_at (CHR ''.'') s)" for w
  proof -
    from that have "parse_octet w \<in> set [Some a, Some b, Some c, Some d]"
      unfolding m [symmetric] by simp
    then show ?thesis by (auto dest: parse_octet_digits)
  qed
  then show thesis using ip by (intro that) auto
qed

lemma parseIPv4_no_slash: "parseIPv4 s = Some ip \<Longrightarrow> CHR ''/'' \<notin> set s"
proof
  assume p: "parseIPv4 s = Some ip" and "CHR ''/'' \<in> set s"
  then obtain w where "w \<in> set (split_at (CHR ''.'') s)" and "CHR ''/'' \<in> set w"
    using split_at_chars [of "CHR ''/''" s "CHR ''.''"] by auto
  moreover have "\<not> is_digit (CHR ''/'')" by (simp add: is_digit_def)
  ultimately show False using p by (elim parseIPv4_octets) (auto simp: list_all_iff)
qed

lemma takeWhile_slash: "CHR ''/'' \<notin> set s \<Longrightarrow> takeWhile (\<lambda>c. c \<noteq> CHR ''/'') (s @ ''/32'') = s"
  by (induction s) auto

lemma dropWhile_slash: "CHR ''/'' \<notin> set s \<Longrightarrow> dropWhile (\<lambda>c. c \<noteq> CHR ''/'') (s @ ''/32'') = ''/32''"
  by (induction s) auto

lemma CIDRMask_32: "CIDRMask 32 4 = [255, 255, 255, 255]"
  by (simp add: eval_nat_numeral)

lemma ParseCIDR_32:
  assumes "parseIPv4 s = Some ip"
  shows "ParseCIDR (s @ ''/32'') =
     Inr (ip, \<lparr>net_IP = ip_Mask ip [255, 255, 255, 255], net_Mask = [255, 255, 255, 255]\<rparr>)"
  using parseIPv4_no_slash [OF assms] assms
  by (simp add: ParseCIDR_def takeWhile_slash dropWhile_slash Let_def is_digit_def dec_value_def
      CIDRMask_32)

lemma and_255 [simp]: "(b :: byte) AND 255 = b"
proof -
  have "(255 :: byte) = - 1" by simp
  then show ?thesis by (metis and.right_neutral)
qed

lemma Contains_32:
  assumes "parseIPv4 s = Some ip"
  shows "IPNet_Contains \<lparr>net_IP = ip_Mask ip [255, 255, 255, 255], net_Mask = [255, 255, 255, 255]\<rparr> ip"
proof -
  from assms obtain a b c d where ip: "ip = v4InV6Prefix @ [a, b, c, d]" by (rule parseIPv4_octets)
  have "ip_Mask ip [255, 255, 255, 255] = [a, b, c, d]"
    by (simp add: ip ip_Mask_def v4InV6Prefix_def Let_def)
  moreover have "To4 ip = Some [a, b, c, d]" by (simp add: ip To4_def v4InV6Prefix_def)
  ultimately show ?thesis
    by (simp add: IPNet_Contains_def networkNumberAndMask_def To4_def)
qed

lemma exclude_addresses_ranges:
  assumes "exclude_addresses as v = Inr v'" and "a \<in> set as" and "parseIPv4 a = Some ip"
  shows "\<exists>r \<in> set (excludedRanges v'). IPNet_Contains r ip"
proof -
  have mono: "exclude_addresses bs u = Inr u' \<Longrightarrow> set (excludedRanges u) \<subseteq> set (excludedRanges u')" for bs u u'
    by (induction bs arbitrary: u) (fastforce simp: WithExcludedRange_def split: sum.splits)+
  show ?thesis
    using assms
  proof (induction as arbitrary: v)
    case (Cons b bs)
    from Cons.prems(1) obtain x n where p: "ParseCIDR (b @ ''/32'') = Inr (x, n)"
      and e: "exclude_addresses bs (WithExcludedRange n v) = Inr v'" by (auto split: sum.splits)
    show ?case
    proof (cases "a = b")
      case True
      with p ParseCIDR_32 [OF Cons.prems(3)] Contains_32 [OF Cons.prems(3)]
      have "IPNet_Contains n ip" by auto
      moreover have "n \<in> set (excludedRanges v')" using mono [OF e] by (auto simp: WithExcludedRange_def)
      ultimately show ?thesis by blast
    next
      case False
      with Cons.prems Cons.IH [OF e] show ?thesis by simp
    qed
  qed simp
qed

lemma exclude_addresses_interfaces:
  "exclude_addresses as v = Inr v' \<Longrightarrow>
     includedInterfaceNamePatterns v' = includedInterfaceNamePatterns v \<and>
     includedInterfaceNames v' = includedInterfaceNames v \<and>
     includedRanges v' = includedRanges v"
  by (induction as arbitrary: v) (fastforce simp: WithExcludedRange_def split: sum.splits)+

subsection \<open>The chosen address\<close>

text \<open>A legal order of a map's keys visits each of them once.\<close>

definition visits_all :: "(string list \<Rightarrow> string list) \<Rightarrow> bool" where
  "visits_all order \<longleftrightarrow> (\<forall>ks. distinct ks \<longrightarrow> distinct (order ks) \<and> set (order ks) = set ks)"

lemma visits_all_set: "visits_all order \<Longrightarrow> distinct ks \<Longrightarrow> set (order ks) = set ks"
  by (simp add: visits_all_def)

lemma visit_subset: "set (visit order m) \<subseteq> set m"
  by (auto simp: visit_def List.map_filter_def dest: map_of_SomeD)

lemma first_address_in:
  assumes "first_address m = Some ip" shows "\<exists>k ips. (k, ips) \<in> set m \<and> ip \<in> set ips"
proof -
  from assms obtain rest where "concat (map snd m) = ip # rest"
    by (auto simp: first_address_def split: list.splits)
  then have "ip \<in> set (concat (map snd m))" by (simp only: list.set) simp
  then show ?thesis by force
qed

text \<open>
  \<open>usable C vmID vips ip\<close>: the engine reports \<open>ip\<close> on an interface the program looks at,
  and \<open>ip\<close> is none of the (IPv4) addresses in \<open>vips\<close>.
\<close>

definition usable :: "'w ovirt_client \<Rightarrow> string \<Rightarrow> string list \<Rightarrow> IP \<Rightarrow> bool" where
  "usable C vmID vips ip \<longleftrightarrow>
     (\<exists>reported nic ips. answers (oc_ReportedIPs C vmID) reported \<and> (nic, ips) \<in> set reported \<and>
        ip \<in> set ips \<and> nicRegex nic) \<and>
     (\<forall>v \<in> set vips. parseIPv4 v \<noteq> Some ip)"

lemma findUsable_Val:
  assumes "visits_all order" and "distinct vips"
    and "findUsableInternalAddress order ms vmID vips s = (Val addr, s')"
  shows "addr = [] \<or> (\<exists>ip. addr = ip_String ip \<and> usable (ms_ovirtClient ms) vmID vips ip)"
proof -
  from assms(3) obtain params reported s1 where
    x: "exclude_addresses (order vips) (WithIncludedInterfacePattern nicRegex NewVMIPSearchParams) = Inr params" and
    r: "api (ReportedIPsCall vmID) (oc_ReportedIPs (ms_ovirtClient ms) vmID) s = (Val reported, s1)" and
    f: "(case first_address (visit order (filterReportedIPList reported params)) of
            Some ip \<Rightarrow> ret (ip_String ip)
          | None \<Rightarrow> bind (lift_err (Wrap None (''failed to find usable address for VM '' @ vmID @ '' '')))
                      (\<lambda>_. ret [])) s1 = (Val addr, s')"
    by (auto simp: findUsableInternalAddress_def Let_def elim!: bind_ValE split: sum.splits)
  show ?thesis
  proof (cases "first_address (visit order (filterReportedIPList reported params))")
    case None
    with f show ?thesis by simp
  next
    case (Some ip)
    then obtain k ips where "(k, ips) \<in> set (filterReportedIPList reported params)" "ip \<in> set ips"
      using visit_subset by (fastforce dest!: first_address_in)
    then obtain ips0 where 1: "(k, ips0) \<in> set reported" "ip \<in> set ips0"
      "\<not> excludeInterface params k" "\<forall>n \<in> set (excludedRanges params). \<not> IPNet_Contains n ip"
      using filterReportedIPList_sound by blast
    from exclude_addresses_interfaces [OF x] 1(3) have "nicRegex k"
      by (auto simp: excludeInterface_def WithIncludedInterfacePattern_def NewVMIPSearchParams_def
          split: if_splits)
    moreover have "\<forall>v \<in> set vips. parseIPv4 v \<noteq> Some ip"
      using exclude_addresses_ranges [OF x] 1(4) visits_all_set [OF assms(1,2)] by blast
    ultimately have "usable (ms_ovirtClient ms) vmID vips ip"
      using 1 api_answers [OF r] unfolding usable_def by blast
    with Some f show ?thesis by auto
  qed
qed

text \<open>No interface left after the filter: the result is the empty string, not an error.\<close>

lemma findUsable_none:
  assumes "exclude_addresses (order vips) (WithIncludedInterfacePattern nicRegex NewVMIPSearchParams) = Inr params"
    and "oc_ReportedIPs (ms_ovirtClient ms) vmID (world s) = (Inr reported, w)"
    and "filterReportedIPList reported params = []" and "order [] = []"
  shows "findUsableInternalAddress order ms vmID vips s = (Val [],
     s\<lparr>world := w, calls := calls s @ [(ReportedIPsCall vmID, True)]\<rparr>)"
  using assms
  by (simp add: findUsableInternalAddress_def visit_def List.map_filter_def first_address_def)

lemma getClusterAddress_Val:
  assumes "getClusterAddress ms s = (Val vips, s')"
  obtains k infra o1 where "ms_client ms = Some k"
    and "answers (kc_GetInfrastructure k globalInfrastuctureName) infra"
    and "inf_PlatformStatus infra = Some (Some o1)" and "distinct vips"
    and "set vips = {ops_APIServerInternalIP o1, ops_IngressIP o1}"
proof -
  from assms obtain k where k: "ms_client ms = Some k"
    by (cases "ms_client ms") (auto simp: getClusterAddress_def)
  with assms obtain infra s1 where
    i: "api (GetInfrastructureCall globalInfrastuctureName)
          (kc_GetInfrastructure k globalInfrastuctureName) s = (Val infra, s1)" and
    r: "bind (deref (inf_PlatformStatus infra)) (\<lambda>ps. bind (deref ps) (\<lambda>ovirt.
     ret (if ops_APIServerInternalIP ovirt = ops_IngressIP ovirt
          then [ops_APIServerInternalIP ovirt]
          else [ops_APIServerInternalIP ovirt, ops_IngressIP ovirt]))) s1 = (Val vips, s')"
    by (auto simp: getClusterAddress_def elim!: bind_ValE)
  from r obtain o1 where "inf_PlatformStatus infra = Some (Some o1)"
    by (cases "inf_PlatformStatus infra"; cases "the (inf_PlatformStatus infra)") auto
  with r show thesis by (intro that [OF k api_answers [OF i]]) (auto split: if_splits)
qed

section \<open>Which parts of the state change\<close>

lemma set_machine_run [simp]: "set_machine f s = (Val (), s\<lparr>machine := f (machine s)\<rparr>)"
  by (simp add: set_machine_def)

lemma emits_set_machine [emits_intros]: "emits A (set_machine f)"
  unfolding set_machine_def by (rule emits_modify) simp

lemma no_crash_set_machine [no_crash_intros]: "no_crash (set_machine f)"
  unfolding set_machine_def by (rule no_crash_modify)

lemma preserves_set_machine [preserves_intros]:
  "preserves caches (set_machine f)" "preserves recorded (set_machine f)"
  "preserves credUpdateListener (set_machine f)"
  unfolding set_machine_def by (intro preserves_intros; simp)+

lemma preserves_network [preserves_intros]:
  "preserves machine (getClusterAddress ms)"
  "preserves machine (findUsableInternalAddress order ms vmID vips)"
  "preserves caches (getClusterAddress ms)"
  "preserves caches (findUsableInternalAddress order ms vmID vips)"
  "preserves recorded (getClusterAddress ms)"
  "preserves recorded (findUsableInternalAddress order ms vmID vips)"
  "preserves credUpdateListener (getClusterAddress ms)"
  "preserves credUpdateListener (findUsableInternalAddress order ms vmID vips)"
  unfolding getClusterAddress_def findUsableInternalAddress_def Let_def
  by (auto intro!: preserves_intros)

lemma preserves_machine_ops [preserves_intros]:
  "preserves caches (reconcileMachine E ms)" "preserves recorded (reconcileMachine E ms)"
  "preserves caches (patchMachine ms)" "preserves recorded (patchMachine ms)"
  "preserves credUpdateListener (reconcileMachine E ms)"
  "preserves credUpdateListener (patchMachine ms)"
  unfolding reconcileMachine_def reconcileMachineNetwork_def reconcileMachineProviderID_def
    reconcileMachineAnnotations_def reconcileMachineProviderStatus_def patchMachine_def Let_def split_beta
  by (auto intro!: preserves_intros)

lemma preserves_lookup_ops [preserves_intros]:
  "preserves machine (vm_exists ms)" "preserves caches (vm_exists ms)" "preserves recorded (vm_exists ms)"
  "preserves machine (delete ms)" "preserves caches (delete ms)" "preserves recorded (delete ms)"
  "preserves credUpdateListener (vm_exists ms)" "preserves credUpdateListener (delete ms)"
  unfolding vm_exists_def delete_def delete_found_def split_beta
  by (auto intro!: preserves_intros)

text \<open>Reconciling reads from the engine and from the Infrastructure object, nothing else.\<close>

definition reconcile_reads :: "api_call \<Rightarrow> bool" where
  "reconcile_reads c = (case c of GetVMByNameCall n \<Rightarrow> True | ReportedIPsCall v \<Rightarrow> True
     | GetInfrastructureCall n \<Rightarrow> True | _ \<Rightarrow> False)"

lemma emits_reconcileMachine: "emits reconcile_reads (reconcileMachine E ms)"
  unfolding reconcileMachine_def reconcileMachineNetwork_def reconcileMachineProviderID_def
    reconcileMachineAnnotations_def reconcileMachineProviderStatus_def getClusterAddress_def
    findUsableInternalAddress_def Let_def split_beta
  by (auto intro!: emits_intros simp: reconcile_reads_def)

section \<open>reconcileMachine\<close>

text \<open>The addresses a run on a VM in the state Up or Migrating writes.\<close>

definition good_addresses ::
  "'w machineScope \<Rightarrow> string \<Rightarrow> string \<Rightarrow> node_address list \<Rightarrow> bool" where
  "good_addresses ms name vmID as \<longleftrightarrow>
     (\<exists>k infra o1 addr. ms_client ms = Some k \<and>
        answers (kc_GetInfrastructure k globalInfrastuctureName) infra \<and>
        inf_PlatformStatus infra = Some (Some o1) \<and>
        as = [\<lparr>na_Type = NodeInternalDNS, na_Address = name\<rparr>,
              \<lparr>na_Type = NodeInternalIP, na_Address = addr\<rparr>] \<and>
        (addr = [] \<or> (\<exists>ip. addr = ip_String ip \<and> usable (ms_ovirtClient ms) vmID
             [ops_APIServerInternalIP o1, ops_IngressIP o1] ip)))"

lemma reconcileMachineNetwork_Val:
  assumes "visits_all order" and "reconcileMachineNetwork order ms status name vmID s = (Val u, s')"
  shows "if status = VMStatusUp \<or> status = VMStatusMigrating
     then \<exists>as. good_addresses ms name vmID as \<and> machine s' =
       (machine s)\<lparr>mc_Status := (mc_Status (machine s))\<lparr>mst_Addresses := as\<rparr>\<rparr>
     else status = VMStatusDown \<and> s' = s"
proof (cases "status = VMStatusUp \<or> status = VMStatusMigrating")
  case True
  with assms(2) obtain vips s1 addr s2 where
    1: "getClusterAddress ms s = (Val vips, s1)" and
    2: "findUsableInternalAddress order ms vmID vips s1 = (Val addr, s2)" and
    3: "machine s' = (machine s2)\<lparr>mc_Status := (mc_Status (machine s2))\<lparr>mst_Addresses :=
             [\<lparr>na_Type = NodeInternalDNS, na_Address = name\<rparr>,
              \<lparr>na_Type = NodeInternalIP, na_Address = addr\<rparr>]\<rparr>\<rparr>"
    unfolding reconcileMachineNetwork_def by (auto elim!: bind_ValE split: if_splits)
  obtain k infra o1 where i: "ms_client ms = Some k"
    "answers (kc_GetInfrastructure k globalInfrastuctureName) infra"
    "inf_PlatformStatus infra = Some (Some o1)" "distinct vips"
    "set vips = {ops_APIServerInternalIP o1, ops_IngressIP o1}"
    by (rule getClusterAddress_Val [OF 1])
  from findUsable_Val [OF assms(1) i(4) 2] i(5)
  have "addr = [] \<or> (\<exists>ip. addr = ip_String ip \<and> usable (ms_ovirtClient ms) vmID
             [ops_APIServerInternalIP o1, ops_IngressIP o1] ip)"
    by (simp add: usable_def)
  with i have "good_addresses ms name vmID [\<lparr>na_Type = NodeInternalDNS, na_Address = name\<rparr>,
              \<lparr>na_Type = NodeInternalIP, na_Address = addr\<rparr>]"
    unfolding good_addresses_def by blast
  moreover have "machine s2 = machine s"
    using preservesD [OF preserves_network(1) 1] preservesD [OF preserves_network(2) 2] by simp
  ultimately show ?thesis using True 3 by auto
next
  case False
  with assms(2) show ?thesis by (auto simp: reconcileMachineNetwork_def split: if_splits)
qed

lemma reconcileMachineProviderStatus_Val:
  assumes "codec_faithful J" and "reconcileMachineProviderStatus J status vmID s = (Val u, s')"
  shows "\<exists>ext. machine s' = (machine s)\<lparr>mc_Status := (mc_Status (machine s))
             \<lparr>mst_ProviderStatus := Some ext\<rparr>\<rparr> \<and>
     ProviderStatusFromRawExtension J (Some ext) =
       Inr \<lparr>pst_InstanceID = Some vmID, pst_InstanceState = Some status\<rparr>"
proof -
  from assms(2) obtain st ext where
    "RawExtensionFromProviderStatus J (Some (st\<lparr>pst_InstanceState := Some status,
        pst_InstanceID := Some vmID\<rparr>)) = Inr ext" and
    m: "machine s' = (machine s)\<lparr>mc_Status := (mc_Status (machine s))\<lparr>mst_ProviderStatus := Some ext\<rparr>\<rparr>"
    by (auto simp: reconcileMachineProviderStatus_def split: sum.splits)
  from status_roundtrip [OF assms(1) this(1)] m show ?thesis
    by (cases st) auto
qed

text \<open>The Machine after a successful run.\<close>

lemma reconcileMachine_Val:
  assumes "visits_all (env_map_order E)" and "codec_faithful (env_codec E)"
    and "reconcileMachine E ms s = (Val u, s')"
  obtains v w where
    "oc_GetVMByName (ms_ovirtClient ms) (mc_Name (machine s)) (world s) = ((Some v, None), w)"
    and "mc_ProviderID (machine s') = Some (ProviderIDPrefix @ vm_id v)"
    and "\<exists>ann. mc_Annotations (machine s') = Some ann \<and> ann OvirtIDAnnotationKey = Some (vm_id v)
           \<and> ann InstanceStatusAnnotationKey = Some (vm_status v)"
    and "ProviderStatusFromRawExtension (env_codec E) (mst_ProviderStatus (mc_Status (machine s'))) =
       Inr \<lparr>pst_InstanceID = Some (vm_id v), pst_InstanceState = Some (vm_status v)\<rparr>"
    and "if vm_status v = VMStatusUp \<or> vm_status v = VMStatusMigrating
       then good_addresses ms (vm_name v) (vm_id v) (mst_Addresses (mc_Status (machine s')))
       else vm_status v = VMStatusDown \<and>
         mst_Addresses (mc_Status (machine s')) = mst_Addresses (mc_Status (machine s))"
proof -
  obtain v0 err w where g: "oc_GetVMByName (ms_ovirtClient ms) (mc_Name (machine s)) (world s)
      = ((v0, err), w)" by (metis prod.exhaust)
  from assms(3) obtain v where v: "v0 = Some v" "err = None"
    by (cases err; cases v0) (auto simp: reconcileMachine_def GetVMByName_run [OF g])
  define m1 where "m1 = (machine s)\<lparr>mc_ProviderID := Some (ProviderIDPrefix @ vm_id v),
     mc_Annotations := Some ((case mc_Annotations (machine s) of None \<Rightarrow> Map.empty | Some a \<Rightarrow> a)
       (InstanceStatusAnnotationKey \<mapsto> vm_status v, OvirtIDAnnotationKey \<mapsto> vm_id v))\<rparr>"
  define s1 where "s1 = s\<lparr>world := w, calls := calls s @ [(GetVMByNameCall (mc_Name (machine s)), True)],
     machine := m1\<rparr>"
  have s1: "machine s1 = m1" by (simp add: s1_def)
  from assms(3) obtain u2 s2 where
    2: "reconcileMachineNetwork (env_map_order E) ms (vm_status v) (vm_name v) (vm_id v) s1 = (Val u2, s2)" and
    3: "reconcileMachineProviderStatus (env_codec E) (vm_status v) (vm_id v) s2 = (Val u, s')"
    by (auto simp: reconcileMachine_def GetVMByName_run [OF g] v reconcileMachineProviderID_def
        reconcileMachineAnnotations_def s1_def m1_def elim!: bind_ValE)
  note n = reconcileMachineNetwork_Val [OF assms(1) 2]
  from n have same: "mc_ProviderID (machine s2) = mc_ProviderID (machine s1)"
    "mc_Annotations (machine s2) = mc_Annotations (machine s1)"
    by (auto split: if_splits)
  have k: "OvirtIDAnnotationKey \<noteq> InstanceStatusAnnotationKey"
    by (simp add: OvirtIDAnnotationKey_def InstanceStatusAnnotationKey_def)
  from reconcileMachineProviderStatus_Val [OF assms(2) 3] obtain ext where
    m3: "machine s' = (machine s2)\<lparr>mc_Status := (mc_Status (machine s2))\<lparr>mst_ProviderStatus := Some ext\<rparr>\<rparr>"
    "ProviderStatusFromRawExtension (env_codec E) (Some ext) =
       Inr \<lparr>pst_InstanceID = Some (vm_id v), pst_InstanceState = Some (vm_status v)\<rparr>" by blast
  show thesis
  proof (rule that [of v w])
    show "if vm_status v = VMStatusUp \<or> vm_status v = VMStatusMigrating
       then good_addresses ms (vm_name v) (vm_id v) (mst_Addresses (mc_Status (machine s')))
       else vm_status v = VMStatusDown \<and>
         mst_Addresses (mc_Status (machine s')) = mst_Addresses (mc_Status (machine s))"
      using n s1 m3 by (auto simp: m1_def split: if_splits)
  qed (use g v s1 m3 same k in \<open>auto simp: m1_def\<close>)
qed

section \<open>patchMachine\<close>

text \<open>
  Whatever the server answers to the first patch, the second carries the status the
  Machine had before it.
\<close>

lemma patchMachine_Val:
  assumes "patchMachine ms s = (Val u, s')"
  obtains m2 where "calls s' = calls s @ [(PatchMachineCall (ms_original ms) (machine s), True),
      (PatchMachineStatusCall (ms_original ms) m2, True)]"
    and "mc_Status m2 = mc_Status (machine s)"
proof -
  from assms obtain k where k: "ms_client ms = Some k"
    by (cases "ms_client ms") (auto simp: patchMachine_def Let_def)
  with assms obtain m1 s1 m3 s3 where
    1: "api (PatchMachineCall (ms_original ms) (machine s)) (kc_PatchMachine k (ms_original ms) (machine s)) s
          = (Val m1, s1)" and
    2: "api (PatchMachineStatusCall (ms_original ms) (m1\<lparr>mc_Status := mc_Status (machine s)\<rparr>))
          (kc_PatchMachineStatus k (ms_original ms) (m1\<lparr>mc_Status := mc_Status (machine s)\<rparr>))
          (s1\<lparr>machine := m1\<lparr>mc_Status := mc_Status (machine s)\<rparr>\<rparr>) = (Val m3, s3)" and
    3: "s' = s3\<lparr>machine := m3\<rparr>"
    by (auto simp: patchMachine_def Let_def elim!: bind_ValE)
  from api_ValD [OF 1] api_ValD [OF 2] 3 show thesis
    by (intro that [of "m1\<lparr>mc_Status := mc_Status (machine s)\<rparr>"]) simp_all
qed

section \<open>Properties\<close>

text \<open>C18: \<open>delete\<close> of a VM that is there stops it, waits until it is down and removes it, in this
  order, each call only after the one before succeeded; it returns without error only when
  all three were made and the removal succeeded or the VM was already gone.\<close>

theorem delete_protocol:
  assumes "oc_GetVMByName (ms_ovirtClient ms) (mc_Name (machine s)) (world s) = ((Some v, None), w)"
  shows "\<exists>oks. calls (snd (delete ms s)) = calls s @ (GetVMByNameCall (mc_Name (machine s)), True) #
       zip (take (length oks) [StopVMCall (vm_id v) True,
              WaitForVMStatusCall (vm_id v) VMStatusDown, RemoveVMCall (vm_id v)]) oks
     \<and> oks \<noteq> [] \<and> length oks \<le> 3 \<and> list_all id (butlast oks)
     \<and> (case fst (delete ms s) of
          Val u \<Rightarrow> length oks = 3 \<and> (last oks \<or>
            (\<exists>e. rejects (oc_RemoveVM (ms_ovirtClient ms) (vm_id v)) e \<and> HasErrorCode e ENotFound = Val True))
        | _ \<Rightarrow> \<not> last oks)"
proof -
  let ?s0 = "s\<lparr>world := w, calls := calls s @ [(GetVMByNameCall (mc_Name (machine s)), True)]\<rparr>"
  obtain r s' where run: "delete_found (ms_ovirtClient ms) (vm_id v) ?s0 = (r, s')" by fastforce
  then have d: "delete ms s = (r, s')" by (simp add: delete_def GetVMByName_run [OF assms])
  from run show ?thesis
  proof (cases rule: delete_found_calls)
    case stop
    with d show ?thesis by (intro exI [of _ "[False]"]) simp
  next
    case wait
    with d show ?thesis by (intro exI [of _ "[True, False]"]) simp
  next
    case removed
    with d show ?thesis by (intro exI [of _ "[True, True, True]"]) simp
  next
    case (remove e)
    with d show ?thesis
      by (intro exI [of _ "[True, True, False]"])
         (auto simp: removal_result_def split: res.split bool.split)
  qed
qed

theorem delete_protocol_witness:
  "\<exists>oks. calls (snd (delete (demo_scope demo_spec) (demo_sys (Some (demo_vm ''m1'')) None))) =
     (GetVMByNameCall ''m1'', True) #
       zip (take (length oks) [StopVMCall ''id1'' True, WaitForVMStatusCall ''id1'' VMStatusDown,
         RemoveVMCall ''id1'']) oks \<and> length oks \<le> 3"
proof -
  have "oc_GetVMByName (ms_ovirtClient (demo_scope demo_spec))
      (mc_Name (machine (demo_sys (Some (demo_vm ''m1'')) None)))
      (world (demo_sys (Some (demo_vm ''m1'')) None)) =
      ((Some (demo_vm ''m1''), None), world (demo_sys (Some (demo_vm ''m1'')) None))"
    by (simp add: demo_scope_def demo_defs)
  from delete_protocol [OF this] show ?thesis
    by (simp add: demo_sys_def demo_vm_def demo_machine_def) blast
qed

text \<open>\<open>exists\<close> answers from the lookup alone: true when it succeeds, false when its error
  means that there is no such VM, and the wrapped error otherwise.\<close>

lemma exists_from_lookup:
  assumes "oc_GetVMByName (ms_ovirtClient ms) (mc_Name (machine s)) (world s) = ((v, err), w)"
  shows "fst (vm_exists ms s) =
     (case err of None \<Rightarrow> Val True
      | Some e \<Rightarrow> (case HasErrorCode e ENotFound of
           Val True \<Rightarrow> Val False
         | Val False \<Rightarrow> Fail (Wrapped ''error finding VM by name'' e)
         | Fail e' \<Rightarrow> Fail e'
         | Crash q \<Rightarrow> Crash q))"
  by (rule vm_exists_eq [OF assms])

theorem exists_from_lookup_witness:
  "fst (vm_exists (demo_scope demo_spec) (demo_sys None None)) = Val False"
  by (subst exists_from_lookup [where v = None and err = "Some (newError ENotFound ''no such VM'')"
        and w = "world (demo_sys None None)"])
     (simp_all add: demo_scope_def demo_defs newError_def)

text \<open>C17: a successful \<open>reconcileMachine\<close> leaves in the Machine the provider identifier, the
  annotations and a provider status that decodes to the VM's identifier and state, and
  either addresses of the running VM or, for a VM that is down, the addresses it had.\<close>

theorem reconcile_writes_machine:
  assumes "visits_all (env_map_order E)" and "codec_faithful (env_codec E)"
    and "reconcileMachine E ms s = (Val (), s')"
  shows "\<exists>v w ann. oc_GetVMByName (ms_ovirtClient ms) (mc_Name (machine s)) (world s) = ((Some v, None), w) \<and>
     mc_ProviderID (machine s') = Some (ProviderIDPrefix @ vm_id v) \<and>
     mc_Annotations (machine s') = Some ann \<and> ann OvirtIDAnnotationKey = Some (vm_id v) \<and>
     ann InstanceStatusAnnotationKey = Some (vm_status v) \<and>
     ProviderStatusFromRawExtension (env_codec E) (mst_ProviderStatus (mc_Status (machine s'))) =
       Inr \<lparr>pst_InstanceID = Some (vm_id v), pst_InstanceState = Some (vm_status v)\<rparr> \<and>
     (if vm_status v = VMStatusUp \<or> vm_status v = VMStatusMigrating
       then good_addresses ms (vm_name v) (vm_id v) (mst_Addresses (mc_Status (machine s')))
       else vm_status v = VMStatusDown \<and>
         mst_Addresses (mc_Status (machine s')) = mst_Addresses (mc_Status (machine s)))"
  by (rule reconcileMachine_Val [OF assms]) blast

lemmas reconcile_defs =
  reconcileMachine_def reconcileMachineProviderID_def reconcileMachineAnnotations_def
  reconcileMachineNetwork_def reconcileMachineProviderStatus_def getClusterAddress_def
  findUsableInternalAddress_def

lemma demo_visits_all: "visits_all (env_map_order demo_env)"
  by (simp add: visits_all_def demo_env_def)

lemma demo_parse_VIPs:
  "parseIPv4 ''10.0.0.1'' = Some (v4InV6Prefix @ [10, 0, 0, 1])"
  "parseIPv4 ''10.0.0.2'' = Some (v4InV6Prefix @ [10, 0, 0, 2])"
  by (simp_all add: parseIPv4_def parse_octet_def is_digit_def dec_value_def)

lemma demo_reconcile_down:
  "\<exists>s'. reconcileMachine demo_env (demo_scope demo_spec)
     (demo_sys (Some ((demo_vm ''m1'')\<lparr>vm_status := VMStatusDown\<rparr>)) None) = (Val (), s')"
  by (simp add: reconcile_defs demo_scope_def demo_defs demo_env_def demo_codec_def GetVMByName_def
      demo_marshal_status_def ProviderStatusFromRawExtension_def RawExtensionFromProviderStatus_def
      VMStatusDown_def VMStatusUp_def VMStatusMigrating_def empty_status_def)

theorem reconcile_writes_machine_witness:
  "\<exists>s'. reconcileMachine demo_env (demo_scope demo_spec)
       (demo_sys (Some ((demo_vm ''m1'')\<lparr>vm_status := VMStatusDown\<rparr>)) None) = (Val (), s') \<and>
     mc_ProviderID (machine s') = Some ''ovirt://id1''"
proof -
  let ?s = "demo_sys (Some ((demo_vm ''m1'')\<lparr>vm_status := VMStatusDown\<rparr>)) None"
  obtain s' where run: "reconcileMachine demo_env (demo_scope demo_spec) ?s = (Val (), s')"
    using demo_reconcile_down by blast
  have c: "codec_faithful (env_codec demo_env)" by (simp add: demo_env_def demo_codec_faithful)
  from reconcile_writes_machine [OF demo_visits_all c run] run show ?thesis
    by (auto simp: demo_scope_def demo_defs ProviderIDPrefix_def)
qed

text \<open>C21: the address stored for a running VM is never one of the cluster's own IPv4
  addresses (API and ingress): it is an address the engine reported on an interface named
  eth, en or br-ex, outside their networks, or the empty string.\<close>

theorem address_is_not_a_cluster_address:
  assumes "visits_all order" and "distinct vips"
    and "findUsableInternalAddress order ms vmID vips s = (Val addr, s')"
  shows "addr = [] \<or> (\<exists>ip reported nic ips. addr = ip_String ip \<and>
     answers (oc_ReportedIPs (ms_ovirtClient ms) vmID) reported \<and> (nic, ips) \<in> set reported \<and>
     ip \<in> set ips \<and> nicRegex nic \<and> (\<forall>v \<in> set vips. parseIPv4 v \<noteq> Some ip))"
  using findUsable_Val [OF assms] unfolding usable_def by blast

lemma demo_ParseCIDR:
  "ParseCIDR ''10.0.0.1/32'' = Inr (v4InV6Prefix @ [10, 0, 0, 1],
     \<lparr>net_IP = ip_Mask (v4InV6Prefix @ [10, 0, 0, 1]) [255, 255, 255, 255],
      net_Mask = [255, 255, 255, 255]\<rparr>)"
  using ParseCIDR_32 [OF demo_parse_VIPs(1)] by simp

lemma findUsable_returns:
  assumes "exclude_addresses (order vips) (WithIncludedInterfacePattern nicRegex NewVMIPSearchParams) = Inr params"
    and "oc_ReportedIPs (ms_ovirtClient ms) vmID (world s) = (Inr reported, w)"
  shows "\<exists>addr s'. findUsableInternalAddress order ms vmID vips s = (Val addr, s')"
  using assms
  by (cases "first_address (visit order (filterReportedIPList reported params))")
     (simp_all add: findUsableInternalAddress_def)

lemma demo_findUsable_returns:
  "\<exists>addr s'. findUsableInternalAddress (\<lambda>ks. ks) (demo_scope demo_spec) ''id1'' [''10.0.0.1'']
      (demo_sys None None) = (Val addr, s')"
  by (rule findUsable_returns [where reported = "[(''eth0'', [v4InV6Prefix @ [10, 0, 0, 1],
        v4InV6Prefix @ [10, 0, 0, 7]])]" and w = "world (demo_sys None None)"])
     (simp_all add: demo_ParseCIDR demo_scope_def demo_engine_def)

theorem address_is_not_a_cluster_address_witness:
  "\<exists>addr s'. findUsableInternalAddress (\<lambda>ks. ks) (demo_scope demo_spec) ''id1'' [''10.0.0.1'']
      (demo_sys None None) = (Val addr, s') \<and> parseIPv4 ''10.0.0.1'' = Some (v4InV6Prefix @ [10, 0, 0, 1]) \<and>
     (addr = [] \<or> (\<exists>ip. addr = ip_String ip \<and> ip \<noteq> v4InV6Prefix @ [10, 0, 0, 1]))"
proof -
  have v: "visits_all (\<lambda>ks. ks)" by (simp add: visits_all_def)
  obtain addr s' where run: "findUsableInternalAddress (\<lambda>ks. ks) (demo_scope demo_spec) ''id1''
      [''10.0.0.1''] (demo_sys None None) = (Val addr, s')"
    using demo_findUsable_returns by blast
  from address_is_not_a_cluster_address [OF v _ run] run demo_parse_VIPs(1) show ?thesis by auto
qed

text \<open>When no reported address is usable, the lookup returns the empty string without an
  error (it wraps a nil error), and the machine is given the empty address.\<close>

lemma no_usable_address_is_success:
  assumes "exclude_addresses (order vips) (WithIncludedInterfacePattern nicRegex NewVMIPSearchParams) = Inr params"
    and "oc_ReportedIPs (ms_ovirtClient ms) vmID (world s) = (Inr reported, w)"
    and "filterReportedIPList reported params = []" and "order [] = []"
  shows "findUsableInternalAddress order ms vmID vips s = (Val [],
     s\<lparr>world := w, calls := calls s @ [(ReportedIPsCall vmID, True)]\<rparr>)"
  by (rule findUsable_none [OF assms])

theorem no_usable_address_is_success_witness:
  "fst (findUsableInternalAddress (\<lambda>ks. ks) ((demo_scope demo_spec)\<lparr>ms_ovirtClient :=
      demo_engine\<lparr>oc_ReportedIPs := \<lambda>v w. (Inr [(''lo'', [v4InV6Prefix @ [127, 0, 0, 1]])], w)\<rparr>\<rparr>)
      ''id1'' [''10.0.0.1''] (demo_sys None None)) = Val []"
  by (subst no_usable_address_is_success [where reported = "[(''lo'', [v4InV6Prefix @ [127, 0, 0, 1]])]"
        and w = "world (demo_sys None None)" and params = "WithExcludedRange
         \<lparr>net_IP = ip_Mask (v4InV6Prefix @ [10, 0, 0, 1]) [255, 255, 255, 255], net_Mask = [255, 255, 255, 255]\<rparr>
         (WithIncludedInterfacePattern nicRegex NewVMIPSearchParams)"])
     (simp_all add: demo_ParseCIDR filterReportedIPList_def excludeInterface_def
        WithExcludedRange_def WithIncludedInterfacePattern_def NewVMIPSearchParams_def nicRegex_def
        has_prefix_def)

text \<open>A VM in a transient state makes the reconciliation fail, so that it is tried again:
  only up, migrating and down are accepted.\<close>

lemma transient_state_fails:
  assumes "status \<notin> {VMStatusUp, VMStatusMigrating, VMStatusDown}"
  shows "reconcileMachineNetwork order ms status name vmID s =
     (Fail (ErrorString (''requeuing reconciliation, VM '' @ name @ '' state is '' @ status)), s)"
  using assms by (simp add: reconcileMachineNetwork_def)

theorem transient_state_fails_witness:
  "\<exists>e. fst (reconcileMachineNetwork (\<lambda>ks. ks) (demo_scope demo_spec) ''powering_up'' ''m1'' ''id1''
     (demo_sys None None)) = Fail e"
  by (subst transient_state_fails)
     (simp_all add: VMStatusUp_def VMStatusMigrating_def VMStatusDown_def)

text \<open>\<open>patchMachine\<close> keeps the status it was given: whatever the server answers to the first
  patch, the second one carries the status the Machine had before.\<close>

lemma patch_keeps_status:
  assumes "patchMachine ms s = (Val (), s')"
  shows "\<exists>m2. calls s' = calls s @ [(PatchMachineCall (ms_original ms) (machine s), True),
      (PatchMachineStatusCall (ms_original ms) m2, True)] \<and> mc_Status m2 = mc_Status (machine s)"
  by (rule patchMachine_Val [OF assms]) blast

end
