(* ===== verification/Cached_Client.thy ===== *)
theory Cached_Client
  imports Example_World
begin

text \<open>
  The cached oVirt client (\<open>pkg/ovirt/cachedClient.go\<close>, \<open>clientCreateFunc.go\<close>) and the two
  interfaces it provides: \<open>CachedOVirtClient\<close>, what the actuator, the controllers and the
  health check rely on, and \<open>CredentialUpdatable\<close>, what the client service relies on. Both
  are locales, interpreted at the end on the operations of this theory. A cached client is
  shared by pointer: it is an index into the field \<open>caches\<close> of the state. Its methods hold
  its lock from start to end, so each is one operation here; \<open>Client_Lock\<close> runs their
  statements concurrently and shows that this is what the lock achieves.
\<close>

section \<open>clientCreateFunc.go\<close>

text \<open>The TLS builder methods; each records its setting in the receiver.\<close>

definition TLS :: tls_config where
  "TLS = \<lparr>tls_insecure = False, tls_caCerts = [], tls_files = [], tls_system = False\<rparr>"

definition tls_for :: "Credentials \<Rightarrow> tls_config" where
  "tls_for creds =
     (if cr_Insecure creds then TLS\<lparr>tls_insecure := True\<rparr>
      else
        (let t1 = (if cr_CAFile creds \<noteq> [] then TLS\<lparr>tls_files := tls_files TLS @ [cr_CAFile creds]\<rparr>
                   else TLS);
             t2 = (if cr_CABundle creds \<noteq> [] then t1\<lparr>tls_caCerts := tls_caCerts t1 @ [cr_CABundle creds]\<rparr>
                   else t1) in
         t2\<lparr>tls_system := True\<rparr>))"

definition CreateNewOVirtClient :: "'w environment \<Rightarrow> 'w CreateOVirtClientFunc" where
  "CreateNewOVirtClient E creds =
     (case creds of
        None \<Rightarrow> (\<lambda>w. (Inl (ErrorString ''credentials are emtpy''), w))
      | Some c \<Rightarrow> env_NewWithVerify E (cr_URL c) (cr_Username c) (cr_Password c) (tls_for c))"

section \<open>cachedClient.go\<close>

definition NewCachedOVirtClient :: "string \<Rightarrow> 'w cachedOVirtClient" where
  "NewCachedOVirtClient name =
     \<lparr>cc_name = name, cc_credentials = None, cc_client = None, cc_clientCreateFunc = None\<rparr>"

definition read_cache :: "nat \<Rightarrow> ('w sys, 'w cachedOVirtClient) go" where
  "read_cache i = bind (gets caches) (\<lambda>cs. deref (if i < length cs then Some (cs ! i) else None))"

definition write_cache ::
  "nat \<Rightarrow> ('w cachedOVirtClient \<Rightarrow> 'w cachedOVirtClient) \<Rightarrow> ('w sys, unit) go" where
  "write_cache i f = modify (\<lambda>s. s\<lparr>caches := (caches s)[i := f (caches s ! i)]\<rparr>)"

definition WithCreateFunc :: "nat \<Rightarrow> 'w CreateOVirtClientFunc \<Rightarrow> ('w sys, unit) go" where
  "WithCreateFunc i createFunc = write_cache i (\<lambda>c. c\<lparr>cc_clientCreateFunc := Some createFunc\<rparr>)"

definition create_func :: "'w environment \<Rightarrow> 'w cachedOVirtClient \<Rightarrow> 'w CreateOVirtClientFunc" where
  "create_func E c = (case cc_clientCreateFunc c of None \<Rightarrow> CreateNewOVirtClient E | Some f \<Rightarrow> f)"

definition buildClient :: "'w environment \<Rightarrow> nat \<Rightarrow> ('w sys, unit) go" where
  "buildClient E i =
     bind (read_cache i) (\<lambda>c.
     bind (write_cache i (\<lambda>c. c\<lparr>cc_clientCreateFunc := Some (create_func E c)\<rparr>)) (\<lambda>_.
     bind (attempt (api (NewClientCall (cc_credentials c)) (create_func E c (cc_credentials c)))) (\<lambda>r.
     case r of
       Inl err \<Rightarrow>
         bind (write_cache i (\<lambda>c. c\<lparr>cc_client := None\<rparr>)) (\<lambda>_.
         fail (ErrorString (''failed to create oVirt client: '' @ error_string err)))
     | Inr newClient \<Rightarrow> write_cache i (\<lambda>c. c\<lparr>cc_client := Some newClient\<rparr>))))"

text \<open>The error of \<open>buildClient\<close> is dropped here; the next \<open>Get\<close> builds again.\<close>

definition SetCredentials :: "'w environment \<Rightarrow> nat \<Rightarrow> Credentials option \<Rightarrow> ('w sys, unit) go" where
  "SetCredentials E i newCredentials =
     bind (read_cache i) (\<lambda>_.
     bind (write_cache i (\<lambda>c. c\<lparr>cc_credentials := newCredentials\<rparr>)) (\<lambda>_.
     bind (attempt (buildClient E i)) (\<lambda>_. ret ())))"

definition needs_build :: "'w cachedOVirtClient \<Rightarrow> ('w sys, bool) go" where
  "needs_build c =
     (case cc_client c of
        None \<Rightarrow> ret True
      | Some cl \<Rightarrow> bind (attempt (api TestCall (oc_Test cl)))
          (\<lambda>r. ret (case r of Inl _ \<Rightarrow> True | Inr _ \<Rightarrow> False)))"

definition Get :: "'w environment \<Rightarrow> nat \<Rightarrow> ('w sys, 'w ovirt_client) go" where
  "Get E i =
     bind (read_cache i) (\<lambda>c.
     bind (needs_build c) (\<lambda>build.
     bind (if build then buildClient E i else ret ()) (\<lambda>_.
     bind (read_cache i) (\<lambda>c. deref (cc_client c)))))"

section \<open>The invariant\<close>

text \<open>
  A cached client that is present was built by the cache's creation function from the
  credentials the cache holds now.
\<close>

definition built_from :: "'w environment \<Rightarrow> 'w cachedOVirtClient \<Rightarrow> 'w ovirt_client \<Rightarrow> bool" where
  "built_from E c cl \<longleftrightarrow> answers (create_func E c (cc_credentials c)) cl"

definition cache_fresh :: "'w environment \<Rightarrow> 'w cachedOVirtClient \<Rightarrow> bool" where
  "cache_fresh E c \<longleftrightarrow> (case cc_client c of None \<Rightarrow> True | Some cl \<Rightarrow> built_from E c cl)"

definition caches_fresh :: "'w environment \<Rightarrow> 'w sys \<Rightarrow> bool" where
  "caches_fresh E s \<longleftrightarrow> list_all (cache_fresh E) (caches s)"

lemma cache_fresh_new: "cache_fresh E (NewCachedOVirtClient name)"
  by (simp add: cache_fresh_def NewCachedOVirtClient_def)

lemma read_cache_run:
  "read_cache i s = (if i < length (caches s) then (Val (caches s ! i), s) else (Crash NilDeref, s))"
  by (simp add: read_cache_def bind_def)

lemma write_cache_run [simp]:
  "write_cache i f s = (Val (), s\<lparr>caches := (caches s)[i := f (caches s ! i)]\<rparr>)"
  by (simp add: write_cache_def)

lemma create_func_idem [simp]:
  "create_func E (c\<lparr>cc_clientCreateFunc := Some (create_func E c)\<rparr>) = create_func E c"
  "create_func E (c\<lparr>cc_clientCreateFunc := Some f, cc_client := x\<rparr>) = f"
  by (simp_all add: create_func_def)

lemma create_func_cong [simp]:
  "create_func E (c\<lparr>cc_client := x\<rparr>) = create_func E c"
  "create_func E (c\<lparr>cc_credentials := y\<rparr>) = create_func E c"
  by (simp_all add: create_func_def)

text \<open>
  What \<open>buildClient\<close> does: it changes this cache only, keeps its credentials and its
  creation function, and leaves either a client the function built or none.
\<close>

definition same_source :: "'w environment \<Rightarrow> 'w cachedOVirtClient \<Rightarrow> 'w cachedOVirtClient \<Rightarrow> bool" where
  "same_source E c c' \<longleftrightarrow> cc_name c' = cc_name c \<and> cc_credentials c' = cc_credentials c \<and>
     create_func E c' = create_func E c"

lemma buildClient_run:
  assumes "i < length (caches s)" and "buildClient E i s = (r, s')"
  obtains (built) cl c' where "r = Val ()" and "caches s' = (caches s)[i := c']"
      and "same_source E (caches s ! i) c'" and "cc_client c' = Some cl" and "built_from E c' cl"
    | (failed) e c' where "r = Fail e" and "caches s' = (caches s)[i := c']"
      and "same_source E (caches s ! i) c'" and "cc_client c' = None"
proof -
  let ?c = "caches s ! i"
  let ?s1 = "s\<lparr>caches := (caches s)[i := ?c\<lparr>cc_clientCreateFunc := Some (create_func E ?c)\<rparr>]\<rparr>"
  obtain r1 s1 where 1: "api (NewClientCall (cc_credentials ?c)) (create_func E ?c (cc_credentials ?c)) ?s1
      = (r1, s1)" by fastforce
  have k: "caches s1 = caches ?s1" using preservesD [OF preserves_api(2) 1] .
  note run = assms(2) [unfolded buildClient_def]
  from 1 show thesis
  proof (cases rule: api_cases)
    case (answer cl)
    let ?c' = "?c\<lparr>cc_clientCreateFunc := Some (create_func E ?c), cc_client := Some cl\<rparr>"
    from run assms(1) 1 answer k have "r = Val ()" and "caches s' = (caches s)[i := ?c']"
      by (auto simp: read_cache_run)
    then show thesis
      by (rule built) (use answer(2) in \<open>simp_all add: same_source_def built_from_def\<close>)
  next
    case (error e)
    let ?c' = "?c\<lparr>cc_clientCreateFunc := Some (create_func E ?c), cc_client := None\<rparr>"
    from run assms(1) 1 error k obtain e' where "r = Fail e'" and "caches s' = (caches s)[i := ?c']"
      by (auto simp: read_cache_run)
    then show thesis
      by (rule failed) (simp_all add: same_source_def)
  qed
qed

lemma cache_fresh_build:
  "same_source E c c' \<Longrightarrow> cc_client c' = None \<Longrightarrow> cache_fresh E c'"
  "same_source E c c' \<Longrightarrow> cc_client c' = Some cl \<Longrightarrow> built_from E c' cl \<Longrightarrow> cache_fresh E c'"
  by (simp_all add: cache_fresh_def)

lemma same_source_refl [simp]: "same_source E c c"
  by (simp add: same_source_def)

text \<open>
  \<open>Get\<close> returns a client that is in the cache afterwards, or an error with none left
  there. The client was in the cache before, or has just been built.
\<close>

lemma needs_build_run:
  assumes "needs_build c s = (r, s')"
  obtains b where "r = Val b" and "cc_client c = None \<longrightarrow> b" and "caches s' = caches s"
proof (cases "cc_client c")
  case None
  with assms show thesis by (intro that) (auto simp: needs_build_def)
next
  case (Some cl)
  obtain r1 s1 where 1: "api TestCall (oc_Test cl) s = (r1, s1)" by fastforce
  have k: "caches s1 = caches s" using preservesD [OF preserves_api(2) 1] .
  from 1 show thesis
  proof (cases rule: api_cases)
    case answer
    with assms Some 1 k show thesis by (intro that [of False]) (auto simp: needs_build_def)
  next
    case error
    with assms Some 1 k show thesis by (intro that [of True]) (auto simp: needs_build_def)
  qed
qed

lemma Get_run:
  assumes "i < length (caches s)" and "Get E i s = (r, s')"
  obtains (client) cl c' where "r = Val cl" and "caches s' = (caches s)[i := c']"
      and "same_source E (caches s ! i) c'" and "cc_client c' = Some cl"
      and "built_from E c' cl \<or> cc_client (caches s ! i) = Some cl"
    | (failed) e c' where "r = Fail e" and "caches s' = (caches s)[i := c']"
      and "same_source E (caches s ! i) c'" and "cc_client c' = None"
proof -
  obtain r1 s1 where 1: "needs_build (caches s ! i) s = (r1, s1)" by fastforce
  then obtain b where b: "r1 = Val b" "cc_client (caches s ! i) = None \<longrightarrow> b" "caches s1 = caches s"
    by (rule needs_build_run)
  note run = assms(2) [unfolded Get_def]
  show thesis
  proof (cases b)
    case False
    with b obtain cl where cl: "cc_client (caches s ! i) = Some cl" by auto
    with run assms(1) 1 b False have "r = Val cl" and "caches s' = caches s"
      by (auto simp: read_cache_run)
    then show thesis using cl by (intro client [of cl "caches s ! i"]) simp_all
  next
    case True
    obtain r2 s2 where 2: "buildClient E i s1 = (r2, s2)" by fastforce
    from assms(1) b(3) have i1: "i < length (caches s1)" by simp
    from i1 2 show thesis
    proof (cases rule: buildClient_run)
      case (built cl c')
      with run assms(1) 1 2 b True have "r = Val cl" and "caches s' = (caches s)[i := c']"
        by (auto simp: read_cache_run)
      then show thesis using built b(3) by (intro client [of cl c']) simp_all
    next
      case (failed e c')
      with run assms(1) 1 2 b True have "r = Fail e" and "caches s' = (caches s)[i := c']"
        by (auto simp: read_cache_run)
      then show thesis using failed b(3) by (intro that(2)) simp_all
    qed
  qed
qed

text \<open>\<open>SetCredentials\<close> never fails and replaces the credentials of this cache only.\<close>

lemma SetCredentials_run:
  assumes "i < length (caches s)" and "SetCredentials E i creds s = (r, s')"
  obtains c' where "r = Val ()" and "caches s' = (caches s)[i := c']"
    and "cc_credentials c' = creds" and "create_func E c' = create_func E (caches s ! i)"
    and "cache_fresh E c'"
proof -
  let ?s1 = "s\<lparr>caches := (caches s)[i := (caches s ! i)\<lparr>cc_credentials := creds\<rparr>]\<rparr>"
  obtain r2 s2 where 2: "buildClient E i ?s1 = (r2, s2)" by fastforce
  from assms(1) have i1: "i < length (caches ?s1)" by simp
  note run = assms(2) [unfolded SetCredentials_def]
  from i1 2 show thesis
  proof (cases rule: buildClient_run)
    case (built cl c')
    with run assms(1) 2 have "r = Val ()" and "caches s' = (caches s)[i := c']"
      by (auto simp: read_cache_run)
    then show thesis using built assms(1)
      by (intro that [of c']) (auto simp: same_source_def cache_fresh_def)
  next
    case (failed e c')
    with run assms(1) 2 have "r = Val ()" and "caches s' = (caches s)[i := c']"
      by (auto simp: read_cache_run)
    then show thesis using failed assms(1)
      by (intro that [of c']) (auto simp: same_source_def cache_fresh_def)
  qed
qed

lemma caches_fresh_update:
  "caches_fresh E s \<Longrightarrow> caches s' = (caches s)[i := c'] \<Longrightarrow> cache_fresh E c' \<Longrightarrow> caches_fresh E s'"
  by (auto simp: caches_fresh_def list_all_iff dest!: subsetD [OF set_update_subset_insert])

lemma caches_fresh_nth: "caches_fresh E s \<Longrightarrow> i < length (caches s) \<Longrightarrow> cache_fresh E (caches s ! i)"
  by (simp add: caches_fresh_def list_all_length)

lemma built_from_source: "same_source E c c' \<Longrightarrow> built_from E c cl \<Longrightarrow> built_from E c' cl"
  by (simp add: built_from_def same_source_def)

text \<open>The calls of the cache: testing a client and building one.\<close>

definition upkeep :: "api_call \<Rightarrow> bool" where
  "upkeep c = (case c of TestCall \<Rightarrow> True | NewClientCall cr \<Rightarrow> True | _ \<Rightarrow> False)"

lemma emits_cache_access [emits_intros]:
  "emits A (read_cache i)" "emits A (write_cache i f)"
  unfolding read_cache_def write_cache_def by (auto intro!: emits_intros)

lemma emits_buildClient: "emits upkeep (buildClient E i)"
  unfolding buildClient_def by (auto intro!: emits_intros simp: upkeep_def)

lemma emits_Get: "emits upkeep (Get E i)"
  unfolding Get_def needs_build_def
  by (auto intro!: emits_intros emits_buildClient simp: upkeep_def)

lemma preserves_cache_access [preserves_intros]:
  "preserves machine (read_cache i)" "preserves machine (write_cache i f)"
  "preserves recorded (read_cache i)" "preserves recorded (write_cache i f)"
  "preserves credUpdateListener (read_cache i)" "preserves credUpdateListener (write_cache i f)"
  unfolding read_cache_def write_cache_def by (auto intro!: preserves_intros)

lemma preserves_cache_ops [preserves_intros]:
  "preserves machine (Get E i)" "preserves recorded (Get E i)" "preserves credUpdateListener (Get E i)"
  "preserves machine (SetCredentials E i c)" "preserves recorded (SetCredentials E i c)"
  "preserves credUpdateListener (SetCredentials E i c)"
  unfolding Get_def SetCredentials_def buildClient_def needs_build_def
  by (auto intro!: preserves_intros)

section \<open>The interface CachedOVirtClient\<close>

locale ovirt_client_source =
  fixes get :: "('w sys, 'w ovirt_client) go"
    and ready :: "'w sys \<Rightarrow> bool"
    and current :: "'w sys \<Rightarrow> 'w ovirt_client \<Rightarrow> bool"
  assumes get_current: "ready s \<Longrightarrow> get s = (Val C, s') \<Longrightarrow> current s' C"
    and get_ready: "ready s \<Longrightarrow> get s = (r, s') \<Longrightarrow> ready s'"
    and get_no_crash: "ready s \<Longrightarrow> get s \<noteq> (Crash p, s')"
    and get_machine: "preserves machine get"
    and get_recorded: "preserves recorded get"
    and get_calls: "emits upkeep get"
begin

lemma get_cases:
  assumes "ready s" and "get s = (r, s')"
  obtains (client) C where "r = Val C" and "current s' C" and "ready s'"
    | (error) e where "r = Fail e" and "ready s'"
  using assms get_current get_ready get_no_crash by (cases r) blast+

text \<open>An operation that gets a client and then uses it makes upkeep calls and its own.\<close>

lemma emits_with_client:
  assumes "\<And>C. emits A (k C)" and "\<And>c. upkeep c \<Longrightarrow> A c"
  shows "emits A (bind (map_err f get) k)"
  by (intro emits_bind emits_map_err emits_mono [OF get_calls] assms)

lemma with_client_Val:
  assumes "ready s" and "bind (map_err f get) k s = (Val x, s')"
  obtains C s1 where "current s1 C" and "ready s1" and "machine s1 = machine s"
    and "recorded s1 = recorded s" and "k C s1 = (Val x, s')"
proof -
  from assms(2) obtain C s1 where 1: "get s = (Val C, s1)" and 2: "k C s1 = (Val x, s')"
    by (auto elim!: bind_ValE)
  from get_current [OF assms(1) 1] get_ready [OF assms(1) 1] preservesD [OF get_machine 1]
    preservesD [OF get_recorded 1] 2 show thesis by (intro that)
qed

lemma without_client:
  assumes "get s = (Fail e, s1)"
  shows "bind (map_err f get) k s = (Fail (f e), s1)"
  using assms by simp

end

section \<open>The interface CredentialUpdatable\<close>

locale credential_updatable =
  fixes set_creds :: "'l \<Rightarrow> Credentials option \<Rightarrow> ('w sys, unit) go"
    and creds_of :: "'l \<Rightarrow> 'w sys \<Rightarrow> Credentials option"
    and known :: "'l \<Rightarrow> 'w sys \<Rightarrow> bool"
  assumes set_succeeds: "known l s \<Longrightarrow> set_creds l c s = (r, s') \<Longrightarrow> r = Val ()"
    and set_holds: "known l s \<Longrightarrow> set_creds l c s = (r, s') \<Longrightarrow> creds_of l s' = c"
    and set_frame: "known l s \<Longrightarrow> set_creds l c s = (r, s') \<Longrightarrow> l' \<noteq> l \<Longrightarrow> creds_of l' s' = creds_of l' s"
    and set_known: "known l s \<Longrightarrow> set_creds l c s = (r, s') \<Longrightarrow> known l' s' = known l' s"
begin

text \<open>Notifying a list of listeners reaches every one of them and nobody else.\<close>

lemma notify_all:
  assumes "\<forall>l \<in> set ls. known l s" and "for_each (\<lambda>l. set_creds l c) ls s = (r, s')"
  shows "r = Val () \<and> (\<forall>l. creds_of l s' = (if l \<in> set ls then c else creds_of l s)) \<and>
    (\<forall>l. known l s' = known l s)"
  using assms
proof (induction ls arbitrary: s)
  case Nil
  then show ?case by simp
next
  case (Cons l ls)
  obtain r1 s1 where 1: "set_creds l c s = (r1, s1)" by fastforce
  from Cons.prems(1) have k: "known l s" by simp
  from set_succeeds [OF k 1] have v: "r1 = Val ()" .
  from Cons.prems(1) set_known [OF k 1] have "\<forall>l \<in> set ls. known l s1" by simp
  with Cons.IH [of s1] Cons.prems(2) 1 v
  have "r = Val () \<and> (\<forall>l. creds_of l s' = (if l \<in> set ls then c else creds_of l s1)) \<and>
    (\<forall>l. known l s' = known l s1)" by simp
  with set_holds [OF k 1] set_frame [OF k 1] set_known [OF k 1] show ?case by auto
qed

end

section \<open>The cached client provides both\<close>

definition cache_ready :: "'w environment \<Rightarrow> nat \<Rightarrow> 'w sys \<Rightarrow> bool" where
  "cache_ready E i s \<longleftrightarrow> i < length (caches s) \<and> caches_fresh E s"

definition current_client :: "'w environment \<Rightarrow> nat \<Rightarrow> 'w sys \<Rightarrow> 'w ovirt_client \<Rightarrow> bool" where
  "current_client E i s C \<longleftrightarrow>
     i < length (caches s) \<and> cc_client (caches s ! i) = Some C \<and> built_from E (caches s ! i) C"

lemma Get_ready:
  assumes "cache_ready E i s" and "Get E i s = (r, s')"
  shows "cache_ready E i s'" and "r = Val C \<Longrightarrow> current_client E i s' C" and "r \<noteq> Crash p"
proof -
  from assms(1) have i: "i < length (caches s)" and f: "caches_fresh E s"
    by (simp_all add: cache_ready_def)
  have all: "cache_ready E i s' \<and> (r = Val C \<longrightarrow> current_client E i s' C) \<and> r \<noteq> Crash p"
    using i assms(2)
  proof (cases rule: Get_run)
    case (client cl c')
    have b: "built_from E c' cl"
      using client(3,5) caches_fresh_nth [OF f i] by (auto simp: cache_fresh_def intro: built_from_source)
    with client i f show ?thesis
      by (auto simp: cache_ready_def current_client_def cache_fresh_def intro: caches_fresh_update)
  next
    case (failed e c')
    with i f show ?thesis
      by (auto simp: cache_ready_def cache_fresh_def intro: caches_fresh_update)
  qed
  then show "cache_ready E i s'" and "r = Val C \<Longrightarrow> current_client E i s' C" and "r \<noteq> Crash p"
    by auto
qed

interpretation cached: ovirt_client_source "Get E i" "cache_ready E i" "current_client E i" for E i
  by unfold_locales (auto dest: Get_ready intro: preserves_cache_ops emits_Get)

definition credentials_of :: "nat \<Rightarrow> 'w sys \<Rightarrow> Credentials option" where
  "credentials_of i s = (if i < length (caches s) then cc_credentials (caches s ! i) else None)"

lemma SetCredentials_updates:
  assumes "i < length (caches s)" and "SetCredentials E i c s = (r, s')"
  shows "r = Val () \<and> credentials_of i s' = c \<and>
    (j \<noteq> i \<longrightarrow> credentials_of j s' = credentials_of j s) \<and> length (caches s') = length (caches s)"
  by (rule SetCredentials_run [OF assms]) (use assms(1) in \<open>auto simp: credentials_of_def\<close>)

interpretation updatable: credential_updatable "SetCredentials E" credentials_of
    "\<lambda>i s. i < length (caches s)" for E
  by unfold_locales (auto dest: SetCredentials_updates)

lemma SetCredentials_fresh:
  assumes "caches_fresh E s" and "i < length (caches s)" and "SetCredentials E i c s = (r, s')"
  shows "caches_fresh E s'"
  by (rule SetCredentials_run [OF assms(2,3)]) (use assms(1) in \<open>auto intro: caches_fresh_update\<close>)

section \<open>Properties\<close>

text \<open>From a state where no cache holds a stale client, \<open>Get\<close> returns a client that the
  cache's creation function built from the credentials the cache holds at that moment, or
  an error; the state stays free of stale clients and \<open>Get\<close> cannot panic.\<close>

lemma get_returns_current_client:
  assumes "cache_ready E i s" and "Get E i s = (r, s')"
  shows "cache_ready E i s' \<and>
     (case r of Val C \<Rightarrow> current_client E i s' C | Fail e \<Rightarrow> True | Crash q \<Rightarrow> False)"
  by (rule cached.get_cases [OF assms]) simp_all

definition demo_cached :: "demo_world sys" where
  "demo_cached = (demo_sys None None)\<lparr>caches := [(NewCachedOVirtClient ''node'')
     \<lparr>cc_credentials := Some demo_credentials\<rparr>]\<rparr>"

lemma demo_cache_ready: "cache_ready demo_env 0 demo_cached"
  by (simp add: cache_ready_def caches_fresh_def cache_fresh_def demo_cached_def NewCachedOVirtClient_def)

theorem get_returns_current_client_witness:
  "\<exists>r s'. Get demo_env 0 demo_cached = (r, s') \<and> cache_ready demo_env 0 s'"
  using get_returns_current_client [OF demo_cache_ready] by (metis prod.exhaust)

text \<open>A \<open>Get\<close> that fails leaves no client in the cache and keeps its credentials, so that
  the next one builds a client again instead of returning an old one.\<close>

lemma failed_get_clears_client:
  assumes "i < length (caches s)" and "Get E i s = (Fail e, s')"
  shows "cc_client (caches s' ! i) = None \<and> cc_credentials (caches s' ! i) = cc_credentials (caches s ! i)"
  by (rule Get_run [OF assms]) (use assms(1) in \<open>simp_all add: same_source_def\<close>)

theorem failed_get_clears_client_witness:
  "\<exists>e s'. Get (demo_env\<lparr>env_NewWithVerify := \<lambda>url u p t w. (Inl (newError EAccessDenied ''denied''), w)\<rparr>) 0
     demo_cached = (Fail e, s') \<and> cc_client (caches s' ! 0) = None"
proof -
  have l: "0 < length (caches demo_cached)" by (simp add: demo_cached_def)
  obtain e s' where run: "Get (demo_env\<lparr>env_NewWithVerify :=
      \<lambda>url u p t w. (Inl (newError EAccessDenied ''denied''), w)\<rparr>) 0 demo_cached = (Fail e, s')"
    by (simp add: Get_def needs_build_def buildClient_def read_cache_run demo_cached_def create_func_def
        CreateNewOVirtClient_def NewCachedOVirtClient_def demo_sys_def)
  from failed_get_clears_client [OF l run] run show ?thesis by blast
qed

text \<open>The TLS settings of a client trust an unverified engine only when the credentials say
  so; otherwise the system's certificates are used, with the CA file and the CA bundle
  exactly when they are given.\<close>

lemma tls_settings:
  "tls_insecure (tls_for c) = cr_Insecure c \<and> tls_system (tls_for c) = (\<not> cr_Insecure c) \<and>
   tls_files (tls_for c) = (if cr_Insecure c \<or> cr_CAFile c = [] then [] else [cr_CAFile c]) \<and>
   tls_caCerts (tls_for c) = (if cr_Insecure c \<or> cr_CABundle c = [] then [] else [cr_CABundle c])"
  by (simp add: tls_for_def TLS_def Let_def)

end
