(* ===== verification/Client_Service.thy ===== *)
theory Client_Service
  imports Cached_Client
begin

text \<open>
  The credential service (\<open>pkg/ovirt/clientService.go\<close>, \<open>file.go\<close>): it hands out cached
  clients, each registered as a listener, and on every update of the watched secret parses
  the credentials, writes the CA bundle to a file and gives the credentials to all
  listeners. The listener slice is the field \<open>credUpdateListener\<close> of the state; the informer
  and the goroutines that feed the channel are the source of the event sequence here, and
  have a theory of their own, \<open>Service_Run\<close>.
\<close>

section \<open>file.go\<close>

definition writeCAToTempFile :: "'w environment \<Rightarrow> string \<Rightarrow> ('w sys, string) go" where
  "writeCAToTempFile E content =
     bind (api CreateTempCall (env_CreateTemp E)) (\<lambda>f.
     bind (api (WriteFileCall f content) (env_Write E f content)) (\<lambda>_.
     ret f))"

definition writeCA :: "'w environment \<Rightarrow> Credentials \<Rightarrow> ('w sys, Credentials) go" where
  "writeCA E creds =
     (if cr_CABundle creds \<noteq> [] then
        bind (writeCAToTempFile E (cr_CABundle creds)) (\<lambda>caFilePath.
        ret (creds\<lparr>cr_CAFile := caFilePath\<rparr>))
      else ret creds)"

section \<open>Listeners\<close>

definition AddListener :: "nat \<Rightarrow> ('w sys, unit) go" where
  "AddListener updatable =
     modify (\<lambda>s. s\<lparr>credUpdateListener := credUpdateListener s @ [updatable]\<rparr>)"

definition AddListeners :: "nat list \<Rightarrow> ('w sys, unit) go" where
  "AddListeners updatables = for_each AddListener updatables"

text \<open>Allocating a cached client: its pointer is the next index.\<close>

definition NewCachedClient :: "string \<Rightarrow> ('w sys, nat) go" where
  "NewCachedClient name =
     bind (gets (\<lambda>s. length (caches s))) (\<lambda>newClient.
     bind (modify (\<lambda>s. s\<lparr>caches := caches s @ [NewCachedOVirtClient name]\<rparr>)) (\<lambda>_.
     bind (AddListener newClient) (\<lambda>_.
     ret newClient)))"

section \<open>The update loop\<close>

text \<open>
  What the loop's \<open>select\<close> receives: a secret, an object of another type, or the end of the
  context. One round returns whether the loop goes on; every error ends the round only.
\<close>

datatype cred_event = SecretObj secret_data | OtherObj | CtxDone

definition update_listeners :: "'w environment \<Rightarrow> secret_data \<Rightarrow> ('w sys, unit) go" where
  "update_listeners E secret =
     (case FromK8sSecret secret of
        Inl err \<Rightarrow> ret ()
      | Inr creds \<Rightarrow>
          bind (attempt (writeCA E creds)) (\<lambda>r.
          case r of
            Inl err \<Rightarrow> ret ()
          | Inr creds' \<Rightarrow>
              bind (gets credUpdateListener) (\<lambda>ls.
              for_each (\<lambda>l. SetCredentials E l (Some creds')) ls)))"

definition process_event :: "'w environment \<Rightarrow> cred_event \<Rightarrow> ('w sys, bool) go" where
  "process_event E ev =
     (case ev of
        SecretObj secret \<Rightarrow> bind (update_listeners E secret) (\<lambda>_. ret True)
      | OtherObj \<Rightarrow> ret True
      | CtxDone \<Rightarrow> ret False)"

primrec processCredentialUpdate :: "'w environment \<Rightarrow> cred_event list \<Rightarrow> ('w sys, unit) go" where
  "processCredentialUpdate E [] = ret ()"
| "processCredentialUpdate E (ev # evs) =
     bind (process_event E ev) (\<lambda>continue.
     if continue then processCredentialUpdate E evs else ret ())"

section \<open>The invariant of the service\<close>

text \<open>
  Every listener is a cached client, and no cached client holds a client built from other
  credentials than its own.
\<close>

definition service_inv :: "'w environment \<Rightarrow> 'w sys \<Rightarrow> bool" where
  "service_inv E s \<longleftrightarrow> caches_fresh E s \<and> (\<forall>l \<in> set (credUpdateListener s). l < length (caches s))"

definition all_registered :: "'w sys \<Rightarrow> bool" where
  "all_registered s \<longleftrightarrow> (\<forall>i < length (caches s). i \<in> set (credUpdateListener s))"

lemma NewCachedClient_run:
  "NewCachedClient name s = (Val (length (caches s)),
     s\<lparr>caches := caches s @ [NewCachedOVirtClient name],
       credUpdateListener := credUpdateListener s @ [length (caches s)]\<rparr>)"
  by (simp add: NewCachedClient_def AddListener_def bind_def)

lemma service_inv_NewCachedClient:
  assumes "service_inv E s" and "NewCachedClient name s = (r, s')" shows "service_inv E s'"
  using assms
  by (auto simp: NewCachedClient_run service_inv_def caches_fresh_def cache_fresh_new
      less_Suc_eq)

lemma all_registered_NewCachedClient:
  assumes "all_registered s" and "NewCachedClient name s = (r, s')" shows "all_registered s'"
  using assms by (auto simp: NewCachedClient_run all_registered_def less_Suc_eq)

lemma preserves_writeCA [preserves_intros]:
  "preserves caches (writeCA E creds)" "preserves credUpdateListener (writeCA E creds)"
  "preserves machine (writeCA E creds)" "preserves recorded (writeCA E creds)"
  unfolding writeCA_def writeCAToTempFile_def by (auto intro!: preserves_intros)

lemma no_crash_writeCA [no_crash_intros]: "no_crash (writeCA E creds)"
  unfolding writeCA_def writeCAToTempFile_def by (intro no_crash_intros)

lemma service_inv_caches_only:
  "caches s' = caches s \<Longrightarrow> credUpdateListener s' = credUpdateListener s \<Longrightarrow>
     service_inv E s' = service_inv E s"
  by (simp add: service_inv_def caches_fresh_def)

lemma notify_fresh:
  assumes "caches_fresh E s" and "\<forall>l \<in> set ls. l < length (caches s)"
    and "for_each (\<lambda>l. SetCredentials E l c) ls s = (r, s')"
  shows "caches_fresh E s' \<and> length (caches s') = length (caches s)"
  using assms
proof (induction ls arbitrary: s)
  case Nil
  then show ?case by simp
next
  case (Cons l ls)
  obtain r1 s1 where 1: "SetCredentials E l c s = (r1, s1)" by fastforce
  from Cons.prems(2) have l: "l < length (caches s)" by simp
  note u = SetCredentials_updates [OF l 1, of 0] SetCredentials_fresh [OF Cons.prems(1) l 1]
  from u Cons.prems(2,3) 1 have "for_each (\<lambda>l. SetCredentials E l c) ls s1 = (r, s')"
    "\<forall>l \<in> set ls. l < length (caches s1)" by simp_all
  with Cons.IH [of s1] u show ?case by simp
qed

text \<open>One update, by what becomes of the secret.\<close>

lemma update_listeners_run:
  assumes "service_inv E s" and "update_listeners E secret s = (r, s')"
  obtains (ignored) "r = Val ()" and "caches s' = caches s"
      and "credUpdateListener s' = credUpdateListener s"
    | (updated) creds creds' s1 where "r = Val ()" and "FromK8sSecret secret = Inr creds"
      and "writeCA E creds s = (Val creds', s1)"
      and "\<forall>i. credentials_of i s' =
         (if i \<in> set (credUpdateListener s) then Some creds' else credentials_of i s)"
      and "caches_fresh E s'" and "length (caches s') = length (caches s)"
      and "credUpdateListener s' = credUpdateListener s"
proof (cases "FromK8sSecret secret")
  case (Inl err)
  with assms(2) show thesis by (intro ignored) (auto simp: update_listeners_def)
next
  case (Inr creds)
  obtain r1 s1 where 1: "writeCA E creds s = (r1, s1)" by fastforce
  note k = preservesD [OF preserves_writeCA(1) 1] preservesD [OF preserves_writeCA(2) 1]
  show thesis
  proof (cases r1)
    case (Fail e)
    with assms(2) Inr 1 k show thesis by (intro ignored) (auto simp: update_listeners_def)
  next
    case (Crash p)
    with 1 show thesis by (auto dest: no_crashD [OF no_crash_writeCA])
  next
    case (Val creds')
    with assms(2) Inr 1 have f: "for_each (\<lambda>l. SetCredentials E l (Some creds')) (credUpdateListener s1) s1
        = (r, s')" by (auto simp: update_listeners_def)
    from assms(1) k have v: "\<forall>l \<in> set (credUpdateListener s1). l < length (caches s1)" "caches_fresh E s1"
      by (simp_all add: service_inv_def caches_fresh_def)
    have same: "credentials_of i s1 = credentials_of i s" for i using k by (simp add: credentials_of_def)
    have "credUpdateListener s' = credUpdateListener s1"
      using f by (rule preservesD [rotated]) (intro preserves_intros)
    with updatable.notify_all [OF v(1) f] notify_fresh [OF v(2,1) f] Val 1 Inr k same show thesis
      by (intro updated) auto
  qed
qed

lemma service_inv_process_event:
  assumes "service_inv E s" and "process_event E ev s = (r, s')"
  shows "service_inv E s' \<and> length (caches s') = length (caches s)
     \<and> credUpdateListener s' = credUpdateListener s \<and> (\<exists>b. r = Val b)"
proof (cases ev)
  case (SecretObj secret)
  obtain r1 s1 where 1: "update_listeners E secret s = (r1, s1)" by fastforce
  from assms(1) 1 show ?thesis
  proof (cases rule: update_listeners_run)
    case ignored
    with assms SecretObj 1 service_inv_caches_only [of s' s E] show ?thesis
      by (auto simp: process_event_def)
  next
    case updated
    with assms SecretObj 1 show ?thesis by (auto simp: process_event_def service_inv_def)
  qed
qed (use assms in \<open>auto simp: process_event_def\<close>)

section \<open>All behaviours of the service\<close>

text \<open>
  The steps of the running program that concern the service, in any interleaving: handing
  out a client, one round of the update loop, a \<open>Get\<close> by any owner, and anything that
  leaves the caches and the listeners alone.
\<close>

inductive service_step :: "'w environment \<Rightarrow> 'w sys \<Rightarrow> 'w sys \<Rightarrow> bool" for E where
  new_client: "NewCachedClient name s = (r, s') \<Longrightarrow> service_step E s s'"
| update: "process_event E ev s = (r, s') \<Longrightarrow> service_step E s s'"
| get: "i < length (caches s) \<Longrightarrow> Get E i s = (r, s') \<Longrightarrow> service_step E s s'"
| other: "caches s' = caches s \<Longrightarrow> credUpdateListener s' = credUpdateListener s \<Longrightarrow> service_step E s s'"

inductive service_reachable :: "'w environment \<Rightarrow> 'w sys \<Rightarrow> bool" for E where
  boot: "caches s = [] \<Longrightarrow> credUpdateListener s = [] \<Longrightarrow> service_reachable E s"
| step: "service_reachable E s \<Longrightarrow> service_step E s s' \<Longrightarrow> service_reachable E s'"

lemma Get_length:
  assumes "i < length (caches s)" and "Get E i s = (r, s')"
  shows "length (caches s') = length (caches s)"
  by (rule Get_run [OF assms]) simp_all

lemma service_step_inv:
  assumes "service_step E s s'" and "service_inv E s" and "all_registered s"
  shows "service_inv E s' \<and> all_registered s'"
  using assms
proof (induction rule: service_step.induct)
  case (new_client name s r s')
  then show ?case by (blast intro: service_inv_NewCachedClient all_registered_NewCachedClient)
next
  case (update ev s r s')
  with service_inv_process_event [OF update(2,1)] show ?case by (simp add: all_registered_def)
next
  case (get i s r s')
  have "cache_ready E i s" using get by (simp add: cache_ready_def service_inv_def)
  from cached.get_ready [OF this get(2)] have "caches_fresh E s'" by (simp add: cache_ready_def)
  moreover have "credUpdateListener s' = credUpdateListener s"
    using get(2) by (rule preservesD [rotated]) (rule preserves_cache_ops)
  ultimately show ?case using get Get_length [OF get(1,2)]
    by (simp add: service_inv_def all_registered_def)
next
  case (other s' s)
  then show ?case by (simp add: service_inv_def all_registered_def caches_fresh_def)
qed

lemma service_reachable_inv:
  "service_reachable E s \<Longrightarrow> service_inv E s \<and> all_registered s"
proof (induction rule: service_reachable.induct)
  case (boot s)
  then show ?case by (simp add: service_inv_def all_registered_def caches_fresh_def)
next
  case (step s s')
  then show ?case using service_step_inv by blast
qed

section \<open>Properties\<close>

text \<open>In every reachable state of the service, under any interleaving of new clients,
  credential updates, \<open>Get\<close> calls and other activity, no cached client is stale (each was
  built from the credentials its cache holds now), every listener is a cached client and
  every cached client is a listener.\<close>

lemma no_stale_client_reachable:
  assumes "service_reachable E s"
  shows "caches_fresh E s \<and> set (credUpdateListener s) = {..<length (caches s)}"
  using service_reachable_inv [OF assms] by (auto simp: service_inv_def all_registered_def)

lemma demo_reachable:
  "service_reachable demo_env ((demo_sys None None)\<lparr>caches := [NewCachedOVirtClient ''node''],
     credUpdateListener := [0]\<rparr>)"
  by (rule service_reachable.step [OF service_reachable.boot [of "demo_sys None None"] service_step.new_client])
     (simp_all add: demo_sys_def NewCachedClient_run)

theorem no_stale_client_reachable_witness:
  "caches_fresh demo_env ((demo_sys None None)\<lparr>caches := [NewCachedOVirtClient ''node''],
     credUpdateListener := [0]\<rparr>)"
  using no_stale_client_reachable [OF demo_reachable] by blast

text \<open>An update with a secret that parses and whose CA bundle could be stored gives the same
  credentials, with the path of the stored bundle, to every cached client that listens.\<close>

lemma update_reaches_all_listeners:
  assumes "service_inv E s" and "FromK8sSecret secret = Inr creds"
    and "writeCA E creds s = (Val creds', s1)" and "process_event E (SecretObj secret) s = (r, s')"
  shows "r = Val True \<and> (\<forall>i \<in> set (credUpdateListener s). credentials_of i s' = Some creds') \<and>
     creds' = creds\<lparr>cr_CAFile := cr_CAFile creds'\<rparr>"
proof -
  obtain r0 s0 where 0: "update_listeners E secret s = (r0, s0)" by fastforce
  have ls: "credUpdateListener s1 = credUpdateListener s"
    using preservesD [OF preserves_writeCA(2) assms(3)] .
  from 0 assms(2,3) ls have f: "for_each (\<lambda>l. SetCredentials E l (Some creds')) (credUpdateListener s) s1
      = (r0, s0)" by (simp add: update_listeners_def)
  have "\<forall>l \<in> set (credUpdateListener s). l < length (caches s1)"
    using assms(1) preservesD [OF preserves_writeCA(1) assms(3)] by (simp add: service_inv_def)
  note n = updatable.notify_all [OF this f]
  with assms(4) 0 have "r = Val True" "s' = s0" by (auto simp: process_event_def)
  moreover have "creds' = creds\<lparr>cr_CAFile := cr_CAFile creds'\<rparr>"
    using assms(3) by (auto simp: writeCA_def elim!: bind_ValE split: if_splits)
  ultimately show ?thesis using n by auto
qed

lemma demo_update:
  "\<exists>r s'. process_event demo_env (SecretObj demo_secret)
      ((demo_sys None None)\<lparr>caches := [NewCachedOVirtClient ''node''], credUpdateListener := [0]\<rparr>) = (r, s') \<and>
     credentials_of 0 s' = Some (demo_credentials\<lparr>cr_CAFile := ''/tmp/ovirt-ca-bundle1''\<rparr>)"
proof -
  let ?s = "(demo_sys None None)\<lparr>caches := [NewCachedOVirtClient ''node''], credUpdateListener := [0]\<rparr>"
  obtain s1 where w: "writeCA demo_env demo_credentials ?s
      = (Val (demo_credentials\<lparr>cr_CAFile := ''/tmp/ovirt-ca-bundle1''\<rparr>), s1)"
    by (simp add: writeCA_def writeCAToTempFile_def demo_env_def demo_credentials_def demo_sys_def)
  have i: "service_inv demo_env ?s" using service_reachable_inv [OF demo_reachable] by blast
  obtain r s' where run: "process_event demo_env (SecretObj demo_secret) ?s = (r, s')"
    by fastforce
  from update_reaches_all_listeners [OF i demo_secret_parses w run] run show ?thesis by auto
qed

definition bad_update :: "'w environment \<Rightarrow> cred_event \<Rightarrow> 'w sys \<Rightarrow> bool" where
  "bad_update E ev s = (case ev of
       SecretObj secret \<Rightarrow> (case FromK8sSecret secret of
            Inl err \<Rightarrow> True
          | Inr creds \<Rightarrow> (case fst (writeCA E creds s) of Fail e \<Rightarrow> True | _ \<Rightarrow> False))
     | OtherObj \<Rightarrow> True
     | CtxDone \<Rightarrow> False)"

text \<open>An event that is no secret, a secret that does not parse or one whose CA bundle cannot
  be stored changes no cached client, and the loop goes on.\<close>

lemma bad_update_ignored:
  assumes "service_inv E s" and "process_event E ev s = (r, s')" and "bad_update E ev s"
  shows "r = Val True \<and> caches s' = caches s"
proof (cases ev)
  case (SecretObj secret)
  obtain r0 s0 where 0: "update_listeners E secret s = (r0, s0)" by fastforce
  from assms(1) 0 have "r0 = Val () \<and> caches s0 = caches s"
    by (cases rule: update_listeners_run) (use assms(3) SecretObj in \<open>auto simp: bad_update_def\<close>)
  with assms(2) SecretObj 0 show ?thesis by (auto simp: process_event_def)
qed (use assms(2,3) in \<open>auto simp: process_event_def bad_update_def\<close>)

theorem bad_update_ignored_witness:
  "\<exists>s'. process_event demo_env (SecretObj (Map.empty(''ovirt_insecure'' \<mapsto> ''maybe'')))
      ((demo_sys None None)\<lparr>caches := [NewCachedOVirtClient ''node''], credUpdateListener := [0]\<rparr>)
      = (Val True, s') \<and> caches s' = [NewCachedOVirtClient ''node'']"
proof -
  let ?s = "(demo_sys None None)\<lparr>caches := [NewCachedOVirtClient ''node''], credUpdateListener := [0]\<rparr>"
  let ?ev = "SecretObj (Map.empty(''ovirt_insecure'' \<mapsto> ''maybe''))"
  obtain r s' where run: "process_event demo_env ?ev ?s = (r, s')" by fastforce
  have i: "service_inv demo_env ?s" using service_reachable_inv [OF demo_reachable] by blast
  have "bad_update demo_env ?ev ?s"
    by (simp add: bad_update_def FromK8sSecret_def ParseBool_def map_index_def secret_fields)
  from bad_update_ignored [OF i run this] run show ?thesis by simp
qed

section \<open>From the secret to the engine\<close>

text \<open>The file system lets the service store CA bundles.\<close>

definition files_work :: "'w environment \<Rightarrow> bool" where
  "files_work E \<longleftrightarrow> (\<forall>w. \<exists>f w'. env_CreateTemp E w = (Inr f, w')) \<and>
     (\<forall>f content w. \<exists>w'. env_Write E f content w = (Inr (), w'))"

lemma notify_keeps_create_func:
  assumes "\<forall>l \<in> set ls. l < length (caches s)" and "for_each (\<lambda>l. SetCredentials E l c) ls s = (r, s')"
  shows "create_func E (caches s' ! i) = create_func E (caches s ! i)"
  using assms
proof (induction ls arbitrary: s)
  case (Cons l ls)
  obtain r1 s1 where 1: "SetCredentials E l c s = (r1, s1)" by fastforce
  from Cons.prems(1) have l: "l < length (caches s)" by simp
  from l 1 obtain c' where "r1 = Val ()" "caches s1 = (caches s)[l := c']"
    "create_func E c' = create_func E (caches s ! l)" by (rule SetCredentials_run)
  moreover from this have "create_func E (caches s1 ! i) = create_func E (caches s ! i)"
    using l by (cases "i = l") simp_all
  ultimately show ?case using Cons.IH [of s1] Cons.prems 1 by simp
qed simp

lemma process_event_keeps_create_func:
  assumes "service_inv E s" and "process_event E (SecretObj secret) s = (r, s')"
  shows "create_func E (caches s' ! i) = create_func E (caches s ! i)"
proof -
  obtain r0 where 0: "update_listeners E secret s = (r0, s')"
    using assms(2) by (cases "update_listeners E secret s") (auto simp: process_event_def bind_def split: res.splits)
  from assms(1) 0 show ?thesis
  proof (cases rule: update_listeners_run)
    case (updated creds creds' s1)
    note k = preservesD [OF preserves_writeCA(1) updated(3)] preservesD [OF preserves_writeCA(2) updated(3)]
    from 0 updated(2,3) have f: "for_each (\<lambda>l. SetCredentials E l (Some creds')) (credUpdateListener s1) s1 = (r0, s')"
      by (simp add: update_listeners_def)
    have "\<forall>l \<in> set (credUpdateListener s1). l < length (caches s1)" using assms(1) k by (simp add: service_inv_def)
    from notify_keeps_create_func [OF this f] k show ?thesis by simp
  qed simp
qed

lemma writeCA_run:
  assumes "writeCA E creds s = (Val creds', s')"
  shows "\<exists>path. creds' = creds\<lparr>cr_CAFile := path\<rparr> \<and> (cr_CABundle creds = [] \<longrightarrow> path = cr_CAFile creds) \<and>
    (cr_CABundle creds \<noteq> [] \<longrightarrow> (\<exists>w. env_CreateTemp E (world s) = (Inr path, w)) \<and>
       (WriteFileCall path (cr_CABundle creds), True) \<in> set (calls s'))"
  using assms
  by (auto simp: writeCA_def writeCAToTempFile_def api_Val_iff elim!: bind_ValE split: if_splits)

lemma writeCA_stores:
  assumes "files_work E \<or> cr_CABundle creds = []" shows "\<exists>creds' s'. writeCA E creds s = (Val creds', s')"
proof (cases "cr_CABundle creds = []")
  case False
  with assms have f: "files_work E" by simp
  then obtain p w where 1: "env_CreateTemp E (world s) = (Inr p, w)" unfolding files_work_def by blast
  from f obtain w' where "env_Write E p (cr_CABundle creds) w = (Inr (), w')" unfolding files_work_def by blast
  with 1 False show ?thesis by (simp add: writeCA_def writeCAToTempFile_def api_def bind_def)
qed (simp add: writeCA_def)

text \<open>C33: a secret configures the engine's client of every component that listens: once the loop has
  processed a secret whose insecure flag parses (and whose CA bundle, if it has one, can be
  stored), a client the component gets was made by the engine's library from the secret's
  \<open>ovirt_url\<close>, \<open>ovirt_username\<close> and \<open>ovirt_password\<close>, without checks of the certificate when
  \<open>ovirt_insecure\<close> says so, and else trusting the system's certificates, \<open>ovirt_ca_bundle\<close>, if
  there is one, and a file: the temporary file the bundle was written to, or without a
  bundle the one of \<open>ovirt_cafile\<close>, if that is given.\<close>

theorem secret_configures_engine_client:
  assumes "service_inv E s" and "i \<in> set (credUpdateListener s)"
    and "create_func E (caches s ! i) = CreateNewOVirtClient E"
    and "ParseBool (map_index secret ''ovirt_insecure'') = Inr insecure"
    and "bundle = map_index secret ''ovirt_ca_bundle''" and "files_work E \<or> bundle = []"
    and "process_event E (SecretObj secret) s = (r, s1)" and "Get E i s1 = (Val C, s2)"
  shows "\<exists>path. answers (env_NewWithVerify E (map_index secret ''ovirt_url'')
        (map_index secret ''ovirt_username'') (map_index secret ''ovirt_password'')
        \<lparr>tls_insecure = insecure, tls_caCerts = (if insecure \<or> bundle = [] then [] else [bundle]),
         tls_files = (if insecure \<or> path = [] then [] else [path]), tls_system = (\<not> insecure)\<rparr>) C \<and>
     (if bundle = [] then path = map_index secret ''ovirt_cafile''
      else (\<exists>w. env_CreateTemp E (world s) = (Inr path, w)) \<and> (WriteFileCall path bundle, True) \<in> set (calls s1))"
proof -
  let ?creds = "\<lparr>cr_URL = map_index secret ''ovirt_url'', cr_Username = map_index secret ''ovirt_username'',
     cr_Password = map_index secret ''ovirt_password'', cr_CAFile = map_index secret ''ovirt_cafile'',
     cr_Insecure = insecure, cr_CABundle = bundle\<rparr>"
  have p: "FromK8sSecret secret = Inr ?creds"
    using assms(4,5) by (simp add: FromK8sSecret_def secret_fields)
  from writeCA_stores [of E ?creds s] assms(6) obtain creds' t where w: "writeCA E ?creds s = (Val creds', t)" by auto
  from writeCA_run [OF w] obtain path where path: "creds' = ?creds\<lparr>cr_CAFile := path\<rparr>"
    "bundle = [] \<longrightarrow> path = map_index secret ''ovirt_cafile''"
    "bundle \<noteq> [] \<longrightarrow> (\<exists>w. env_CreateTemp E (world s) = (Inr path, w)) \<and> (WriteFileCall path bundle, True) \<in> set (calls t)"
    by auto
  obtain r1 where f: "for_each (\<lambda>l. SetCredentials E l (Some creds')) (credUpdateListener t) t = (r1, s1)"
    using assms(7) p w by (cases "for_each (\<lambda>l. SetCredentials E l (Some creds')) (credUpdateListener t) t")
      (auto simp: process_event_def update_listeners_def bind_def split: res.splits)
  note k = preservesD [OF preserves_writeCA(1) w] preservesD [OF preserves_writeCA(2) w]
  have cred: "credentials_of i s1 = Some creds'"
    using update_reaches_all_listeners [OF assms(1) p w assms(7)] assms(2) by blast
  have func: "create_func E (caches s1 ! i) = CreateNewOVirtClient E"
    using process_event_keeps_create_func [OF assms(1,7)] assms(3) by simp
  have i: "i < length (caches s1)" and fresh: "caches_fresh E s1"
    using service_inv_process_event [OF assms(1,7)] assms(1,2) by (auto simp: service_inv_def)
  then have rd: "cache_ready E i s1" by (simp add: cache_ready_def)
  from Get_ready(2) [OF rd assms(8)] have cur: "current_client E i s2 C" by simp
  from i assms(8) obtain c' where c': "caches s2 = (caches s1)[i := c']" "same_source E (caches s1 ! i) c'"
    by (rule Get_run) auto
  with i cur cred func have "answers (CreateNewOVirtClient E (Some creds')) C"
    by (simp add: current_client_def built_from_def same_source_def credentials_of_def)
  moreover have "tls_for creds' = \<lparr>tls_insecure = insecure, tls_caCerts = (if insecure \<or> bundle = [] then [] else [bundle]),
      tls_files = (if insecure \<or> path = [] then [] else [path]), tls_system = (\<not> insecure)\<rparr>"
    by (rule tls_config.equality) (simp_all add: tls_settings path(1))
  ultimately have "answers (env_NewWithVerify E (map_index secret ''ovirt_url'')
        (map_index secret ''ovirt_username'') (map_index secret ''ovirt_password'')
        \<lparr>tls_insecure = insecure, tls_caCerts = (if insecure \<or> bundle = [] then [] else [bundle]),
         tls_files = (if insecure \<or> path = [] then [] else [path]), tls_system = (\<not> insecure)\<rparr>) C"
    by (simp add: CreateNewOVirtClient_def path(1))
  moreover have "bundle \<noteq> [] \<longrightarrow> (WriteFileCall path bundle, True) \<in> set (calls s1)"
  proof -
    have "emits (\<lambda>_. True) (SetCredentials E l c)" for l c
      unfolding SetCredentials_def by (auto intro!: emits_intros emits_mono [OF emits_buildClient])
    then have "emits (\<lambda>_. True) (for_each (\<lambda>l. SetCredentials E l (Some creds')) (credUpdateListener t))"
      by (intro emits_intros)
    from emitsD [OF this f] path(3) show ?thesis by auto
  qed
  ultimately show ?thesis using path(2,3) by (intro exI [of _ path] conjI) simp_all
qed

lemma demo_files_work: "files_work demo_env"
  by (auto simp: files_work_def demo_env_def)

lemma demo_Get_told:
  assumes "i < length (caches s)" and "caches_fresh demo_env s" and "credentials_of i s = Some c"
    and "create_func demo_env (caches s ! i) = CreateNewOVirtClient demo_env"
  shows "\<exists>C s'. Get demo_env i s = (Val C, s')"
proof (cases "cc_client (caches s ! i)")
  case None
  with assms show ?thesis
    by (simp add: Get_def needs_build_def buildClient_def read_cache_run credentials_of_def bind_def attempt_def
        api_def CreateNewOVirtClient_def demo_env_def)
next
  case (Some cl)
  with caches_fresh_nth [OF assms(2,1)] assms(1,3,4) have "cl = demo_engine"
    by (auto simp: cache_fresh_def built_from_def credentials_of_def CreateNewOVirtClient_def answers_def demo_env_def)
  with Some assms(1) show ?thesis
    by (simp add: Get_def needs_build_def read_cache_run bind_def attempt_def api_def demo_engine_def)
qed

theorem secret_configures_engine_client_witness:
  "\<exists>(C :: demo_world ovirt_client) path tls. answers (env_NewWithVerify demo_env ''https://engine/api'' ''admin'' ''secret'' tls) C \<and>
     tls_files tls = [path] \<and> path \<noteq> [] \<and> tls_caCerts tls = [''PEM''] \<and> tls_system tls"
proof -
  let ?s = "(demo_sys None None)\<lparr>caches := [NewCachedOVirtClient ''node''], credUpdateListener := [0]\<rparr>"
  have inv: "service_inv demo_env ?s" using service_reachable_inv [OF demo_reachable] by blast
  obtain r s1 where run: "process_event demo_env (SecretObj demo_secret) ?s = (r, s1)" by fastforce
  have s1: "caches_fresh demo_env s1" "length (caches s1) = 1"
    using service_inv_process_event [OF inv run] by (auto simp: service_inv_def)
  have func: "create_func demo_env (caches ?s ! 0) = CreateNewOVirtClient demo_env"
    by (simp add: create_func_def NewCachedOVirtClient_def)
  have "credentials_of 0 s1 = Some (demo_credentials\<lparr>cr_CAFile := ''/tmp/ovirt-ca-bundle1''\<rparr>)"
    using demo_update run by auto
  then obtain C s2 where get: "Get demo_env 0 s1 = (Val C, s2)"
    using demo_Get_told [of 0 s1] s1 process_event_keeps_create_func [OF inv run, of 0] func by auto
  have keys: "map_index demo_secret ''ovirt_insecure'' = ''false''" "map_index demo_secret ''ovirt_ca_bundle'' = ''PEM''"
    "map_index demo_secret ''ovirt_url'' = ''https://engine/api''" "map_index demo_secret ''ovirt_username'' = ''admin''"
    "map_index demo_secret ''ovirt_password'' = ''secret''"
    by (simp_all add: demo_secret_def map_index_def)
  then have "ParseBool (map_index demo_secret ''ovirt_insecure'') = Inr False" by (simp add: ParseBool_def)
  from secret_configures_engine_client [OF inv _ func this refl _ run get] demo_files_work obtain path where
    a: "answers (env_NewWithVerify demo_env ''https://engine/api'' ''admin'' ''secret''
       \<lparr>tls_insecure = False, tls_caCerts = [''PEM''], tls_files = (if path = [] then [] else [path]), tls_system = True\<rparr>) C"
    and "\<exists>w. env_CreateTemp demo_env (world ?s) = (Inr path, w)"
    unfolding keys by auto
  then have "path \<noteq> []" by (auto simp: demo_env_def)
  with a show ?thesis by (intro exI conjI) (assumption, simp_all)
qed

end
