(* ===== verification/Actuator.thy ===== *)
theory Actuator
  imports Reconcile_Correct Client_Service
begin

text \<open>
  The actuator (\<open>pkg/actuators/machine/actuator.go\<close>): the four operations the machine
  controller calls, each on the Machine in the field \<open>machine\<close>, and the reporting of their
  errors. An actuator holds the Kubernetes client (which may be nil) and the pointer of its
  cached oVirt client; events go to the field \<open>recorded\<close>.
\<close>

record 'w ActuatorParams =
  ap_Namespace :: string
  ap_Client :: "'w k8s_client option"
  ap_CachedOVirtClient :: nat

record 'w OvirtActuator =
  act_params :: "'w ActuatorParams"
  act_client :: "'w k8s_client option"
  act_cachedOVirtClient :: nat

definition NewActuator :: "'w ActuatorParams \<Rightarrow> 'w OvirtActuator" where
  "NewActuator params = \<lparr>act_params = params, act_client = ap_Client params,
     act_cachedOVirtClient = ap_CachedOVirtClient params\<rparr>"

section \<open>Errors and events\<close>

definition InvalidConfigurationMachineError :: string where
  "InvalidConfigurationMachineError = ''InvalidConfiguration''"
definition CreateMachineError :: string where "CreateMachineError = ''CreateError''"
definition UpdateMachineError :: string where "UpdateMachineError = ''UpdateError''"

definition EventTypeNormal :: string where "EventTypeNormal = ''Normal''"
definition EventTypeWarning :: string where "EventTypeWarning = ''Warning''"

definition Eventf :: "string \<Rightarrow> string \<Rightarrow> string \<Rightarrow> ('w sys, unit) go" where
  "Eventf eventtype reason msg =
     modify (\<lambda>s. s\<lparr>recorded := recorded s @ [(eventtype, reason, msg)]\<rparr>)"

text \<open>\<open>err\<close> is the \<open>MachineError\<close> with reason \<open>r\<close> and message \<open>msg\<close>.\<close>

definition handleMachineError ::
  "'w OvirtActuator \<Rightarrow> string \<Rightarrow> string \<Rightarrow> string \<Rightarrow> ('w sys, 'a) go" where
  "handleMachineError act reason r msg =
     bind (Eventf EventTypeWarning reason msg) (\<lambda>_.
     bind (case act_client act of
         None \<Rightarrow> ret ()
       | Some k \<Rightarrow>
           bind (set_machine (\<lambda>m. m\<lparr>mc_Status := (mc_Status m)
                   \<lparr>mst_ErrorReason := Some r, mst_ErrorMessage := Some msg\<rparr>\<rparr>)) (\<lambda>_.
           bind (gets machine) (\<lambda>m.
           bind (annotate ''unable to update machine status''
                   (api (UpdateMachineCall m) (kc_UpdateMachine k m))) (\<lambda>m'.
           set_machine (\<lambda>_. m'))))) (\<lambda>_.
     fail (MachineError r msg)))"

text \<open>\<open>if err := m; err != nil { return handleMachineError(...) }\<close>\<close>

definition on_error ::
  "'w OvirtActuator \<Rightarrow> string \<Rightarrow> string \<Rightarrow> string \<Rightarrow> ('w sys, 'a) go \<Rightarrow> ('w sys, 'a) go" where
  "on_error act reason r prefix m =
     bind (attempt m) (\<lambda>x. case x of
        Inl err \<Rightarrow> handleMachineError act reason r (prefix @ error_string err)
      | Inr y \<Rightarrow> ret y)"

definition provider_spec :: "'w environment \<Rightarrow> ('w sys, OvirtMachineProviderSpec option) go" where
  "provider_spec E = bind (gets machine) (\<lambda>m.
     case ProviderSpecFromRawExtension (env_codec E) (mc_ProviderSpecValue m) of
       Inl err \<Rightarrow> fail err
     | Inr spec \<Rightarrow> ret spec)"

section \<open>The operations\<close>

text \<open>\<open>Create\<close> from the validation on, with the client it got.\<close>

definition create_with_client ::
  "'w environment \<Rightarrow> 'w OvirtActuator \<Rightarrow> OvirtMachineProviderSpec option \<Rightarrow> 'w ovirt_client \<Rightarrow>
     ('w sys, unit) go" where
  "create_with_client E act providerSpec ovirtClient =
     bind (on_error act ''Create'' InvalidConfigurationMachineError
             ''error validating machine fields: '' (validateMachine ovirtClient providerSpec)) (\<lambda>_.
     bind (newMachineScope ovirtClient (act_client act) providerSpec) (\<lambda>mScope.
     bind (on_error act ''Create'' CreateMachineError ''error creating Machine '' (create mScope)) (\<lambda>_.
     bind (on_error act ''Create'' CreateMachineError ''error reconciling Machine ''
             (reconcileMachine E mScope)) (\<lambda>_.
     bind (on_error act ''Create'' CreateMachineError ''error patching Machine ''
             (patchMachine mScope)) (\<lambda>_.
     bind (gets machine) (\<lambda>m.
     Eventf EventTypeNormal ''Created'' (''Updated Machine '' @ mc_Name m)))))))"

definition Create :: "'w environment \<Rightarrow> 'w OvirtActuator \<Rightarrow> ('w sys, unit) go" where
  "Create E act =
     bind (on_error act ''Create'' InvalidConfigurationMachineError
             ''cannot unmarshal machineProviderSpec field: '' (provider_spec E)) (\<lambda>providerSpec.
     bind (on_error act ''Create'' InvalidConfigurationMachineError
             ''failed to create connection to oVirt API: ''
             (Get E (act_cachedOVirtClient act))) (\<lambda>ovirtClient.
     create_with_client E act providerSpec ovirtClient))"

definition Update :: "'w environment \<Rightarrow> 'w OvirtActuator \<Rightarrow> ('w sys, unit) go" where
  "Update E act =
     bind (on_error act ''Update'' InvalidConfigurationMachineError
             ''cannot unmarshal machineProviderSpec field: '' (provider_spec E)) (\<lambda>providerSpec.
     bind (on_error act ''Update'' UpdateMachineError
             ''failed to create connection to oVirt API ''
             (Get E (act_cachedOVirtClient act))) (\<lambda>ovirtClient.
     bind (newMachineScope ovirtClient (act_client act) providerSpec) (\<lambda>mScope.
     bind (on_error act ''Update'' UpdateMachineError ''error reconciling Machine ''
             (reconcileMachine E mScope)) (\<lambda>_.
     bind (on_error act ''Update'' UpdateMachineError ''error patching Machine ''
             (patchMachine mScope)) (\<lambda>_.
     bind (gets machine) (\<lambda>m.
     Eventf EventTypeNormal ''Update'' (''Updated Machine '' @ mc_Name m)))))))"

definition Exists :: "'w environment \<Rightarrow> 'w OvirtActuator \<Rightarrow> ('w sys, bool) go" where
  "Exists E act =
     bind (on_error act ''Exists'' InvalidConfigurationMachineError
             ''failed to create connection to oVirt API: ''
             (Get E (act_cachedOVirtClient act))) (\<lambda>ovirtClient.
     bind (newMachineScope ovirtClient (act_client act) None) (\<lambda>mScope.
     vm_exists mScope))"

definition Delete :: "'w environment \<Rightarrow> 'w OvirtActuator \<Rightarrow> ('w sys, unit) go" where
  "Delete E act =
     bind (on_error act ''Delete'' InvalidConfigurationMachineError
             ''failed to create connection to oVirt API: ''
             (Get E (act_cachedOVirtClient act))) (\<lambda>ovirtClient.
     bind (newMachineScope ovirtClient (act_client act) None) (\<lambda>mScope.
     bind (on_error act ''Deleted'' UpdateMachineError ''error deleting oVirt instance ''
             (delete mScope)) (\<lambda>_.
     bind (gets machine) (\<lambda>m.
     Eventf EventTypeNormal ''Deleted'' (''Deleted Machine '' @ mc_Name m)))))"

section \<open>How an operation ends\<close>

text \<open>
  \<open>reports N R m\<close>: a successful \<open>m\<close> records the events \<open>N\<close> allows, and a failed \<open>m\<close> records
  exactly one Warning and returns what \<open>handleMachineError\<close> returns for a reason in \<open>R\<close>: the
  machine error itself, or the error of the update that was to store it.
\<close>

definition reported :: "string set \<Rightarrow> 'w sys \<Rightarrow> gerr \<Rightarrow> 'w sys \<Rightarrow> bool" where
  "reported R s e s' \<longleftrightarrow> (\<exists>reason r msg. r \<in> R \<and>
     recorded s' = recorded s @ [(EventTypeWarning, reason, msg)] \<and>
     (e = MachineError r msg \<or> (\<exists>e'. e = Wrapped ''unable to update machine status'' e')))"

definition reports :: "(('w sys \<Rightarrow> 'w sys \<Rightarrow> bool)) \<Rightarrow> string set \<Rightarrow> ('w sys, 'a) go \<Rightarrow> bool" where
  "reports N R m \<longleftrightarrow> (\<forall>s r s'. m s = (r, s') \<longrightarrow>
     (\<forall>x. r = Val x \<longrightarrow> N s s') \<and> (\<forall>e. r = Fail e \<longrightarrow> reported R s e s'))"

definition quiet :: "'w sys \<Rightarrow> 'w sys \<Rightarrow> bool" where
  "quiet s s' \<longleftrightarrow> recorded s' = recorded s"

lemma reportsE:
  assumes "reports N R m" and "m s = (r, s')"
  shows "(\<forall>x. r = Val x \<longrightarrow> N s s') \<and> (\<forall>e. r = Fail e \<longrightarrow> reported R s e s')"
  using assms unfolding reports_def by blast

lemma reported_quiet: "quiet s s1 \<Longrightarrow> reported R s1 e s' \<Longrightarrow> reported R s e s'"
  by (simp add: quiet_def reported_def)

lemma Eventf_run [simp]:
  "Eventf t r m s = (Val (), s\<lparr>recorded := recorded s @ [(t, r, m)]\<rparr>)"
  by (simp add: Eventf_def)

lemma handleMachineError_run:
  assumes "handleMachineError act reason r msg s = (res, s')"
  obtains e where "res = Fail e" and "recorded s' = recorded s @ [(EventTypeWarning, reason, msg)]"
    and "e = MachineError r msg \<or> (\<exists>e'. e = Wrapped ''unable to update machine status'' e')"
    and "act_client act = None \<Longrightarrow> e = MachineError r msg"
proof (cases "act_client act")
  case None
  with assms show thesis by (intro that) (auto simp: handleMachineError_def)
next
  case (Some k)
  let ?m = "(machine s)\<lparr>mc_Status := (mc_Status (machine s))
                   \<lparr>mst_ErrorReason := Some r, mst_ErrorMessage := Some msg\<rparr>\<rparr>"
  let ?s1 = "s\<lparr>recorded := recorded s @ [(EventTypeWarning, reason, msg)], machine := ?m\<rparr>"
  obtain r1 s1 where 1: "api (UpdateMachineCall ?m) (kc_UpdateMachine k ?m) ?s1 = (r1, s1)" by fastforce
  have rec: "recorded s1 = recorded s @ [(EventTypeWarning, reason, msg)]"
    using preservesD [OF preserves_api(3) 1] by simp
  from 1 show thesis
  proof (cases rule: api_cases)
    case answer
    with assms Some 1 rec show thesis by (intro that) (auto simp: handleMachineError_def)
  next
    case error
    with assms Some 1 rec show thesis by (intro that) (auto simp: handleMachineError_def)
  qed
qed

lemma reports_on_error:
  assumes "preserves recorded m" and "r \<in> R"
  shows "reports quiet R (on_error act reason r prefix m)"
  unfolding reports_def
proof (intro allI impI)
  fix s res s'
  assume run: "on_error act reason r prefix m s = (res, s')"
  obtain r0 s0 where 0: "m s = (r0, s0)" by fastforce
  have q: "recorded s0 = recorded s" using preservesD [OF assms(1) 0] .
  show "(\<forall>x. res = Val x \<longrightarrow> quiet s s') \<and> (\<forall>e. res = Fail e \<longrightarrow> reported R s e s')"
  proof (cases r0)
    case (Fail e)
    with run 0 have "handleMachineError act reason r (prefix @ error_string e) s0 = (res, s')"
      by (simp add: on_error_def)
    then show ?thesis
      by (rule handleMachineError_run) (use q assms(2) in \<open>auto simp: reported_def\<close>)
  qed (use run 0 q in \<open>auto simp: on_error_def quiet_def\<close>)
qed

lemma reports_bind:
  assumes m: "reports quiet R m" and k: "\<And>x. reports N R (k x)"
    and N: "\<And>s s1 s'. quiet s s1 \<Longrightarrow> N s1 s' \<Longrightarrow> N s s'"
  shows "reports N R (bind m k)"
  unfolding reports_def
proof (intro allI impI)
  fix s r s'
  assume "bind m k s = (r, s')"
  then show "(\<forall>x. r = Val x \<longrightarrow> N s s') \<and> (\<forall>e. r = Fail e \<longrightarrow> reported R s e s')"
  proof (cases rule: bind_cases)
    case (Val x s1)
    with reportsE [OF m Val(1)] reportsE [OF k Val(2)] N show ?thesis
      by (auto intro: reported_quiet)
  next
    case (Fail e)
    with reportsE [OF m Fail(1)] show ?thesis by simp
  qed simp
qed

lemma reports_quiet:
  assumes "preserves recorded m" and "\<And>s e s'. m s = (Fail e, s') \<Longrightarrow> False"
  shows "reports quiet R m"
  using assms unfolding reports_def quiet_def preserves_def by blast

text \<open>The Normal event that ends \<open>Create\<close>, \<open>Update\<close> and \<open>Delete\<close>.\<close>

definition announces :: "string \<Rightarrow> string \<Rightarrow> 'w sys \<Rightarrow> 'w sys \<Rightarrow> bool" where
  "announces reason verb s s' \<longleftrightarrow>
     recorded s' = recorded s @ [(EventTypeNormal, reason, verb @ mc_Name (machine s'))]"

lemma announces_quiet: "quiet s s1 \<Longrightarrow> announces reason verb s1 s' \<Longrightarrow> announces reason verb s s'"
  by (simp add: quiet_def announces_def)

lemma reports_final:
  "reports (announces reason verb) R
     (bind (gets machine) (\<lambda>m. Eventf EventTypeNormal reason (verb @ mc_Name m)))"
  by (auto simp: reports_def announces_def)

lemma reports_newMachineScope: "reports quiet R (newMachineScope C k sp)"
  unfolding newMachineScope_def by (auto simp: reports_def quiet_def)

lemma preserves_provider_spec [preserves_intros]:
  "preserves recorded (provider_spec E)" "preserves machine (provider_spec E)"
  "preserves caches (provider_spec E)" "preserves credUpdateListener (provider_spec E)"
  unfolding provider_spec_def by (auto intro!: preserves_intros)

lemmas reports_intros =
  reports_bind [OF _ _ announces_quiet] reports_on_error reports_newMachineScope reports_final

lemma Create_reports:
  "reports (announces ''Created'' ''Updated Machine '')
     {InvalidConfigurationMachineError, CreateMachineError} (Create E act)"
  unfolding Create_def create_with_client_def by (intro reports_intros preserves_intros) simp_all

lemma Update_reports:
  "reports (announces ''Update'' ''Updated Machine '')
     {InvalidConfigurationMachineError, UpdateMachineError} (Update E act)"
  unfolding Update_def by (intro reports_intros preserves_intros) simp_all

lemma Delete_reports:
  "reports (announces ''Deleted'' ''Deleted Machine '')
     {InvalidConfigurationMachineError, UpdateMachineError} (Delete E act)"
  unfolding Delete_def by (intro reports_intros preserves_intros) simp_all

section \<open>The calls of the operations\<close>

text \<open>The calls that change something in the oVirt engine.\<close>

fun engine_mutation :: "api_call \<Rightarrow> bool" where
  "engine_mutation (CreateVMCall c t n p) = True"
| "engine_mutation (RemoveGraphicsConsoleCall v g) = True"
| "engine_mutation (UpdateDiskCall d n) = True"
| "engine_mutation (RemoveNICCall v n) = True"
| "engine_mutation (CreateNICCall v n p) = True"
| "engine_mutation (AutoOptimizePinningCall v b) = True"
| "engine_mutation (AddTagCall v t) = True"
| "engine_mutation (AddVMToAffinityGroupCall c v g) = True"
| "engine_mutation (StartVMCall v) = True"
| "engine_mutation (StopVMCall v b) = True"
| "engine_mutation (RemoveVMCall v) = True"
| "engine_mutation _ = False"

lemma upkeep_no_mutation: "upkeep c \<Longrightarrow> \<not> engine_mutation c"
  by (cases c) (simp_all add: upkeep_def)

lemma reconcile_no_mutation: "reconcile_reads c \<Longrightarrow> \<not> engine_mutation c"
  by (cases c) (simp_all add: reconcile_reads_def)

lemma emits_Eventf [emits_intros]: "emits A (Eventf t r m)"
  unfolding Eventf_def by (rule emits_modify) simp

lemma emits_handleMachineError:
  assumes "\<And>m. A (UpdateMachineCall m)"
  shows "emits A (handleMachineError act reason r msg)"
  unfolding handleMachineError_def using assms by (auto intro!: emits_intros)

lemma emits_on_error:
  assumes "emits A m" and "\<And>m. A (UpdateMachineCall m)"
  shows "emits A (on_error act reason r prefix m)"
  unfolding on_error_def
  by (intro emits_intros emits_handleMachineError assms)

lemma emits_provider_spec [emits_intros]: "emits A (provider_spec E)"
  unfolding provider_spec_def by (intro emits_intros)

lemma emits_newMachineScope [emits_intros]: "emits A (newMachineScope C k sp)"
  unfolding newMachineScope_def by (intro emits_intros)

lemma emits_patchMachine:
  assumes "\<And>b m. A (PatchMachineCall b m)" and "\<And>b m. A (PatchMachineStatusCall b m)"
  shows "emits A (patchMachine ms)"
  unfolding patchMachine_def Let_def using assms by (intro emits_intros)

lemma emits_no_mutation:
  "emits (\<lambda>c. \<not> engine_mutation c) (Get E i)"
  "emits (\<lambda>c. \<not> engine_mutation c) (reconcileMachine E ms)"
  "emits (\<lambda>c. \<not> engine_mutation c) (patchMachine ms)"
  "emits (\<lambda>c. \<not> engine_mutation c) (validateMachine C sp)"
  "emits (\<lambda>c. \<not> engine_mutation c) (vm_exists ms)"
proof -
  show "emits (\<lambda>c. \<not> engine_mutation c) (Get E i)"
    by (rule emits_mono [OF emits_Get]) (rule upkeep_no_mutation)
  show "emits (\<lambda>c. \<not> engine_mutation c) (reconcileMachine E ms)"
    by (rule emits_mono [OF emits_reconcileMachine]) (rule reconcile_no_mutation)
  show "emits (\<lambda>c. \<not> engine_mutation c) (patchMachine ms)"
    by (rule emits_patchMachine) simp_all
  show "emits (\<lambda>c. \<not> engine_mutation c) (validateMachine C sp)"
    by (rule emits_mono [OF emits_validateMachine]) simp
  show "emits (\<lambda>c. \<not> engine_mutation c) (vm_exists ms)"
    unfolding vm_exists_def by (intro emits_intros) auto
qed

lemma Update_no_mutation: "emits (\<lambda>c. \<not> engine_mutation c) (Update E act)"
  unfolding Update_def by (intro emits_intros emits_on_error emits_no_mutation) simp_all

lemma Exists_no_mutation: "emits (\<lambda>c. \<not> engine_mutation c) (Exists E act)"
  unfolding Exists_def by (intro emits_intros emits_on_error emits_no_mutation) simp_all

section \<open>Create on an invalid spec\<close>

lemma validateMachine_rejects:
  assumes "\<not> valid_required p" shows "validateMachine C (Some p) s \<noteq> (Val u, s')"
proof
  assume "validateMachine C (Some p) s = (Val u, s')"
  then show False by (rule validateMachine_ValD) (use assms in simp)
qed

lemma validateMachine_no_crash: "no_crash (validateMachine C (Some p))"
  unfolding validateMachine_def deref_simps bind_ret by (intro no_crash_intros)

lemma on_error_Val_iff [simp]:
  "on_error act reason r prefix m s = (Val x, s') \<longleftrightarrow> m s = (Val x, s')"
proof -
  obtain r0 s0 where 0: "m s = (r0, s0)" by fastforce
  have "handleMachineError act reason r msg s0 \<noteq> (Val x, s')" for msg
    by (auto elim: handleMachineError_run)
  with 0 show ?thesis by (cases r0) (simp_all add: on_error_def)
qed

text \<open>After a step that cannot succeed nothing runs.\<close>

lemma emits_stop:
  assumes "emits A m" and "\<And>s x s'. m s \<noteq> (Val x, s')" shows "emits A (bind m k)"
proof (rule emitsI)
  fix s r s'
  assume "bind m k s = (r, s')"
  then show "\<exists>new. calls s' = calls s @ new \<and> (\<forall>e \<in> set new. A (fst e))"
    by (cases rule: bind_cases) (use assms in \<open>auto elim: emitsE\<close>)
qed

lemma create_with_client_rejects:
  assumes "\<not> valid_required p"
  shows "emits (\<lambda>c. \<not> engine_mutation c) (create_with_client E act (Some p) C)"
    and "create_with_client E act (Some p) C s \<noteq> (Val u, s')"
proof -
  have v: "on_error act reason r prefix (validateMachine C (Some p)) s \<noteq> (Val x, s')"
    for reason r prefix s x s'
    by (simp add: validateMachine_rejects [OF assms])
  show "emits (\<lambda>c. \<not> engine_mutation c) (create_with_client E act (Some p) C)"
    unfolding create_with_client_def
    by (rule emits_stop [OF emits_on_error [OF emits_no_mutation(4)] v]) simp
  show "create_with_client E act (Some p) C s \<noteq> (Val u, s')"
    unfolding create_with_client_def by (auto simp: validateMachine_rejects [OF assms] elim!: bind_ValE)
qed

lemma Create_invalid_calls:
  assumes "ProviderSpecFromRawExtension (env_codec E) (mc_ProviderSpecValue (machine s)) = Inr (Some p)"
    and "\<not> valid_required p" and "Create E act s = (r, s')"
  shows "(\<exists>new. calls s' = calls s @ new \<and> (\<forall>e \<in> set new. \<not> engine_mutation (fst e))) \<and> r \<noteq> Val ()"
proof -
  let ?rest = "bind (on_error act ''Create'' InvalidConfigurationMachineError
       ''failed to create connection to oVirt API: '' (Get E (act_cachedOVirtClient act)))
     (create_with_client E act (Some p))"
  have "provider_spec E s = (Val (Some p), s)" using assms(1) by (simp add: provider_spec_def)
  with assms(3) have run: "?rest s = (r, s')" by (simp add: Create_def)
  have "emits (\<lambda>c. \<not> engine_mutation c) ?rest"
    by (intro emits_bind emits_on_error emits_no_mutation create_with_client_rejects assms(2)) simp
  moreover have "?rest s \<noteq> (Val (), s')"
    by (auto simp: create_with_client_rejects(2) [OF assms(2)] elim!: bind_ValE)
  ultimately show ?thesis using emitsD run by blast
qed

section \<open>Properties\<close>

text \<open>C31: \<open>Create\<close> of a machine whose spec misses a required field changes nothing in the
  engine and fails: every engine call it makes only reads.\<close>

theorem invalid_machine_not_created:
  assumes "ProviderSpecFromRawExtension (env_codec E) (mc_ProviderSpecValue (machine s)) = Inr (Some p)"
    and "\<not> valid_required p" and "Create E act s = (r, s')"
  shows "r \<noteq> Val () \<and> (\<exists>new. calls s' = calls s @ new \<and> list_all (\<lambda>e. \<not> engine_mutation (fst e)) new)"
  using Create_invalid_calls [OF assms] by (simp add: list_all_iff)

definition demo_actuator :: "demo_world OvirtActuator" where
  "demo_actuator = NewActuator \<lparr>ap_Namespace = [], ap_Client = Some demo_k8s, ap_CachedOVirtClient = 0\<rparr>"

definition demo_started :: "vm option \<Rightarrow> RawExtension option \<Rightarrow> demo_world sys" where
  "demo_started v ext = (demo_sys v None)\<lparr>machine := demo_machine\<lparr>mc_ProviderSpecValue := ext\<rparr>,
     caches := [(NewCachedOVirtClient ''actuator'')\<lparr>cc_credentials := Some demo_credentials\<rparr>],
     credUpdateListener := [0]\<rparr>"

theorem invalid_machine_not_created_witness:
  "\<exists>r s' new. Create demo_env demo_actuator (demo_started None None) = (r, s') \<and> r \<noteq> Val () \<and>
     calls s' = calls (demo_started None None) @ new \<and> list_all (\<lambda>e. \<not> engine_mutation (fst e)) new"
proof -
  obtain r s' where run: "Create demo_env demo_actuator (demo_started None None) = (r, s')" by fastforce
  have p: "ProviderSpecFromRawExtension (env_codec demo_env)
      (mc_ProviderSpecValue (machine (demo_started None None))) = Inr (Some empty_spec)"
    by (simp add: demo_started_def demo_machine_def ProviderSpecFromRawExtension_def)
  have "\<not> valid_required empty_spec" by (simp add: valid_required_def empty_spec_def)
  from invalid_machine_not_created [OF p this run] run show ?thesis by blast
qed

text \<open>C24: \<open>Update\<close> never changes anything in the engine, and ends in one of two ways: without
  error after exactly one Normal event that names the machine, or with an error after
  exactly one Warning event, the error being the machine error itself or that of the failed
  update of its status.\<close>

theorem update_is_read_only_and_reports:
  assumes "Update E act s = (r, s')"
  shows "(\<exists>new. calls s' = calls s @ new \<and> list_all (\<lambda>e. \<not> engine_mutation (fst e)) new) \<and>
     (case r of
        Val u \<Rightarrow> announces ''Update'' ''Updated Machine '' s s'
      | Fail e \<Rightarrow> reported {InvalidConfigurationMachineError, UpdateMachineError} s e s'
      | Crash q \<Rightarrow> True)"
  using emitsD [OF Update_no_mutation assms] reportsE [OF Update_reports assms]
  by (auto simp: list_all_iff split: res.split)

theorem update_is_read_only_and_reports_witness:
  "\<exists>r s' new. Update demo_env demo_actuator (demo_started None None) = (r, s') \<and>
     calls s' = calls (demo_started None None) @ new \<and> list_all (\<lambda>e. \<not> engine_mutation (fst e)) new"
proof -
  obtain r s' where run: "Update demo_env demo_actuator (demo_started None None) = (r, s')" by fastforce
  from update_is_read_only_and_reports [OF run] run show ?thesis by blast
qed

text \<open>\<open>Create\<close> and \<open>Delete\<close> report in the same way: one Normal event on success, one Warning
  event on failure, with the error reasons of the operation.\<close>

lemma create_and_delete_report:
  "(case Create E act s of
      (Val u, s') \<Rightarrow> announces ''Created'' ''Updated Machine '' s s'
    | (Fail e, s') \<Rightarrow> reported {InvalidConfigurationMachineError, CreateMachineError} s e s'
    | (Crash q, s') \<Rightarrow> True) \<and>
   (case Delete E act s of
      (Val u, s') \<Rightarrow> announces ''Deleted'' ''Deleted Machine '' s s'
    | (Fail e, s') \<Rightarrow> reported {InvalidConfigurationMachineError, UpdateMachineError} s e s'
    | (Crash q, s') \<Rightarrow> True)"
proof -
  obtain r1 s1 where 1: "Create E act s = (r1, s1)" by fastforce
  obtain r2 s2 where 2: "Delete E act s = (r2, s2)" by fastforce
  from reportsE [OF Create_reports 1] reportsE [OF Delete_reports 2] show ?thesis
    unfolding 1 2 by (auto split: res.split)
qed

text \<open>With a Kubernetes client, \<open>handleMachineError\<close> sends the machine with the error's
  reason and message in its status; but when that update fails, the error it returns is the
  update's, and the machine error is lost.\<close>

lemma error_is_stored_or_lost:
  assumes "act_client act = Some k"
  shows "\<exists>m. mst_ErrorReason (mc_Status m) = Some r \<and> mst_ErrorMessage (mc_Status m) = Some msg \<and>
     (case kc_UpdateMachine k m (world s) of
        (Inr m', w) \<Rightarrow> fst (handleMachineError act reason r msg s) = Fail (MachineError r msg)
          \<and> machine (snd (handleMachineError act reason r msg s)) = m'
      | (Inl e, w) \<Rightarrow> fst (handleMachineError act reason r msg s) =
          Fail (Wrapped ''unable to update machine status'' e)
          \<and> machine (snd (handleMachineError act reason r msg s)) = m)"
proof -
  let ?m = "(machine s)\<lparr>mc_Status := (mc_Status (machine s))
                   \<lparr>mst_ErrorReason := Some r, mst_ErrorMessage := Some msg\<rparr>\<rparr>"
  obtain x w where u: "kc_UpdateMachine k ?m (world s) = (x, w)" by fastforce
  show ?thesis
    by (rule exI [of _ ?m], cases x) (use u assms in \<open>simp_all add: handleMachineError_def\<close>)
qed

theorem error_is_stored_or_lost_witness:
  "fst (handleMachineError (demo_actuator\<lparr>act_client := Some (demo_k8s\<lparr>kc_UpdateMachine :=
       \<lambda>m w. (Inl (ApiStatus ''Conflict'' 409 ''modified''), w)\<rparr>)\<rparr>) ''Create''
       InvalidConfigurationMachineError ''error validating machine fields'' (demo_sys None None)) =
     (Fail (Wrapped ''unable to update machine status'' (ApiStatus ''Conflict'' 409 ''modified'')) :: unit res)"
proof -
  let ?k = "demo_k8s\<lparr>kc_UpdateMachine := \<lambda>m w. (Inl (ApiStatus ''Conflict'' 409 ''modified''), w)\<rparr>"
  have "act_client (demo_actuator\<lparr>act_client := Some ?k\<rparr>) = Some ?k" by simp
  from error_is_stored_or_lost [OF this, where s = "demo_sys None None" and reason = "''Create''"
      and r = InvalidConfigurationMachineError and msg = "''error validating machine fields''"]
  show ?thesis by auto
qed

end
