(* ===== verification/Controllers.thy ===== *)
theory Controllers
  imports Cached_Client
begin

text \<open>
  The two controllers that watch Nodes (\<open>pkg/controller\<close>): the node controller deletes a
  Node whose VM is gone, the provider ID controller fills in the identifier of a new Node.
  \<open>Reconcile\<close> returns a result together with an error that may be nil, and the controller
  runtime reads both, so both are kept. Times are in seconds.
\<close>

section \<open>baseController.go\<close>

record 'w baseController =
  bc_Name :: string
  bc_Client :: "'w k8s_client"
  bc_CachedOVirtClient :: nat

definition NewBaseController :: "string \<Rightarrow> 'w k8s_client \<Rightarrow> nat \<Rightarrow> 'w baseController" where
  "NewBaseController ctrlName k8sClient cachedOVirtClient =
     \<lparr>bc_Name = ctrlName, bc_Client = k8sClient, bc_CachedOVirtClient = cachedOVirtClient\<rparr>"

definition GetoVirtClient :: "'w environment \<Rightarrow> 'w baseController \<Rightarrow> ('w sys, 'w ovirt_client) go" where
  "GetoVirtClient E b = Get E (bc_CachedOVirtClient b)"

record Result =
  res_Requeue :: bool
  res_RequeueAfter :: int

definition requeueDefaultTime :: int where "requeueDefaultTime = 30"
definition retryIntervalVMDownSec :: int where "retryIntervalVMDownSec = 60"

definition ResultRequeueAfter :: "int \<Rightarrow> Result" where
  "ResultRequeueAfter sec = \<lparr>res_Requeue = False, res_RequeueAfter = sec\<rparr>"

definition ResultRequeueDefault :: Result where
  "ResultRequeueDefault = \<lparr>res_Requeue = False, res_RequeueAfter = requeueDefaultTime\<rparr>"

definition ResultNoRequeue :: Result where
  "ResultNoRequeue = \<lparr>res_Requeue = False, res_RequeueAfter = 0\<rparr>"

text \<open>
  \<open>apierrors.IsNotFound\<close> reads the first API status in the error's chain: its reason, or
  its code when the reason is not one of the known ones.
\<close>

fun api_status :: "gerr \<Rightarrow> (string \<times> int) option" where
  "api_status (ApiStatus r c m) = Some (r, c)"
| "api_status (Wrapped m e) = api_status e"
| "api_status (WrapError m e) = api_status e"
| "api_status (EngineError c m (Some e)) = api_status e"
| "api_status _ = None"

definition knownReasons :: "string list" where
  "knownReasons =
     [''Unauthorized'', ''Forbidden'', ''NotFound'', ''AlreadyExists'', ''Conflict'', ''Gone'',
      ''Invalid'', ''ServerTimeout'', ''Timeout'', ''TooManyRequests'', ''BadRequest'',
      ''MethodNotAllowed'', ''NotAcceptable'', ''RequestEntityTooLarge'',
      ''UnsupportedMediaType'', ''InternalError'', ''Expired'', ''ServiceUnavailable'']"

definition IsNotFound :: "gerr \<Rightarrow> bool" where
  "IsNotFound err =
     (let (reason, code) = (case api_status err of None \<Rightarrow> ([], 0) | Some p \<Rightarrow> p) in
      reason = ''NotFound'' \<or> (reason \<notin> set knownReasons \<and> code = 404))"

section \<open>nodeController.go\<close>

definition NewNodeController :: "'w k8s_client \<Rightarrow> nat \<Rightarrow> 'w baseController" where
  "NewNodeController k8sClient cachedOVirtClient =
     NewBaseController ''NodeController'' k8sClient cachedOVirtClient"

definition wrap_error :: "string \<Rightarrow> gerr \<Rightarrow> gerr" where
  "wrap_error msg e = WrapError (msg @ error_string e) e"

text \<open>The part of \<open>Reconcile\<close> after the VM was looked up.\<close>

definition node_vm_result ::
  "'w baseController \<Rightarrow> Node \<Rightarrow> vm option \<Rightarrow> gerr option \<Rightarrow> ('w sys, Result \<times> gerr option) go" where
  "node_vm_result b node v err =
     (case err of
        Some e \<Rightarrow>
          bind (lift_res (HasErrorCode e ENotFound)) (\<lambda>notFound.
          bind (if notFound
                then attempt (api (DeleteNodeCall (nd_Name node)) (kc_DeleteNode (bc_Client b) (nd_Name node)))
                else ret (Inr ())) (\<lambda>deleted.
          case deleted of
            Inl derr \<Rightarrow> ret (ResultRequeueDefault,
              Some (wrap_error (''error deleting node: '' @ nd_Name node @ '', error: '') derr))
          | Inr _ \<Rightarrow> ret (ResultRequeueDefault,
              Some (wrap_error (''failed getting VM '' @ nd_Name node @ '' from oVirt, requeue: '') e))))
      | None \<Rightarrow>
          bind (deref v) (\<lambda>v.
          if vm_status v = VMStatusDown
          then ret (ResultRequeueAfter retryIntervalVMDownSec, None)
          else ret (ResultNoRequeue, None)))"

definition node_Reconcile ::
  "'w environment \<Rightarrow> 'w baseController \<Rightarrow> string \<Rightarrow> ('w sys, Result \<times> gerr option) go" where
  "node_Reconcile E b request =
     bind (attempt (api (GetNodeCall request) (kc_GetNode (bc_Client b) request))) (\<lambda>r.
     case r of
       Inl err \<Rightarrow>
         if IsNotFound err then ret (ResultNoRequeue, None)
         else ret (ResultRequeueDefault, Wrap (Some err) ''error getting node requeue'')
     | Inr node \<Rightarrow>
         if \<not> contains (nd_ProviderID node) ProviderIDPrefix then ret (ResultNoRequeue, None)
         else
           bind (attempt (GetoVirtClient E b)) (\<lambda>c.
           case c of
             Inl err \<Rightarrow> ret (ResultRequeueDefault,
               Wrap (Some err) ''error getting connection to oVirt, requeuing'')
           | Inr ovirtClient \<Rightarrow>
               bind (GetVMByName ovirtClient (nd_Name node)) (\<lambda>(v, err).
               node_vm_result b node v err)))"

section \<open>providerIDController.go\<close>

definition NewProviderIDController :: "'w k8s_client \<Rightarrow> nat \<Rightarrow> 'w baseController" where
  "NewProviderIDController k8sClient cachedOVirtClient =
     NewBaseController ''ProviderIDController'' k8sClient cachedOVirtClient"

definition fetchOvirtVmID ::
  "'w environment \<Rightarrow> 'w baseController \<Rightarrow> string \<Rightarrow> ('w sys, string) go" where
  "fetchOvirtVmID E b nodeName =
     bind (annotate ''error getting connection to oVirt'' (GetoVirtClient E b)) (\<lambda>ovirtclient.
     bind (GetVMByName ovirtclient nodeName) (\<lambda>(v, err).
     case err of
       Some e \<Rightarrow>
         bind (lift_res (HasErrorCode e ENotFound)) (\<lambda>notFound.
         if notFound then ret []
         else fail (wrap_error (''failed getting VM '' @ nodeName @ '' from oVirt: '') e))
     | None \<Rightarrow> bind (deref v) (\<lambda>v. ret (vm_id v))))"

definition providerID_Reconcile ::
  "'w environment \<Rightarrow> 'w baseController \<Rightarrow> string \<Rightarrow> ('w sys, Result \<times> gerr option) go" where
  "providerID_Reconcile E b request =
     bind (attempt (api (GetNodeCall request) (kc_GetNode (bc_Client b) request))) (\<lambda>r.
     case r of
       Inl err \<Rightarrow>
         if IsNotFound err then ret (ResultNoRequeue, None)
         else ret (ResultRequeueDefault, Wrap (Some err) ''error getting node: %v'')
     | Inr node \<Rightarrow>
         if nd_ProviderID node = [] then
           bind (attempt (fetchOvirtVmID E b (nd_Name node))) (\<lambda>f.
           case f of
             Inl err \<Rightarrow> ret (ResultRequeueDefault, Some (wrap_error
               (''failed getting VM '' @ nd_Name node @ '' from oVirt requeue: '') err))
           | Inr vmid \<Rightarrow>
               if vmid = [] then ret (ResultNoRequeue, None)
               else
                 (let node' = node\<lparr>nd_ProviderID := ProviderIDPrefix @ vmid\<rparr> in
                  bind (attempt (api (UpdateNodeCall node') (kc_UpdateNode (bc_Client b) node'))) (\<lambda>u.
                  case u of
                    Inl err \<Rightarrow> ret (ResultRequeueDefault, Some (wrap_error
                      (''failed updating node '' @ nd_Name node @ '': '') err))
                  | Inr _ \<Rightarrow> ret (ResultNoRequeue, None))))
         else ret (ResultNoRequeue, None))"

section \<open>The calls of a request\<close>

text \<open>
  What a request may lead to: the Node is read, a Node the API server returned is deleted,
  or gets an identifier it did not have. Nothing else is written.
\<close>

definition node_may :: "'w baseController \<Rightarrow> string \<Rightarrow> api_call \<Rightarrow> bool" where
  "node_may b request c \<longleftrightarrow> (case c of
      GetNodeCall n \<Rightarrow> n = request
    | GetVMByNameCall n \<Rightarrow> (\<exists>node. answers (kc_GetNode (bc_Client b) request) node \<and> nd_Name node = n)
    | DeleteNodeCall n \<Rightarrow> (\<exists>node. answers (kc_GetNode (bc_Client b) request) node \<and>
         nd_Name node = n \<and> contains (nd_ProviderID node) ProviderIDPrefix)
    | _ \<Rightarrow> upkeep c)"

definition providerID_may :: "'w baseController \<Rightarrow> string \<Rightarrow> api_call \<Rightarrow> bool" where
  "providerID_may b request c \<longleftrightarrow> (case c of
      GetNodeCall n \<Rightarrow> n = request
    | GetVMByNameCall n \<Rightarrow> (\<exists>node. answers (kc_GetNode (bc_Client b) request) node \<and> nd_Name node = n)
    | UpdateNodeCall node' \<Rightarrow> (\<exists>node i. answers (kc_GetNode (bc_Client b) request) node \<and>
         nd_ProviderID node = [] \<and> i \<noteq> [] \<and> node' = node\<lparr>nd_ProviderID := ProviderIDPrefix @ i\<rparr>)
    | _ \<Rightarrow> upkeep c)"

lemma upkeep_may: "upkeep c \<Longrightarrow> node_may b request c" "upkeep c \<Longrightarrow> providerID_may b request c"
  by (cases c; simp add: upkeep_def node_may_def providerID_may_def)+

lemma emits_GetoVirtClient:
  "(\<And>c. upkeep c \<Longrightarrow> A c) \<Longrightarrow> emits A (GetoVirtClient E b)"
  unfolding GetoVirtClient_def by (rule emits_mono [OF cached.get_calls])

lemma emits_node_vm_result:
  "A (DeleteNodeCall (nd_Name node)) \<Longrightarrow> emits A (node_vm_result b node v err)"
  unfolding node_vm_result_def by (intro emits_intros)

lemma emits_node_Reconcile: "emits (node_may b request) (node_Reconcile E b request)"
  unfolding node_Reconcile_def
proof (rule emits_bind_dep, goal_cases)
  case 1
  show ?case by (intro emits_intros) (simp add: node_may_def)
next
  case (2 s x s')
  then show ?case
    unfolding split_beta
    by (cases x; simp only: sum.case attempt_Inr)
       (auto intro!: emits_intros emits_node_vm_result emits_GetoVirtClient
         simp: upkeep_may, auto simp: node_may_def dest: api_answers)
qed

lemma emits_fetchOvirtVmID:
  "(\<And>c. upkeep c \<Longrightarrow> A c) \<Longrightarrow> A (GetVMByNameCall n) \<Longrightarrow> emits A (fetchOvirtVmID E b n)"
  unfolding fetchOvirtVmID_def split_beta
  by (intro emits_intros emits_GetoVirtClient)

lemma emits_providerID_Reconcile: "emits (providerID_may b request) (providerID_Reconcile E b request)"
  unfolding providerID_Reconcile_def
proof (rule emits_bind_dep, goal_cases)
  case 1
  show ?case by (intro emits_intros) (simp add: providerID_may_def)
next
  case (2 s x s')
  then show ?case
    unfolding Let_def
    by (cases x; simp only: sum.case attempt_Inr)
       (auto intro!: emits_intros emits_fetchOvirtVmID
         simp: upkeep_may, auto simp: providerID_may_def dest: api_answers)
qed

section \<open>The interface reconcile.Reconciler\<close>

text \<open>
  What the controller runtime relies on, for both controllers: the calls a request may
  lead to, that an error always comes with the default requeue, that the error value and
  not the exceptional exit is used, and that a Node that is gone is left alone.
\<close>

locale reconciler =
  fixes reconcile :: "string \<Rightarrow> ('w sys, Result \<times> gerr option) go"
    and get_node :: "string \<Rightarrow> ('w, Node) op"
    and may :: "string \<Rightarrow> api_call \<Rightarrow> bool"
  assumes reconcile_calls: "emits (may req) (reconcile req)"
    and reconcile_error: "reconcile req s = (Val (res, Some e), s') \<Longrightarrow> res = ResultRequeueDefault"
    and reconcile_returns: "reconcile req s \<noteq> (Fail e, s')"
    and reconcile_missing: "get_node req (world s) = (Inl e, w) \<Longrightarrow> IsNotFound e \<Longrightarrow>
      reconcile req s = (Val (ResultNoRequeue, None),
        s\<lparr>world := w, calls := calls s @ [(GetNodeCall req, False)]\<rparr>)"
begin

text \<open>A sequence of requests, each reconciled once, makes only the calls of its requests.\<close>

lemma queue_calls:
  "emits (\<lambda>c. \<exists>q \<in> set reqs. may q c) (for_each (\<lambda>q. bind (reconcile q) (\<lambda>_. ret ())) reqs)"
  by (intro emits_for_each emits_bind emits_ret emits_mono [OF reconcile_calls]) blast

lemma reconcile_cases:
  assumes "reconcile req s = (r, s')"
  obtains (settled) res where "r = Val (res, None)"
    | (retry) e where "r = Val (ResultRequeueDefault, Some e)"
    | (panic) p where "r = Crash p"
proof (cases r)
  case (Val x)
  obtain res err where x: "x = (res, err)" by fastforce
  show thesis
  proof (cases err)
    case None
    with Val x show thesis by (intro settled) simp
  next
    case (Some e)
    with Val x assms have "res = ResultRequeueDefault" by (auto intro: reconcile_error)
    with Some Val x show thesis by (intro retry) simp
  qed
next
  case (Fail e)
  with assms reconcile_returns show thesis by blast
qed (rule panic)

end

lemma HasErrorCode_not_Fail [simp]: "HasErrorCode e c \<noteq> Fail e'"
  by (simp add: HasErrorCode_def split: option.split)

lemma attempt_not_Fail [simp]: "attempt m s \<noteq> (Fail e, s')"
  by (auto simp: attempt_def split: prod.splits res.splits)

lemma GetVMByName_not_Fail [simp]: "GetVMByName C n s \<noteq> (Fail e, s')"
  by (auto simp: GetVMByName_def split: prod.splits)

text \<open>\<open>requeues m\<close>: every return of \<open>m\<close> that carries an error asks for the default requeue.\<close>

definition requeues :: "('w sys, Result \<times> gerr option) go \<Rightarrow> bool" where
  "requeues m \<longleftrightarrow> (\<forall>s r s'. m s = (r, s') \<longrightarrow>
     (\<forall>e. r \<noteq> Fail e) \<and> (\<forall>res e. r = Val (res, Some e) \<longrightarrow> res = ResultRequeueDefault))"

lemma requeues_ret: "err = None \<or> res = ResultRequeueDefault \<Longrightarrow> requeues (ret (res, err))"
  by (auto simp: requeues_def)

lemma requeues_bind:
  assumes "\<And>s e s'. m s \<noteq> (Fail e, s')" and "\<And>x. requeues (k x)" shows "requeues (bind m k)"
  unfolding requeues_def
proof (intro allI impI)
  fix s r s'
  assume "bind m k s = (r, s')"
  then show "(\<forall>e. r \<noteq> Fail e) \<and> (\<forall>res e. r = Val (res, Some e) \<longrightarrow> res = ResultRequeueDefault)"
  proof (cases rule: bind_cases)
    case (Val x s1)
    with assms(2) show ?thesis unfolding requeues_def by blast
  qed (use assms(1) in auto)
qed

lemma requeues_if: "requeues m \<Longrightarrow> requeues n \<Longrightarrow> requeues (if c then m else n)"
  by simp

lemma requeues_case:
  "(\<And>e. requeues (m e)) \<Longrightarrow> (\<And>x. requeues (k x)) \<Longrightarrow>
     requeues (case r of Inl e \<Rightarrow> m e | Inr x \<Rightarrow> k x)"
  "requeues n \<Longrightarrow> (\<And>x. requeues (l x)) \<Longrightarrow> requeues (case opt of None \<Rightarrow> n | Some x \<Rightarrow> l x)"
  by (simp_all split: sum.split option.split)

lemmas requeues_intros = requeues_bind requeues_if requeues_case requeues_ret

lemma deref_not_Fail [simp]: "deref p s \<noteq> (Fail e, s')"
  by (cases p) simp_all

lemma requeues_node_vm_result: "requeues (node_vm_result b node v err)"
  unfolding node_vm_result_def by (intro requeues_intros) simp_all

lemma requeues_node_Reconcile: "requeues (node_Reconcile E b request)"
  unfolding node_Reconcile_def split_beta
  by (intro requeues_intros requeues_node_vm_result) simp_all

lemma requeues_providerID_Reconcile: "requeues (providerID_Reconcile E b request)"
  unfolding providerID_Reconcile_def Let_def
  by (intro requeues_intros) simp_all

interpretation node_ctrl: reconciler "node_Reconcile E b" "kc_GetNode (bc_Client b)" "node_may b" for E b
proof unfold_locales
  show "emits (node_may b req) (node_Reconcile E b req)" for req by (rule emits_node_Reconcile)
  show "node_Reconcile E b req s = (Val (res, Some e), s') \<Longrightarrow> res = ResultRequeueDefault" for req s res e s'
    using requeues_node_Reconcile [of E b req] unfolding requeues_def by blast
  show "node_Reconcile E b req s \<noteq> (Fail e, s')" for req s e s'
    using requeues_node_Reconcile [of E b req] unfolding requeues_def by blast
qed (simp add: node_Reconcile_def)

interpretation providerID_ctrl: reconciler "providerID_Reconcile E b" "kc_GetNode (bc_Client b)"
    "providerID_may b" for E b
proof unfold_locales
  show "emits (providerID_may b req) (providerID_Reconcile E b req)" for req
    by (rule emits_providerID_Reconcile)
  show "providerID_Reconcile E b req s = (Val (res, Some e), s') \<Longrightarrow> res = ResultRequeueDefault"
    for req s res e s'
    using requeues_providerID_Reconcile [of E b req] unfolding requeues_def by blast
  show "providerID_Reconcile E b req s \<noteq> (Fail e, s')" for req s e s'
    using requeues_providerID_Reconcile [of E b req] unfolding requeues_def by blast
qed (simp add: providerID_Reconcile_def)

section \<open>The branches of the node controller\<close>

lemma node_vm_result_gone:
  assumes "HasErrorCode e ENotFound = Val True"
    and "kc_DeleteNode (bc_Client b) (nd_Name node) (world s) = (Inr (), w)"
  shows "node_vm_result b node v (Some e) s = (Val (ResultRequeueDefault,
       Some (wrap_error (''failed getting VM '' @ nd_Name node @ '' from oVirt, requeue: '') e)),
     s\<lparr>world := w, calls := calls s @ [(DeleteNodeCall (nd_Name node), True)]\<rparr>)"
  using assms by (simp add: node_vm_result_def)

lemma node_vm_result_found:
  "node_vm_result b node (Some v) None s =
     (Val (if vm_status v = VMStatusDown then ResultRequeueAfter retryIntervalVMDownSec
           else ResultNoRequeue, None), s)"
  by (simp add: node_vm_result_def)

text \<open>The Node a request is about, as the API server returns it.\<close>

definition read_node :: "'w baseController \<Rightarrow> string \<Rightarrow> 'w sys \<Rightarrow> Node \<Rightarrow> 'w sys \<Rightarrow> bool" where
  "read_node b request s node s' \<longleftrightarrow> (\<exists>w. kc_GetNode (bc_Client b) request (world s) = (Inr node, w) \<and>
     s' = s\<lparr>world := w, calls := calls s @ [(GetNodeCall request, True)]\<rparr>)"

lemma node_vm_result_deletes:
  assumes "node_vm_result b node v err s = (r, s')" and "calls s' = calls s @ new"
    and "(DeleteNodeCall n, ok) \<in> set new"
  shows "n = nd_Name node \<and> (\<exists>e. err = Some e \<and> HasErrorCode e ENotFound = Val True) \<and>
    (\<exists>e. r = Val (ResultRequeueDefault, Some e))"
proof -
  have calls: "emits (\<lambda>c. c = DeleteNodeCall (nd_Name node)) (node_vm_result b node v err)"
    by (rule emits_node_vm_result) simp
  from emitsD [OF calls assms(1)] assms(2,3) have n: "n = nd_Name node" by auto
  show ?thesis
  proof (cases err)
    case None
    then have "emits (\<lambda>_. False) (node_vm_result b node v err)"
      unfolding node_vm_result_def by (auto intro!: emits_intros)
    from emitsD [OF this assms(1)] assms(2,3) show ?thesis by auto
  next
    case (Some e)
    show ?thesis
    proof (cases "HasErrorCode e ENotFound = Val True")
      case True
      then have "\<exists>e. r = Val (ResultRequeueDefault, Some e)"
        using assms(1) Some unfolding node_vm_result_def
        by (cases "kc_DeleteNode (bc_Client b) (nd_Name node) (world s)";
            cases "fst (kc_DeleteNode (bc_Client b) (nd_Name node) (world s))") auto
      with True Some n show ?thesis by simp
    next
      case False
      then have "emits (\<lambda>_. False) (node_vm_result b node v err)"
        unfolding node_vm_result_def Some option.case
        by (intro emits_bind_dep [OF emits_lift_res]) (auto intro!: emits_intros)
      from emitsD [OF this assms(1)] assms(2,3) show ?thesis by auto
    qed
  qed
qed

text \<open>A write of a controller comes after the Node was read.\<close>

lemma write_after_read:
  assumes "bind (attempt (api (GetNodeCall req) (kc_GetNode (bc_Client b) req))) (case_sum f g) s = (r, s')"
    and "calls s' = calls s @ new" and "(c, ok) \<in> set new" and "c \<noteq> GetNodeCall req"
    and "\<And>e. emits (\<lambda>_. False) (f e)" and "\<And>node. emits (\<lambda>_. True) (g node)"
  obtains node s1 n2 where "read_node b req s node s1" and "g node s1 = (r, s')"
    and "calls s' = calls s1 @ n2" and "(c, ok) \<in> set n2"
proof (rule logged_in_attempt [OF assms(1-3), of "\<lambda>c. c = GetNodeCall req"])
  fix node s1 n2
  assume get: "api (GetNodeCall req) (kc_GetNode (bc_Client b) req) s = (Val node, s1)"
    and rest: "g node s1 = (r, s')" "calls s' = calls s1 @ n2" "(c, ok) \<in> set n2"
  from get have "read_node b req s node s1" by (simp add: api_Val_iff read_node_def)
  with rest that show thesis by blast
qed (auto intro!: emits_intros assms(4-6))

lemma node_lookup_deletes:
  assumes "bind (attempt (GetoVirtClient E b)) (case_sum (\<lambda>e. ret (f e)) (\<lambda>ovirtClient.
       bind (GetVMByName ovirtClient (nd_Name node)) (\<lambda>(v, err). node_vm_result b node v err))) s1 = (r, s')"
    and "calls s' = calls s1 @ n2" and "(DeleteNodeCall n, ok) \<in> set n2"
  obtains C s2 v e s3 e' where "GetoVirtClient E b s1 = (Val C, s2)" and "n = nd_Name node"
    and "GetVMByName C n s2 = (Val (v, Some e), s3)" and "HasErrorCode e ENotFound = Val True"
    and "r = Val (ResultRequeueDefault, Some e')"
  using assms
proof (rule logged_in_attempt [where A = upkeep])
  fix C s2 n3
  assume c: "GetoVirtClient E b s1 = (Val C, s2)"
    and 3: "bind (GetVMByName C (nd_Name node)) (\<lambda>(v, err). node_vm_result b node v err) s2 = (r, s')"
      "calls s' = calls s2 @ n3" "(DeleteNodeCall n, ok) \<in> set n3"
  obtain x s3 n4 where 4: "GetVMByName C (nd_Name node) s2 = (Val x, s3)"
    "(case x of (v, err) \<Rightarrow> node_vm_result b node v err) s3 = (r, s')" "calls s' = calls s3 @ n4"
    "(DeleteNodeCall n, ok) \<in> set n4"
    by (rule logged_in_bind [OF 3, of "\<lambda>c. c = GetVMByNameCall (nd_Name node)"])
       (auto intro!: emits_intros emits_node_vm_result)
  obtain v err where x: "x = (v, err)" by fastforce
  with 4(2-4) node_vm_result_deletes obtain e e' where "n = nd_Name node" "err = Some e"
    "HasErrorCode e ENotFound = Val True" "r = Val (ResultRequeueDefault, Some e')"
    by (metis case_prod_conv)
  with 4(1) x c that show thesis by blast
qed (auto intro!: emits_intros emits_GetoVirtClient emits_node_vm_result simp: upkeep_def)

section \<open>The branches of the provider ID controller\<close>

lemma fetchOvirtVmID_Val:
  assumes "fetchOvirtVmID E b n s = (Val i, s')" and "i \<noteq> []"
  obtains C s1 v where "GetoVirtClient E b s = (Val C, s1)"
    and "GetVMByName C n s1 = (Val (Some v, None), s')" and "vm_id v = i"
proof -
  from assms(1) obtain C v err s1 s2 where 1: "GetoVirtClient E b s = (Val C, s1)"
    "GetVMByName C n s1 = (Val (v, err), s2)"
    and 2: "(case err of
       Some e \<Rightarrow> bind (lift_res (HasErrorCode e ENotFound)) (\<lambda>notFound.
         if notFound then ret [] else fail (wrap_error (''failed getting VM '' @ n @ '' from oVirt: '') e))
     | None \<Rightarrow> bind (deref v) (\<lambda>v. ret (vm_id v))) s2 = (Val i, s')"
    by (auto simp: fetchOvirtVmID_def elim!: bind_ValE)
  from 2 assms(2) obtain u where "err = None" "v = Some u" "vm_id u = i" "s2 = s'"
    by (cases err; cases v) (auto elim!: bind_ValE split: if_splits)
  with 1 that show thesis by blast
qed


lemma update_emits:
  "emits (\<lambda>c. c = UpdateNodeCall (node\<lparr>nd_ProviderID := ProviderIDPrefix @ i\<rparr>))
     (let node' = node\<lparr>nd_ProviderID := ProviderIDPrefix @ i\<rparr> in
                  bind (attempt (api (UpdateNodeCall node') (kc_UpdateNode (bc_Client b) node'))) (\<lambda>u.
                  case u of
                    Inl err \<Rightarrow> ret (ResultRequeueDefault, Some (wrap_error
                      (''failed updating node '' @ nd_Name node @ '': '') err))
                  | Inr _ \<Rightarrow> ret (ResultNoRequeue, None)))"
  by (auto intro!: emits_intros simp: Let_def)

section \<open>A concrete cluster\<close>

text \<open>The state of the concrete world after the calls \<open>log\<close>, with one cached client at work.\<close>

definition demo_base :: "demo_world baseController" where
  "demo_base = NewNodeController demo_k8s 0"

definition demo_gone_node :: Node where
  "demo_gone_node = \<lparr>nd_Name = ''m1'', nd_ProviderID = ProviderIDPrefix @ ''id1''\<rparr>"

definition demo_after :: "(api_call \<times> bool) list \<Rightarrow> vm option \<Rightarrow> Node option \<Rightarrow> demo_world sys" where
  "demo_after log v nd = (demo_sys v nd)\<lparr>caches := [\<lparr>cc_name = ''node'', cc_credentials = Some demo_credentials,
     cc_client = Some demo_engine, cc_clientCreateFunc = Some (CreateNewOVirtClient demo_env)\<rparr>], calls := log\<rparr>"

lemma demo_Get: "Get demo_env 0 (demo_after log v nd) =
   (Val demo_engine, demo_after (log @ [(TestCall, True)]) v nd)"
  by (simp add: Get_def needs_build_def read_cache_run demo_after_def demo_sys_def bind_def attempt_def api_def demo_engine_def)
lemma demo_GetVM: "GetVMByName demo_engine n (demo_after log v nd) =
   (Val (fst (demo_GetVMByName n \<lparr>dw_vm = v, dw_node = nd\<rparr>)), demo_after (log @ [(GetVMByNameCall n, v \<noteq> None \<and> vm_name (the v) = n)]) v nd)"
  by (simp add: GetVMByName_def demo_after_def demo_defs split: option.split)


lemma demo_GetNode: "api (GetNodeCall n) (kc_GetNode demo_k8s n) (demo_after log v (Some nd)) =
   (if nd_Name nd = n then (Val nd, demo_after (log @ [(GetNodeCall n, True)]) v (Some nd))
    else (Fail (ApiStatus ''NotFound'' 404 ''node not found''), demo_after (log @ [(GetNodeCall n, False)]) v (Some nd)))"
  by (simp add: api_def demo_after_def demo_defs)

lemma demo_DeleteNode: "api (DeleteNodeCall n) (kc_DeleteNode demo_k8s n) (demo_after log v nd) =
   (Val (), demo_after (log @ [(DeleteNodeCall n, True)]) v None)"
  by (simp add: api_def demo_after_def demo_defs)

lemma demo_UpdateNode: "api (UpdateNodeCall n) (kc_UpdateNode demo_k8s n) (demo_after log v nd) =
   (Val n, demo_after (log @ [(UpdateNodeCall n, True)]) v (Some n))"
  by (simp add: api_def demo_after_def demo_defs)

lemmas demo_runs = demo_Get demo_GetVM demo_GetNode demo_DeleteNode demo_UpdateNode

lemma demo_clients [simp]:
  "bc_Client demo_base = demo_k8s" "bc_CachedOVirtClient demo_base = 0"
  "GetoVirtClient demo_env demo_base = Get demo_env 0"
  by (simp_all add: demo_base_def NewNodeController_def NewBaseController_def GetoVirtClient_def)

section \<open>Properties\<close>

text \<open>C16: the node controller deletes a Node only when the API server returned that Node with an
  oVirt provider ID and the engine then answered, through the client the cache gave, that
  it has no VM of the Node's name; and a request that deleted a Node ends in an error and
  the default requeue, even though the deletion succeeded.\<close>

theorem node_deleted_only_when_gone:
  assumes "node_Reconcile E b req s = (r, s')" and "calls s' = calls s @ new"
    and "(DeleteNodeCall n, ok) \<in> set new"
  shows "\<exists>node s1 C s2 v e s3. read_node b req s node s1 \<and> n = nd_Name node \<and>
    contains (nd_ProviderID node) ProviderIDPrefix \<and> GetoVirtClient E b s1 = (Val C, s2) \<and>
    GetVMByName C n s2 = (Val (v, Some e), s3) \<and> HasErrorCode e ENotFound = Val True \<and>
    (\<exists>e'. r = Val (ResultRequeueDefault, Some e'))"
  using assms(1) [unfolded node_Reconcile_def] assms(2,3)
proof (rule write_after_read, goal_cases)
  case (4 node s1 n2)
  then have id: "contains (nd_ProviderID node) ProviderIDPrefix" by (auto split: if_splits)
  from 4 id show ?thesis
    by simp (erule node_lookup_deletes, blast+)
qed (auto intro!: emits_intros emits_GetoVirtClient emits_node_vm_result)

lemma demo_node_run: "node_Reconcile demo_env demo_base ''m1'' (demo_after [] None (Some demo_gone_node)) =
  (Val (ResultRequeueDefault, Some (wrap_error ''failed getting VM m1 from oVirt, requeue: ''
     (newError ENotFound ''no such VM''))),
   demo_after [(GetNodeCall ''m1'', True), (TestCall, True), (GetVMByNameCall ''m1'', False), (DeleteNodeCall ''m1'', True)] None None)"
  by (simp add: node_Reconcile_def demo_base_def NewNodeController_def NewBaseController_def demo_runs
      GetoVirtClient_def demo_gone_node_def demo_GetVMByName_def node_vm_result_def newError_def)

theorem node_deleted_only_when_gone_witness:
  "\<exists>node s1 C s2 v e s3. read_node demo_base ''m1'' (demo_after [] None (Some demo_gone_node)) node s1 \<and>
    GetoVirtClient demo_env demo_base s1 = (Val C, s2) \<and>
    GetVMByName C ''m1'' s2 = (Val (v, Some e), s3) \<and> HasErrorCode e ENotFound = Val True"
proof -
  have "calls (snd (node_Reconcile demo_env demo_base ''m1'' (demo_after [] None (Some demo_gone_node)))) =
      calls (demo_after [] None (Some demo_gone_node)) @
      [(GetNodeCall ''m1'', True), (TestCall, True), (GetVMByNameCall ''m1'', False), (DeleteNodeCall ''m1'', True)]"
    unfolding demo_node_run by (simp add: demo_after_def)
  from node_deleted_only_when_gone [OF prod.collapse [symmetric] this, of "''m1''" True] show ?thesis
    by (simp del: demo_clients) blast
qed

text \<open>A Node whose VM the engine does not know is deleted, and the request is still reported
  as failed: the lookup error is returned, with the default delay, and the request comes
  back, to find the Node gone.\<close>

lemma node_of_missing_vm_is_deleted:
  assumes "read_node b req s node s1" and "contains (nd_ProviderID node) ProviderIDPrefix"
    and "GetoVirtClient E b s1 = (Val C, s2)"
    and "GetVMByName C (nd_Name node) s2 = (Val (v, Some e), s3)"
    and "HasErrorCode e ENotFound = Val True"
    and "kc_DeleteNode (bc_Client b) (nd_Name node) (world s3) = (Inr (), w)"
  shows "node_Reconcile E b req s = (Val (ResultRequeueDefault,
       Some (wrap_error (''failed getting VM '' @ nd_Name node @ '' from oVirt, requeue: '') e)),
     s3\<lparr>world := w, calls := calls s3 @ [(DeleteNodeCall (nd_Name node), True)]\<rparr>)"
  using assms node_vm_result_gone [OF assms(5,6)] by (auto simp: read_node_def node_Reconcile_def)

lemma demo_read_node:
  "nd_Name nd = n \<Longrightarrow> bc_Client b = demo_k8s \<Longrightarrow>
     read_node b n (demo_after log v (Some nd)) nd (demo_after (log @ [(GetNodeCall n, True)]) v (Some nd))"
  by (auto simp: read_node_def demo_after_def demo_k8s_def demo_sys_def)

text \<open>A Node whose VM the engine returns is left alone: nothing but the lookup happens, the
  request succeeds, and it comes back after 60 seconds exactly when the VM is down.\<close>

lemma node_of_existing_vm_is_kept:
  assumes "read_node b req s node s1" and "contains (nd_ProviderID node) ProviderIDPrefix"
    and "GetoVirtClient E b s1 = (Val C, s2)"
    and "GetVMByName C (nd_Name node) s2 = (Val (Some v, None), s3)"
  shows "node_Reconcile E b req s = (Val (if vm_status v = VMStatusDown
       then ResultRequeueAfter retryIntervalVMDownSec else ResultNoRequeue, None), s3)"
  using assms by (auto simp: read_node_def node_Reconcile_def node_vm_result_found)

theorem node_of_existing_vm_is_kept_witness:
  "\<exists>s'. node_Reconcile demo_env demo_base ''m1''
     (demo_after [] (Some ((demo_vm ''m1'')\<lparr>vm_status := VMStatusDown\<rparr>)) (Some demo_gone_node)) =
     (Val (ResultRequeueAfter 60, None), s') \<and> dw_node (world s') = Some demo_gone_node"
proof -
  let ?v = "(demo_vm ''m1'')\<lparr>vm_status := VMStatusDown\<rparr>"
  have rd: "read_node demo_base ''m1'' (demo_after [] (Some ?v) (Some demo_gone_node)) demo_gone_node
      (demo_after [(GetNodeCall ''m1'', True)] (Some ?v) (Some demo_gone_node))"
    using demo_read_node [of demo_gone_node "''m1''" demo_base "[]"] by (simp add: demo_gone_node_def)
  have gc: "GetoVirtClient demo_env demo_base (demo_after [(GetNodeCall ''m1'', True)] (Some ?v) (Some demo_gone_node)) =
      (Val demo_engine, demo_after [(GetNodeCall ''m1'', True), (TestCall, True)] (Some ?v) (Some demo_gone_node))"
    by (simp add: demo_runs)
  show ?thesis
    using node_of_existing_vm_is_kept [OF rd _ gc, of ?v]
    by (simp add: demo_runs demo_gone_node_def demo_GetVMByName_def demo_vm_def retryIntervalVMDownSec_def)
       (simp add: demo_after_def demo_sys_def)
qed

text \<open>C19: the provider ID controller writes a Node only when the Node had no provider ID and the
  engine returned a VM of the Node's name; it writes the Node as it was read with the
  provider ID made of the prefix and this VM's identifier, and nothing else changed.\<close>

theorem provider_id_written_is_the_vm_id:
  assumes "providerID_Reconcile E b req s = (r, s')" and "calls s' = calls s @ new"
    and "(UpdateNodeCall node', ok) \<in> set new"
  shows "\<exists>node s1 C s2 v s3. read_node b req s node s1 \<and> nd_ProviderID node = [] \<and>
    GetoVirtClient E b s1 = (Val C, s2) \<and> GetVMByName C (nd_Name node) s2 = (Val (Some v, None), s3) \<and>
    vm_id v \<noteq> [] \<and> node' = node\<lparr>nd_ProviderID := ProviderIDPrefix @ vm_id v\<rparr>"
  using assms(1) [unfolded providerID_Reconcile_def] assms(2,3)
proof (rule write_after_read, goal_cases)
  case (4 node s1 n2)
  then have id: "nd_ProviderID node = []" by (auto split: if_splits)
  from 4(2) [unfolded if_P [OF id]] 4(3,4) show ?thesis
  proof (rule logged_in_attempt [where A = "\<lambda>c. upkeep c \<or> c = GetVMByNameCall (nd_Name node)"], goal_cases)
    case (5 i s2 n3)
    then have i: "i \<noteq> []" and n3: "(UpdateNodeCall node', ok) \<in> set n3" by (auto split: if_splits)
    obtain C s3 v where "GetoVirtClient E b s1 = (Val C, s3)"
      "GetVMByName C (nd_Name node) s3 = (Val (Some v, None), s2)" "vm_id v = i"
      using 5(1) i by (rule fetchOvirtVmID_Val)
    moreover have "node' = node\<lparr>nd_ProviderID := ProviderIDPrefix @ i\<rparr>"
      using n3 emitsD [OF update_emits 5(2) [unfolded if_not_P [OF i]]] 5(3) by auto
    ultimately show ?case using 4(1) id i by blast
  qed (auto intro!: emits_intros emits_fetchOvirtVmID simp: upkeep_def Let_def)
qed (auto intro!: emits_intros emits_fetchOvirtVmID simp: Let_def)

definition demo_new_node :: Node where
  "demo_new_node = \<lparr>nd_Name = ''m1'', nd_ProviderID = []\<rparr>"

lemma demo_providerID_run: "providerID_Reconcile demo_env demo_base ''m1''
    (demo_after [] (Some (demo_vm ''m1'')) (Some demo_new_node)) = (Val (ResultNoRequeue, None),
   demo_after [(GetNodeCall ''m1'', True), (TestCall, True), (GetVMByNameCall ''m1'', True),
      (UpdateNodeCall demo_gone_node, True)] (Some (demo_vm ''m1'')) (Some demo_gone_node))"
  by (simp add: providerID_Reconcile_def fetchOvirtVmID_def demo_runs demo_new_node_def
      demo_GetVMByName_def demo_vm_def) (simp add: demo_gone_node_def demo_runs Let_def)

theorem provider_id_written_is_the_vm_id_witness:
  "\<exists>node s1 C s2 v s3. read_node demo_base ''m1'' (demo_after [] (Some (demo_vm ''m1'')) (Some demo_new_node)) node s1 \<and>
    GetoVirtClient demo_env demo_base s1 = (Val C, s2) \<and>
    GetVMByName C (nd_Name node) s2 = (Val (Some v, None), s3) \<and>
    demo_gone_node = node\<lparr>nd_ProviderID := ProviderIDPrefix @ vm_id v\<rparr>"
proof -
  have "calls (snd (providerID_Reconcile demo_env demo_base ''m1'' (demo_after [] (Some (demo_vm ''m1'')) (Some demo_new_node)))) =
      calls (demo_after [] (Some (demo_vm ''m1'')) (Some demo_new_node)) @
      [(GetNodeCall ''m1'', True), (TestCall, True), (GetVMByNameCall ''m1'', True), (UpdateNodeCall demo_gone_node, True)]"
    unfolding demo_providerID_run by (simp add: demo_after_def)
  from provider_id_written_is_the_vm_id [OF prod.collapse [symmetric] this, of demo_gone_node True] show ?thesis
    by (auto simp del: demo_clients) blast
qed

text \<open>A Node without a provider ID whose VM the engine returns gets that VM's identifier, and
  the request is done.\<close>

lemma empty_provider_id_is_filled_in:
  assumes "read_node b req s node s1" and "nd_ProviderID node = []"
    and "GetoVirtClient E b s1 = (Val C, s2)"
    and "GetVMByName C (nd_Name node) s2 = (Val (Some v, None), s3)" and "vm_id v \<noteq> []"
    and "kc_UpdateNode (bc_Client b) (node\<lparr>nd_ProviderID := ProviderIDPrefix @ vm_id v\<rparr>) (world s3) = (Inr u, w)"
  shows "providerID_Reconcile E b req s = (Val (ResultNoRequeue, None),
     s3\<lparr>world := w, calls := calls s3 @
        [(UpdateNodeCall (node\<lparr>nd_ProviderID := ProviderIDPrefix @ vm_id v\<rparr>), True)]\<rparr>)"
  using assms by (auto simp: read_node_def providerID_Reconcile_def fetchOvirtVmID_def Let_def)

theorem empty_provider_id_is_filled_in_witness:
  "\<exists>s'. providerID_Reconcile demo_env demo_base ''m1''
     (demo_after [] (Some (demo_vm ''m1'')) (Some demo_new_node)) =
     (Val (ResultNoRequeue, None), s') \<and> dw_node (world s') = Some demo_gone_node"
proof -
  let ?v = "demo_vm ''m1''"
  have rd: "read_node demo_base ''m1'' (demo_after [] (Some ?v) (Some demo_new_node)) demo_new_node
      (demo_after [(GetNodeCall ''m1'', True)] (Some ?v) (Some demo_new_node))"
    using demo_read_node [of demo_new_node "''m1''" demo_base "[]"] by (simp add: demo_new_node_def)
  have gc: "GetoVirtClient demo_env demo_base (demo_after [(GetNodeCall ''m1'', True)] (Some ?v) (Some demo_new_node)) =
      (Val demo_engine, demo_after [(GetNodeCall ''m1'', True), (TestCall, True)] (Some ?v) (Some demo_new_node))"
    by (simp add: demo_runs)
  show ?thesis
    using empty_provider_id_is_filled_in [OF rd _ gc, of ?v]
    by (simp add: demo_runs demo_new_node_def demo_GetVMByName_def demo_vm_def)
       (simp add: demo_after_def demo_sys_def demo_k8s_def demo_gone_node_def)
qed

text \<open>Neither controller ever returns an error without asking for the request to come back
  after the default 30 seconds, and neither uses the exceptional exit.\<close>

lemma failed_requests_are_retried:
  "(case fst (node_Reconcile E b req s) of
      Val (res, err) \<Rightarrow> err = None \<or> res_RequeueAfter res = 30
    | Fail e \<Rightarrow> False | Crash p \<Rightarrow> True) \<and>
   (case fst (providerID_Reconcile E b req s) of
      Val (res, err) \<Rightarrow> err = None \<or> res_RequeueAfter res = 30
    | Fail e \<Rightarrow> False | Crash p \<Rightarrow> True)"
proof -
  obtain r1 s1 r2 s2 where 1: "node_Reconcile E b req s = (r1, s1)"
    and 2: "providerID_Reconcile E b req s = (r2, s2)" by fastforce
  have "case r1 of Val (res, err) \<Rightarrow> err = None \<or> res_RequeueAfter res = 30 | Fail e \<Rightarrow> False | Crash p \<Rightarrow> True"
    by (rule node_ctrl.reconcile_cases [OF 1]) (simp_all add: ResultRequeueDefault_def requeueDefaultTime_def)
  moreover have "case r2 of Val (res, err) \<Rightarrow> err = None \<or> res_RequeueAfter res = 30 | Fail e \<Rightarrow> False | Crash p \<Rightarrow> True"
    by (rule providerID_ctrl.reconcile_cases [OF 2]) (simp_all add: ResultRequeueDefault_def requeueDefaultTime_def)
  ultimately show ?thesis by (simp add: 1 2)
qed

end
