(* ===== verification/Flag_Parsing.thy ===== *)
theory Flag_Parsing
  imports Go_Net
begin

text \<open>
  The command line of the manager (\<open>parseFlags\<close> in \<open>cmd/manager/main.go\<close>), with what it
  uses of Go's \<open>flag\<close> and \<open>time\<close> packages. Durations are nanoseconds. The flags other
  packages register (\<open>klog.InitFlags\<close> and the imported libraries) are a parameter, and so
  is the floating point product that converts the fraction of a duration.
\<close>

section \<open>time.ParseDuration\<close>

text \<open>\<open>fraction f k unit\<close> is \<open>f / 10^k\<close> units in nanoseconds, as Go's float64 rounds it.\<close>

type_synonym fraction = "nat \<Rightarrow> nat \<Rightarrow> nat \<Rightarrow> nat"

fun leadingInt :: "nat \<Rightarrow> string \<Rightarrow> (nat \<times> string) option" where
  "leadingInt x [] = Some (x, [])"
| "leadingInt x (c # cs) =
     (if \<not> is_digit c then Some (x, c # cs)
      else if x > 2 ^ 63 div 10 then None
      else let y = x * 10 + (of_char c - 48) in
        if y > 2 ^ 63 then None else leadingInt y cs)"

text \<open>Digits that no longer fit are skipped.\<close>

fun leadingFraction :: "bool \<Rightarrow> nat \<Rightarrow> nat \<Rightarrow> string \<Rightarrow> nat \<times> nat \<times> string" where
  "leadingFraction overflow x k [] = (x, k, [])"
| "leadingFraction overflow x k (c # cs) =
     (if \<not> is_digit c then (x, k, c # cs)
      else if overflow \<or> x > (2 ^ 63 - 1) div 10 then leadingFraction True x k cs
      else let y = x * 10 + (of_char c - 48) in
        if y > 2 ^ 63 then leadingFraction True x k cs else leadingFraction False y (k + 1) cs)"

definition microsecond_names :: "string list" where
  "microsecond_names = [''us'', [CHR 0xC2, CHR 0xB5, CHR ''s''], [CHR 0xCE, CHR 0xBC, CHR ''s'']]"

definition unitMap :: "string \<Rightarrow> nat option" where
  "unitMap u =
     (if u = ''ns'' then Some 1
      else if u \<in> set microsecond_names then Some 1000
      else if u = ''ms'' then Some 1000000
      else if u = ''s'' then Some 1000000000
      else if u = ''m'' then Some 60000000000
      else if u = ''h'' then Some 3600000000000
      else None)"

definition invalid_duration :: "string \<Rightarrow> gerr" where
  "invalid_duration orig = ErrorString (''time: invalid duration '' @ go_quote orig)"

definition in_number :: "char \<Rightarrow> bool" where
  "in_number c \<longleftrightarrow> c = CHR ''.'' \<or> is_digit c"

text \<open>The digits after the point, their count and whether there were any.\<close>

definition fraction_part :: "string \<Rightarrow> nat \<times> nat \<times> string \<times> bool" where
  "fraction_part s = (case s of
       [] \<Rightarrow> (0, 0, s, False)
     | c # t \<Rightarrow> if c = CHR ''.''
         then (case leadingFraction False 0 0 t of (f, k, t') \<Rightarrow> (f, k, t', length t' \<noteq> length t))
         else (0, 0, s, False))"

text \<open>One number with its unit: its nanoseconds and the rest of the text.\<close>

definition next_part :: "fraction \<Rightarrow> string \<Rightarrow> string \<Rightarrow> gerr + (nat \<times> string)" where
  "next_part fr orig s =
     (if \<not> in_number (hd s) then Inl (invalid_duration orig)
      else case leadingInt 0 s of
        None \<Rightarrow> Inl (invalid_duration orig)
      | Some (v, s1) \<Rightarrow> (case fraction_part s1 of (f, k, s2, post) \<Rightarrow>
          if length s1 = length s \<and> \<not> post then Inl (invalid_duration orig)
          else let u = takeWhile (\<lambda>c. \<not> in_number c) s2 in
            if u = [] then Inl (ErrorString (''time: missing unit in duration '' @ go_quote orig))
            else case unitMap u of
              None \<Rightarrow> Inl (ErrorString (''time: unknown unit '' @ go_quote u @ '' in duration '' @ go_quote orig))
            | Some unit \<Rightarrow>
                if v > 2 ^ 63 div unit then Inl (invalid_duration orig)
                else let w = (if f > 0 then (v * unit + fr f k unit) mod 2 ^ 64 else v * unit) in
                  if w > 2 ^ 63 then Inl (invalid_duration orig)
                  else Inr (w, dropWhile (\<lambda>c. \<not> in_number c) s2)))"

lemma leadingInt_shorter: "leadingInt x s = Some (v, r) \<Longrightarrow> length r \<le> length s"
  by (induction x s arbitrary: v r rule: leadingInt.induct)
     (auto simp: Let_def split: if_splits, fastforce)

lemma leadingFraction_shorter: "leadingFraction b x k s = (f, j, r) \<Longrightarrow> length r \<le> length s"
  by (induction b x k s arbitrary: f j r rule: leadingFraction.induct)
     (auto simp: Let_def le_SucI split: if_splits)

lemma next_part_shorter:
  assumes "next_part fr orig s = Inr (w, r)" shows "length r < length s"
proof -
  from assms obtain v s1 f k s2 post where 1: "leadingInt 0 s = Some (v, s1)"
    and 2: "fraction_part s1 = (f, k, s2, post)"
    and u: "takeWhile (\<lambda>c. \<not> in_number c) s2 \<noteq> []" and r: "r = dropWhile (\<lambda>c. \<not> in_number c) s2"
    by (auto simp: next_part_def Let_def split: if_splits option.splits prod.splits)
  from 2 have "length s2 \<le> length s1"
    by (auto simp: fraction_part_def dest!: leadingFraction_shorter split: list.splits if_splits prod.splits)
  moreover have "length r < length s2"
    using u unfolding r by (metis add_less_cancel_right length_append length_greater_0_conv
        takeWhile_dropWhile_id add_0)
  ultimately show ?thesis using leadingInt_shorter [OF 1] by simp
qed

function duration_loop :: "fraction \<Rightarrow> string \<Rightarrow> nat \<Rightarrow> string \<Rightarrow> gerr + nat" where
  "duration_loop fr orig d s =
     (if s = [] then Inr d
      else case next_part fr orig s of
        Inl err \<Rightarrow> Inl err
      | Inr p \<Rightarrow>
          let d' = (d + fst p) mod 2 ^ 64 in
          if d' > 2 ^ 63 then Inl (invalid_duration orig) else duration_loop fr orig d' (snd p))"
  by pat_completeness auto
termination
  by (relation "measure (\<lambda>(fr, orig, d, s). length s)") (auto simp: next_part_shorter)

declare duration_loop.simps [simp del]

definition ParseDuration :: "fraction \<Rightarrow> string \<Rightarrow> gerr + int" where
  "ParseDuration fr orig =
     (let signed = (orig \<noteq> [] \<and> (hd orig = CHR ''-'' \<or> hd orig = CHR ''+''));
          neg = (signed \<and> hd orig = CHR ''-'');
          s = (if signed then tl orig else orig) in
      if s = ''0'' then Inr 0
      else if s = [] then Inl (invalid_duration orig)
      else case duration_loop fr orig 0 s of
        Inl err \<Rightarrow> Inl err
      | Inr d \<Rightarrow>
          if neg then Inr (- int d)
          else if d > 2 ^ 63 - 1 then Inl (invalid_duration orig)
          else Inr (int d))"

text \<open>Every duration the parser accepts fits the 64 bits of \<open>time.Duration\<close>.\<close>

lemma duration_loop_le: "duration_loop fr orig d s = Inr n \<Longrightarrow> d \<le> 2 ^ 63 \<Longrightarrow> n \<le> 2 ^ 63"
proof (induction fr orig d s rule: duration_loop.induct)
  case (1 fr orig d s)
  then show ?case
    by (subst (asm) (2) duration_loop.simps) (auto simp: Let_def split: if_splits sum.splits)
qed

definition int64_range :: "int \<Rightarrow> bool" where
  "int64_range n \<longleftrightarrow> - (2 ^ 63) \<le> n \<and> n < 2 ^ 63"

lemma ParseDuration_range: "ParseDuration fr s = Inr n \<Longrightarrow> int64_range n"
  by (auto simp: int64_range_def ParseDuration_def Let_def dest!: duration_loop_le split: if_splits sum.splits)

text \<open>A number of nanoseconds in decimal is read as that number.\<close>

lemma leadingInt_digits:
  assumes "\<forall>c \<in> set ds. is_digit c"
    and "foldl (\<lambda>a c. 10 * a + (of_char c - 48)) x ds \<le> 2 ^ 63"
  shows "leadingInt x (ds @ r) = leadingInt (foldl (\<lambda>a c. 10 * a + (of_char c - 48)) x ds) r"
  using assms
proof (induction ds arbitrary: x)
  case Nil
  then show ?case by simp
next
  case (Cons c cs)
  have grows: "y \<le> foldl (\<lambda>a c. 10 * a + (of_char c - 48 :: nat)) y cs" for y
  proof (induction cs arbitrary: y)
    case (Cons a cs)
    from Cons [of "10 * y + (of_char a - 48)"] show ?case by (simp add: order_trans [rotated])
  qed simp
  let ?y = "10 * x + (of_char c - 48) :: nat"
  from Cons.prems(2) grows [of ?y] have y: "?y \<le> 2 ^ 63" by simp
  then have "\<not> x > 2 ^ 63 div 10" by simp
  with y Cons.prems(1) have "leadingInt x ((c # cs) @ r) = leadingInt ?y (cs @ r)"
    by (simp add: Let_def mult.commute)
  with Cons show ?case by simp
qed

lemma is_digit_digit: "d < 10 \<Longrightarrow> is_digit (digit d)"
  by (simp add: is_digit_def)

lemma itoa_digits: "\<forall>c \<in> set (itoa n). is_digit c"
proof (induction n rule: itoa.induct)
  case (1 n)
  then show ?case by (subst itoa.simps) (auto simp: is_digit_digit)
qed

lemma itoa_not_Nil [simp]: "itoa n \<noteq> []"
  by (subst itoa.simps) simp

lemma leadingInt_itoa:
  assumes "n \<le> 2 ^ 63" and "r = [] \<or> \<not> is_digit (hd r)"
  shows "leadingInt 0 (itoa n @ r) = Some (n, r)"
proof -
  have v: "foldl (\<lambda>a c. 10 * a + (of_char c - 48)) 0 (itoa n) = n"
    using dec_value_itoa [of n] by (simp only: dec_value_def)
  have "leadingInt 0 (itoa n @ r) = leadingInt n r"
    using leadingInt_digits [OF itoa_digits, of 0 n r] assms(1) by (simp only: v)
  with assms(2) show ?thesis by (cases r) simp_all
qed

definition duration_string :: "int \<Rightarrow> string" where
  "duration_string n = int_string n @ ''ns''"

lemma hd_itoa: "is_digit (hd (itoa n))"
  using itoa_digits [of n] by simp

lemma next_part_itoa:
  assumes "n \<le> 2 ^ 63" shows "next_part fr orig (itoa n @ ''ns'') = Inr (n, [])"
proof -
  have l: "leadingInt 0 (itoa n @ ''ns'') = Some (n, ''ns'')"
    by (rule leadingInt_itoa [OF assms]) (simp add: is_digit_def)
  have "in_number (hd (itoa n @ ''ns''))" using hd_itoa [of n] by (simp add: in_number_def)
  moreover have "\<not> in_number (CHR ''n'')" "\<not> in_number (CHR ''s'')"
    by (simp_all add: in_number_def is_digit_def)
  ultimately show ?thesis
    using assms by (simp add: next_part_def l fraction_part_def Let_def unitMap_def)
qed

lemma ParseDuration_string:
  assumes "- (2 ^ 63) \<le> n" and "n < 2 ^ 63"
  shows "ParseDuration fr (duration_string n) = Inr n"
proof -
  have loop: "duration_loop fr orig 0 (itoa k @ ''ns'') = Inr k" if "k \<le> 2 ^ 63" for orig k
    by (subst duration_loop.simps)
      (use that in \<open>simp add: next_part_itoa Let_def duration_loop.simps [where s = "[]"]\<close>)
  have "itoa k @ ''ns'' \<noteq> ''0''" for k by (simp add: append_eq_Cons_conv)
  moreover have "hd (itoa k) \<noteq> CHR ''-''" "hd (itoa k) \<noteq> CHR ''+''" for k
    using hd_itoa [of k] by (auto simp: is_digit_def)
  ultimately show ?thesis
    using assms by (simp add: duration_string_def int_string_def ParseDuration_def Let_def loop) arith
qed

section \<open>The flags of the manager\<close>

text \<open>\<open>time.Second\<close> and \<open>time.Minute\<close>, and the durations of the leader election.\<close>

definition Second :: int where "Second = 1000000000"
definition Minute :: int where "Minute = 60 * Second"

definition leaseDuration :: int where "leaseDuration = 120 * Second"
definition renewDeadline :: int where "renewDeadline = 110 * Second"
definition retryPeriod :: int where "retryPeriod = 20 * Second"
definition syncPeriod :: int where "syncPeriod = 10 * Minute"

record Flags =
  fl_Namespace :: string
  fl_MetricsAddr :: string
  fl_HealthAddr :: string
  fl_LeaderElectResourceNamespace :: string
  fl_LeaderElect :: bool
  fl_LeaderElectLeaseDuration :: int

definition flag_defaults :: Flags where
  "flag_defaults = \<lparr>fl_Namespace = [], fl_MetricsAddr = '':8081'', fl_HealthAddr = '':9440'',
     fl_LeaderElectResourceNamespace = [], fl_LeaderElect = False,
     fl_LeaderElectLeaseDuration = leaseDuration\<rparr>"

text \<open>
  A registered flag by its kind: where its value goes. Of a foreign flag it matters whether
  it is boolean and which values its \<open>Set\<close> refuses.
\<close>

datatype flag_value =
    StringVar "string \<Rightarrow> Flags \<Rightarrow> Flags"
  | BoolVar "bool \<Rightarrow> Flags \<Rightarrow> Flags"
  | DurationVar "int \<Rightarrow> Flags \<Rightarrow> Flags"
  | ForeignVar bool "string \<Rightarrow> gerr option"

type_synonym foreign_flags = "string \<Rightarrow> (bool \<times> (string \<Rightarrow> gerr option)) option"

definition manager_flags :: "(string \<times> flag_value) list" where
  "manager_flags =
     [(''namespace'', StringVar (\<lambda>v. fl_Namespace_update (\<lambda>_. v))),
      (''metrics-addr'', StringVar (\<lambda>v. fl_MetricsAddr_update (\<lambda>_. v))),
      (''health-addr'', StringVar (\<lambda>v. fl_HealthAddr_update (\<lambda>_. v))),
      (''leader-elect-resource-namespace'',
         StringVar (\<lambda>v. fl_LeaderElectResourceNamespace_update (\<lambda>_. v))),
      (''leader-elect'', BoolVar (\<lambda>v. fl_LeaderElect_update (\<lambda>_. v))),
      (''leader-elect-lease-duration'', DurationVar (\<lambda>v. fl_LeaderElectLeaseDuration_update (\<lambda>_. v)))]"

definition formal :: "foreign_flags \<Rightarrow> string \<Rightarrow> flag_value option" where
  "formal other name = (case map_of manager_flags name of
       Some v \<Rightarrow> Some v
     | None \<Rightarrow> map_option (\<lambda>(b, check). ForeignVar b check) (other name))"

definition IsBoolFlag :: "flag_value \<Rightarrow> bool" where
  "IsBoolFlag v = (case v of BoolVar _ \<Rightarrow> True | ForeignVar b _ \<Rightarrow> b | _ \<Rightarrow> False)"

text \<open>\<open>flag.Value.Set\<close>; the standard kinds report only that they could not parse.\<close>

definition set_value :: "fraction \<Rightarrow> flag_value \<Rightarrow> string \<Rightarrow> Flags \<Rightarrow> gerr + Flags" where
  "set_value fr v s f = (case v of
       StringVar put \<Rightarrow> Inr (put s f)
     | BoolVar put \<Rightarrow> (case ParseBool s of
           Inl _ \<Rightarrow> Inl (ErrorString ''parse error'') | Inr b \<Rightarrow> Inr (put b f))
     | DurationVar put \<Rightarrow> (case ParseDuration fr s of
           Inl _ \<Rightarrow> Inl (ErrorString ''parse error'') | Inr d \<Rightarrow> Inr (put d f))
     | ForeignVar _ check \<Rightarrow> (case check s of Some e \<Rightarrow> Inl e | None \<Rightarrow> Inr f))"

section \<open>flag.Parse\<close>

text \<open>
  One round of the parser on a non-empty argument list: the flags end here (with the
  arguments that are left), one flag was set, or parsing failed. \<open>HelpWanted\<close> is
  \<open>flag.ErrHelp\<close>.
\<close>

datatype parse_step =
    FlagsEnd "string list"
  | FlagSet Flags "string list"
  | BadFlag gerr
  | HelpWanted

definition split_value :: "string \<Rightarrow> string \<times> string option" where
  "split_value name =
     (let n = hd name # takeWhile (\<lambda>c. c \<noteq> CHR ''='') (tl name);
          r = dropWhile (\<lambda>c. c \<noteq> CHR ''='') (tl name) in
      (n, if r = [] then None else Some (tl r)))"

definition set_flag :: "fraction \<Rightarrow> foreign_flags \<Rightarrow> Flags \<Rightarrow> string \<Rightarrow> string list \<Rightarrow> parse_step" where
  "set_flag fr other f token args = (case split_value token of (name, value) \<Rightarrow>
     (case formal other name of
        None \<Rightarrow> if name = ''help'' \<or> name = ''h'' then HelpWanted
                else BadFlag (ErrorString (''flag provided but not defined: -'' @ name))
      | Some v \<Rightarrow>
          if IsBoolFlag v then
            (case value of
               Some s \<Rightarrow> (case set_value fr v s f of
                   Inl err \<Rightarrow> BadFlag (ErrorString (''invalid boolean value '' @ go_quote s @ '' for -'' @ name
                                @ '': '' @ error_string err))
                 | Inr f' \<Rightarrow> FlagSet f' args)
             | None \<Rightarrow> (case set_value fr v ''true'' f of
                   Inl err \<Rightarrow> BadFlag (ErrorString (''invalid boolean flag '' @ name @ '': '' @ error_string err))
                 | Inr f' \<Rightarrow> FlagSet f' args))
          else (case (value, args) of
              (None, []) \<Rightarrow> BadFlag (ErrorString (''flag needs an argument: -'' @ name))
            | _ \<Rightarrow> let s = (case value of Some s \<Rightarrow> s | None \<Rightarrow> hd args);
                      rest = (case value of Some s \<Rightarrow> args | None \<Rightarrow> tl args) in
                (case set_value fr v s f of
                   Inl err \<Rightarrow> BadFlag (ErrorString (''invalid value '' @ go_quote s @ '' for flag -'' @ name
                                @ '': '' @ error_string err))
                 | Inr f' \<Rightarrow> FlagSet f' rest))))"

definition parse_one :: "fraction \<Rightarrow> foreign_flags \<Rightarrow> Flags \<Rightarrow> string \<Rightarrow> string list \<Rightarrow> parse_step" where
  "parse_one fr other f s args =
     (if length s < 2 \<or> s ! 0 \<noteq> CHR ''-'' then FlagsEnd (s # args)
      else if s = ''--'' then FlagsEnd args
      else let token = (if s ! 1 = CHR ''-'' then drop 2 s else drop 1 s) in
        if token = [] \<or> hd token = CHR ''-'' \<or> hd token = CHR ''=''
        then BadFlag (ErrorString (''bad flag syntax: '' @ s))
        else set_flag fr other f token args)"

lemma set_flag_shorter: "set_flag fr other f token args = FlagSet f' rest \<Longrightarrow> length rest \<le> length args"
  by (cases args) (auto simp: set_flag_def Let_def split: prod.splits option.splits if_splits sum.splits)

lemma parse_one_shorter: "parse_one fr other f s args = FlagSet f' rest \<Longrightarrow> length rest \<le> length args"
  by (auto simp: parse_one_def Let_def dest: set_flag_shorter split: if_splits)

lemma parse_one_end: "parse_one fr other f s args = FlagsEnd rest \<Longrightarrow> length rest \<le> Suc (length args)"
  by (cases args) (auto simp: parse_one_def set_flag_def Let_def
      split: if_splits prod.splits option.splits sum.splits)

text \<open>
  The whole command line. \<open>flag.CommandLine\<close> exits on errors: with status 2, or 0 when help
  was asked for.
\<close>

datatype parse_result = Parsed Flags "string list" | Exited int

function parse_args :: "fraction \<Rightarrow> foreign_flags \<Rightarrow> Flags \<Rightarrow> string list \<Rightarrow> parse_result" where
  "parse_args fr other f [] = Parsed f []"
| "parse_args fr other f (s # args) =
     (case parse_one fr other f s args of
        FlagsEnd rest \<Rightarrow> Parsed f rest
      | FlagSet f' rest \<Rightarrow> parse_args fr other f' rest
      | BadFlag err \<Rightarrow> Exited 2
      | HelpWanted \<Rightarrow> Exited 0)"
  by pat_completeness auto
termination
  by (relation "measure (\<lambda>(fr, other, f, args). length args)")
     (auto simp: le_imp_less_Suc parse_one_shorter)

text \<open>
  Registering a flag under a name another package has taken panics; the panic ends the
  process with status 2 as well.
\<close>

definition parseFlags :: "fraction \<Rightarrow> foreign_flags \<Rightarrow> string list \<Rightarrow> parse_result" where
  "parseFlags fr other args =
     (if list_ex (\<lambda>(name, v). other name \<noteq> None) manager_flags then Exited 2
      else parse_args fr other flag_defaults args)"

section \<open>Settings and their parse\<close>

text \<open>A setting \<open>-name=value\<close>, with one minus or two.\<close>

definition setting :: "string \<Rightarrow> string \<Rightarrow> string" where
  "setting name v = CHR ''-'' # name @ CHR ''='' # v"

definition flag_name_ok :: "string \<Rightarrow> bool" where
  "flag_name_ok name \<longleftrightarrow> name \<noteq> [] \<and> CHR ''='' \<notin> set name \<and> hd name \<noteq> CHR ''-''"

lemma split_value_setting: "flag_name_ok name \<Longrightarrow> split_value (name @ CHR ''='' # v) = (name, Some v)"
  by (cases name) (simp_all add: split_value_def flag_name_ok_def Let_def takeWhile_append dropWhile_append)

lemma parse_one_setting:
  assumes "flag_name_ok name"
  shows "parse_one fr other f (setting name v) args = set_flag fr other f (name @ CHR ''='' # v) args"
    and "parse_one fr other f (CHR ''-'' # setting name v) args = set_flag fr other f (name @ CHR ''='' # v) args"
proof -
  from assms obtain c cs where "name = c # cs" "c \<noteq> CHR ''-''" "c \<noteq> CHR ''=''"
    by (cases name) (auto simp: flag_name_ok_def)
  then show "parse_one fr other f (setting name v) args = set_flag fr other f (name @ CHR ''='' # v) args"
    and "parse_one fr other f (CHR ''-'' # setting name v) args = set_flag fr other f (name @ CHR ''='' # v) args"
    by (simp_all add: parse_one_def setting_def Let_def)
qed

lemma set_flag_setting:
  assumes "flag_name_ok name" and "map_of manager_flags name = Some var" and "set_value fr var v f = Inr f'"
  shows "set_flag fr other f (name @ CHR ''='' # v) args = FlagSet f' args"
  using assms by (simp add: set_flag_def split_value_setting formal_def)

lemmas parse_setting = parse_one_setting set_flag_setting

definition render_flags :: "Flags \<Rightarrow> string list" where
  "render_flags f =
     [setting ''namespace'' (fl_Namespace f),
      setting ''metrics-addr'' (fl_MetricsAddr f),
      setting ''health-addr'' (fl_HealthAddr f),
      setting ''leader-elect-resource-namespace'' (fl_LeaderElectResourceNamespace f),
      setting ''leader-elect'' (if fl_LeaderElect f then ''true'' else ''false''),
      setting ''leader-elect-lease-duration'' (duration_string (fl_LeaderElectLeaseDuration f))]"

definition no_clash :: "foreign_flags \<Rightarrow> bool" where
  "no_clash other \<longleftrightarrow> \<not> list_ex (\<lambda>(name, v). other name \<noteq> None) manager_flags"

text \<open>Only the duration flag writes the lease duration, and only with what the parser accepts.\<close>

lemma manager_flags_put:
  assumes "(name, var) \<in> set manager_flags" and "set_value fr var s f = Inr f'"
    and "int64_range (fl_LeaderElectLeaseDuration f)"
  shows "int64_range (fl_LeaderElectLeaseDuration f')"
  using assms
  by (auto simp: manager_flags_def set_value_def ParseDuration_range split: sum.splits)

lemma set_value_range:
  assumes "formal other name = Some var" and "set_value fr var s f = Inr f'"
    and "int64_range (fl_LeaderElectLeaseDuration f)"
  shows "int64_range (fl_LeaderElectLeaseDuration f')"
proof (cases "map_of manager_flags name")
  case None
  with assms show ?thesis by (auto simp: formal_def set_value_def split: option.splits)
next
  case (Some v)
  with assms manager_flags_put [OF map_of_SomeD [OF Some]] show ?thesis by (simp add: formal_def)
qed

lemma set_flag_range:
  assumes "set_flag fr other f token args = FlagSet f' rest"
    and "int64_range (fl_LeaderElectLeaseDuration f)"
  shows "int64_range (fl_LeaderElectLeaseDuration f')"
proof -
  from assms(1) obtain name var s where "formal other name = Some var" and "set_value fr var s f = Inr f'"
    by (auto simp: set_flag_def Let_def split: prod.splits option.splits list.splits if_splits sum.splits)
  with assms(2) show ?thesis by (simp add: set_value_range)
qed

lemma parse_args_range:
  "parse_args fr other f args = Parsed f' rest \<Longrightarrow> int64_range (fl_LeaderElectLeaseDuration f) \<Longrightarrow>
     int64_range (fl_LeaderElectLeaseDuration f')"
  by (induction fr other f args rule: parse_args.induct)
     (auto simp: parse_one_def Let_def dest: set_flag_range split: parse_step.splits if_splits)

section \<open>Properties\<close>

text \<open>What one setting of each flag does to the rest of the parse.\<close>

lemma parse_known:
  assumes "(name, var) \<in> set manager_flags" and "set_value fr var v g = Inr g'"
  shows "parse_args fr other g (setting name v # args) = parse_args fr other g' args"
proof -
  have "flag_name_ok name" and "map_of manager_flags name = Some var"
    using assms(1) by (auto simp: manager_flags_def flag_name_ok_def)
  with assms(2) show ?thesis by (simp add: parse_setting)
qed

lemma parse_string_settings:
  "parse_args fr other g (setting ''namespace'' v # args) =
     parse_args fr other (g\<lparr>fl_Namespace := v\<rparr>) args"
  "parse_args fr other g (setting ''metrics-addr'' v # args) =
     parse_args fr other (g\<lparr>fl_MetricsAddr := v\<rparr>) args"
  "parse_args fr other g (setting ''health-addr'' v # args) =
     parse_args fr other (g\<lparr>fl_HealthAddr := v\<rparr>) args"
  "parse_args fr other g (setting ''leader-elect-resource-namespace'' v # args) =
     parse_args fr other (g\<lparr>fl_LeaderElectResourceNamespace := v\<rparr>) args"
  by (rule parse_known, simp add: manager_flags_def, simp add: set_value_def)+

lemma parse_bool_setting:
  "ParseBool v = Inr b \<Longrightarrow> parse_args fr other g (setting ''leader-elect'' v # args) =
     parse_args fr other (g\<lparr>fl_LeaderElect := b\<rparr>) args"
  by (rule parse_known, simp add: manager_flags_def, simp add: set_value_def)

lemma parse_duration_setting:
  "ParseDuration fr v = Inr d \<Longrightarrow> parse_args fr other g (setting ''leader-elect-lease-duration'' v # args) =
     parse_args fr other (g\<lparr>fl_LeaderElectLeaseDuration := d\<rparr>) args"
  by (rule parse_known, simp add: manager_flags_def, simp add: set_value_def)

text \<open>C34: settings made from any flag values, whatever their text holds, parse back to exactly
  those values with no argument left over, for every lease duration of 64 bits: nothing in
  a value can be mistaken for another flag.\<close>

theorem flags_roundtrip:
  assumes "no_clash other" and "int64_range (fl_LeaderElectLeaseDuration f)"
  shows "parseFlags fr other (render_flags f) = Parsed f []"
proof -
  have d: "ParseDuration fr (duration_string (fl_LeaderElectLeaseDuration f)) = Inr (fl_LeaderElectLeaseDuration f)"
    using assms(2) by (simp add: int64_range_def ParseDuration_string)
  have b: "ParseBool (if fl_LeaderElect f then ''true'' else ''false'') = Inr (fl_LeaderElect f)"
    by (simp add: ParseBool_def)
  have "parse_args fr other flag_defaults (render_flags f) = Parsed f []"
    unfolding render_flags_def parse_string_settings parse_bool_setting [OF b]
      parse_duration_setting [OF d] parse_args.simps(1) by simp
  with assms(1) show ?thesis by (simp add: parseFlags_def no_clash_def)
qed

text \<open>The only foreign flag of this example is a boolean one.\<close>

definition demo_foreign :: foreign_flags where
  "demo_foreign name = (if name = ''logtostderr'' then Some (True, \<lambda>s. None) else None)"

definition demo_flags :: Flags where
  "demo_flags = flag_defaults\<lparr>fl_Namespace := ''-leader-elect'', fl_LeaderElect := True,
     fl_LeaderElectLeaseDuration := 137 * Second\<rparr>"

lemma demo_no_clash: "no_clash demo_foreign"
  by (simp add: no_clash_def demo_foreign_def manager_flags_def)

theorem flags_roundtrip_witness:
  "parseFlags (\<lambda>f k u. 0) demo_foreign (render_flags demo_flags) = Parsed demo_flags []"
  by (rule flags_roundtrip [OF demo_no_clash])
     (simp add: demo_flags_def int64_range_def Second_def)

lemma parse_args_exit: "parse_args fr other f args = Exited c \<Longrightarrow> c = 0 \<or> c = 2"
  by (induction fr other f args rule: parse_args.induct) (auto split: parse_step.splits)

lemma parsed_flags_exit: "parseFlags fr other args = Exited c \<Longrightarrow> c = 0 \<or> c = 2"
  by (auto simp: parseFlags_def dest: parse_args_exit split: if_splits)

text \<open>Whatever the command line, parsing it returns or exits with status 0 or 2, and a process
  that goes on has a lease duration of 64 bits; with no argument it has the defaults.\<close>

lemma parsed_flags_in_range:
  "(case parseFlags fr other args of
      Parsed f rest \<Rightarrow> int64_range (fl_LeaderElectLeaseDuration f) \<and> length rest \<le> length args
    | Exited c \<Rightarrow> c = 0 \<or> c = 2) \<and>
   (no_clash other \<longrightarrow> parseFlags fr other [] = Parsed flag_defaults [])"
proof -
  have d: "int64_range (fl_LeaderElectLeaseDuration flag_defaults)"
    by (simp add: flag_defaults_def leaseDuration_def Second_def int64_range_def)
  have r: "parse_args fr other f args = Parsed f' rest \<Longrightarrow> length rest \<le> length args" for f f' rest
    by (induction fr other f args rule: parse_args.induct)
       (auto dest!: parse_one_shorter parse_one_end split: parse_step.splits)
  show ?thesis
    by (auto simp: parseFlags_def no_clash_def d intro: parse_args_range [OF _ d] dest: r parse_args_exit
        split: parse_result.splits)
qed

theorem parsed_flags_in_range_witness:
  "parseFlags (\<lambda>f k u. 0) demo_foreign [] = Parsed flag_defaults [] \<and>
   int64_range (fl_LeaderElectLeaseDuration flag_defaults)"
  using parsed_flags_in_range [where fr = "\<lambda>f k u. 0" and other = demo_foreign and args = "[]"] demo_no_clash by auto

end
