(* ===== verification/Manager.thy ===== *)
theory Manager
  imports Actuator Controllers Flag_Parsing
begin

text \<open>
  The manager process (\<open>cmd/manager/main.go\<close>): the manager's options, the health check, and
  the wiring of the cached clients to their owners. The controller-runtime library is a
  parameter: each of its operations may fail. Durations are nanoseconds.
\<close>

section \<open>The manager's options\<close>

record manager_options =
  mo_Namespace :: string
  mo_LeaderElection :: bool
  mo_LeaderElectionNamespace :: string
  mo_LeaderElectionID :: string
  mo_LeaseDuration :: int
  mo_HealthProbeBindAddress :: string
  mo_SyncPeriod :: int
  mo_MetricsBindAddress :: string
  mo_RetryPeriod :: int
  mo_RenewDeadline :: int

definition ToManagerOptions :: "Flags \<Rightarrow> manager_options" where
  "ToManagerOptions f =
     (let opts = \<lparr>mo_Namespace = [], mo_LeaderElection = fl_LeaderElect f,
        mo_LeaderElectionNamespace = fl_LeaderElectResourceNamespace f,
        mo_LeaderElectionID = ''cluster-api-provider-ovirt-leader'',
        mo_LeaseDuration = fl_LeaderElectLeaseDuration f,
        mo_HealthProbeBindAddress = fl_HealthAddr f, mo_SyncPeriod = syncPeriod,
        mo_MetricsBindAddress = fl_MetricsAddr f, mo_RetryPeriod = retryPeriod,
        mo_RenewDeadline = renewDeadline\<rparr> in
      if fl_Namespace f \<noteq> [] then opts\<lparr>mo_Namespace := fl_Namespace f\<rparr> else opts)"

text \<open>The order the leader election library requires of the three durations (it multiplies
  the retry period by a jitter factor of 1.2).\<close>

definition leader_election_ok :: "manager_options \<Rightarrow> bool" where
  "leader_election_ok opts \<longleftrightarrow> mo_LeaseDuration opts > mo_RenewDeadline opts \<and>
     10 * mo_RenewDeadline opts > 12 * mo_RetryPeriod opts \<and> mo_RetryPeriod opts > 0"

section \<open>The health check\<close>

definition healthCheck :: "'w environment \<Rightarrow> nat \<Rightarrow> ('w sys, gerr option) go" where
  "healthCheck E cachedOVirtClient =
     bind (attempt (Get E cachedOVirtClient)) (\<lambda>r.
     case r of Inl err \<Rightarrow> ret (Some err) | Inr _ \<Rightarrow> ret None)"

section \<open>Wiring\<close>

text \<open>\<open>ml_GetConfig\<close> tells whether the configuration it returns is not nil.\<close>

record 'w manager_lib =
  ml_GetConfig :: "('w, bool) op"
  ml_NewForConfig :: "('w, unit) op"
  ml_New :: "manager_options \<Rightarrow> ('w, 'w k8s_client) op"
  ml_AddToScheme :: "('w, unit) op"
  ml_InstallConfigV1 :: "('w, unit) op"
  ml_AddMachineV1 :: "('w, unit) op"
  ml_AddReadyzCheck :: "string \<Rightarrow> ('w, unit) op"
  ml_AddHealthzCheck :: "string \<Rightarrow> nat \<Rightarrow> ('w, unit) op"
  ml_AddWithActuator :: "('w, unit) op"
  ml_NewController :: "string \<Rightarrow> ('w, nat) op"
  ml_Watch :: "nat \<Rightarrow> ('w, unit) op"
  ml_Start :: "('w, unit) op"

text \<open>
  The manager is known by the Kubernetes client it provides; the result also names the
  cached client of the health check.
\<close>

definition setupManager ::
  "'w manager_lib \<Rightarrow> manager_options \<Rightarrow> ('w sys, 'w k8s_client \<times> nat) go" where
  "setupManager L options =
     bind (api (ManagerCall ''New'') (ml_New L options)) (\<lambda>mgr.
     bind (api (ManagerCall ''AddToScheme'') (ml_AddToScheme L)) (\<lambda>_.
     bind (api (ManagerCall ''Install'') (ml_InstallConfigV1 L)) (\<lambda>_.
     bind (api (ManagerCall ''AddToScheme'') (ml_AddMachineV1 L)) (\<lambda>_.
     bind (map_err (\<lambda>err. ErrorString (''failed to add ready check to controller manager: ''
                            @ error_string err))
             (api (ManagerCall ''AddReadyzCheck'') (ml_AddReadyzCheck L ''ping''))) (\<lambda>_.
     bind (NewCachedClient ''healthz'') (\<lambda>healthz.
     bind (map_err (\<lambda>err. ErrorString (''failed to add health check to controller manager: ''
                            @ error_string err))
             (api (ManagerCall ''AddHealthzCheck'') (ml_AddHealthzCheck L ''ping'' healthz))) (\<lambda>_.
     ret (mgr, healthz))))))))"

text \<open>\<open>AddToManager\<close> of the two controllers; a controller is known by its handle.\<close>

definition node_AddToManager :: "'w manager_lib \<Rightarrow> 'w baseController \<Rightarrow> ('w sys, unit) go" where
  "node_AddToManager L ctrl =
     bind (annotate ''error creating node controller''
             (api (ManagerCall ''controller.New'') (ml_NewController L (bc_Name ctrl)))) (\<lambda>c.
     annotate ''error setting up watch on node changes'' (api (ManagerCall ''Watch'') (ml_Watch L c)))"

definition providerID_AddToManager :: "'w manager_lib \<Rightarrow> 'w baseController \<Rightarrow> ('w sys, unit) go" where
  "providerID_AddToManager L ctrl =
     bind (annotate ''error setting up watch on node changes''
             (api (ManagerCall ''controller.New'') (ml_NewController L (bc_Name ctrl)))) (\<lambda>c.
     api (ManagerCall ''Watch'') (ml_Watch L c))"

record 'w wired =
  wd_healthz :: nat
  wd_actuator :: "'w OvirtActuator"
  wd_providerID :: "'w baseController"
  wd_node :: "'w baseController"

text \<open>
  \<open>main\<close> up to the start of the credential service. A failure of \<open>setupManager\<close> ends the
  process; the errors of registering the actuator and the controllers are dropped.
\<close>

definition main_setup :: "'w manager_lib \<Rightarrow> Flags \<Rightarrow> ('w sys, 'w wired) go" where
  "main_setup L flags =
     bind (setupManager L (ToManagerOptions flags)) (\<lambda>(mgr, healthz).
     bind (NewCachedClient ''actuator'') (\<lambda>ac.
     let actuator = NewActuator \<lparr>ap_Namespace = fl_Namespace flags, ap_Client = Some mgr,
                                 ap_CachedOVirtClient = ac\<rparr> in
     bind (attempt (api (ManagerCall ''AddWithActuator'') (ml_AddWithActuator L))) (\<lambda>_.
     bind (NewCachedClient ''providerID'') (\<lambda>pc.
     let providerID = NewProviderIDController mgr pc in
     bind (attempt (providerID_AddToManager L providerID)) (\<lambda>_.
     bind (NewCachedClient ''node'') (\<lambda>nc.
     let node = NewNodeController mgr nc in
     bind (attempt (node_AddToManager L node)) (\<lambda>_.
     ret \<lparr>wd_healthz = healthz, wd_actuator = actuator, wd_providerID = providerID,
          wd_node = node\<rparr>)))))))"

section \<open>After the wiring\<close>

lemma api_Val_keeps:
  "api c f s = (Val x, s') \<Longrightarrow> caches s' = caches s \<and> credUpdateListener s' = credUpdateListener s"
  using preservesD [OF preserves_api(2)] preservesD [OF preserves_api(4)] by blast

lemma attempt_api_keeps:
  "attempt (api c f) s = (r, s') \<Longrightarrow>
     caches s' = caches s \<and> credUpdateListener s' = credUpdateListener s"
  using preservesD [OF preserves_attempt [OF preserves_api(2)]]
    preservesD [OF preserves_attempt [OF preserves_api(4)]] by blast

lemma preserves_AddToManager [preserves_intros]:
  "preserves caches (node_AddToManager L b)" "preserves credUpdateListener (node_AddToManager L b)"
  "preserves caches (providerID_AddToManager L b)" "preserves credUpdateListener (providerID_AddToManager L b)"
  unfolding node_AddToManager_def providerID_AddToManager_def by (intro preserves_intros)+

lemma attempt_AddToManager_keeps:
  "attempt (node_AddToManager L b) s = (r, s') \<Longrightarrow>
     caches s' = caches s \<and> credUpdateListener s' = credUpdateListener s"
  "attempt (providerID_AddToManager L b) s = (r, s') \<Longrightarrow>
     caches s' = caches s \<and> credUpdateListener s' = credUpdateListener s"
  using preservesD [OF preserves_attempt [OF preserves_AddToManager(1)]]
    preservesD [OF preserves_attempt [OF preserves_AddToManager(2)]]
    preservesD [OF preserves_attempt [OF preserves_AddToManager(3)]]
    preservesD [OF preserves_attempt [OF preserves_AddToManager(4)]] by blast+

lemma setupManager_Val:
  assumes "setupManager L opts s = (Val (mgr, hz), s')"
  shows "hz = length (caches s) \<and> caches s' = caches s @ [NewCachedOVirtClient ''healthz''] \<and>
    credUpdateListener s' = credUpdateListener s @ [length (caches s)]"
  using assms
  by (auto simp: setupManager_def NewCachedClient_run elim!: bind_ValE dest!: api_Val_keeps)

text \<open>Four cached clients, each owned by one component and all of them listeners.\<close>

definition well_wired :: "'w wired \<Rightarrow> 'w sys \<Rightarrow> bool" where
  "well_wired wd s \<longleftrightarrow>
     map cc_name (caches s) = [''healthz'', ''actuator'', ''providerID'', ''node''] \<and>
     credUpdateListener s = [0, 1, 2, 3] \<and>
     wd_healthz wd = 0 \<and> act_cachedOVirtClient (wd_actuator wd) = 1 \<and>
     bc_CachedOVirtClient (wd_providerID wd) = 2 \<and> bc_CachedOVirtClient (wd_node wd) = 3 \<and>
     list_all (\<lambda>c. cc_client c = None) (caches s)"

lemma main_setup_Val:
  assumes "main_setup L flags s = (Val wd, s')" and "caches s = []" and "credUpdateListener s = []"
  shows "well_wired wd s'"
  using assms
  by (auto simp: main_setup_def Let_def NewCachedClient_run NewActuator_def
      NewProviderIDController_def NewNodeController_def NewBaseController_def
      NewCachedOVirtClient_def well_wired_def
      elim!: bind_ValE dest!: setupManager_Val attempt_api_keeps attempt_AddToManager_keeps)

section \<open>Properties\<close>

text \<open>After a start that succeeds, the health check, the actuator, the provider ID controller
  and the node controller own four different cached clients, none of which has a client
  yet, and all four listen for credentials.\<close>

lemma components_get_own_clients:
  assumes "main_setup L flags s = (Val wd, s')" and "caches s = []" and "credUpdateListener s = []"
  shows "distinct [wd_healthz wd, act_cachedOVirtClient (wd_actuator wd),
      bc_CachedOVirtClient (wd_providerID wd), bc_CachedOVirtClient (wd_node wd)] \<and>
    set (credUpdateListener s') = {wd_healthz wd, act_cachedOVirtClient (wd_actuator wd),
      bc_CachedOVirtClient (wd_providerID wd), bc_CachedOVirtClient (wd_node wd)} \<and>
    map cc_name (caches s') = [''healthz'', ''actuator'', ''providerID'', ''node''] \<and>
    list_all (\<lambda>c. cc_client c = None) (caches s')"
  using main_setup_Val [OF assms] by (auto simp: well_wired_def)

definition demo_manager_lib :: "demo_world manager_lib" where
  "demo_manager_lib =
     \<lparr>ml_GetConfig = (\<lambda>w. (Inr True, w)), ml_NewForConfig = (\<lambda>w. (Inr (), w)),
      ml_New = (\<lambda>opts w. (Inr demo_k8s, w)), ml_AddToScheme = (\<lambda>w. (Inr (), w)),
      ml_InstallConfigV1 = (\<lambda>w. (Inr (), w)), ml_AddMachineV1 = (\<lambda>w. (Inr (), w)),
      ml_AddReadyzCheck = (\<lambda>n w. (Inr (), w)), ml_AddHealthzCheck = (\<lambda>n i w. (Inr (), w)),
      ml_AddWithActuator = (\<lambda>w. (Inl (ErrorString ''no webhook''), w)),
      ml_NewController = (\<lambda>n w. (Inr 0, w)),
      ml_Watch = (\<lambda>c w. (Inl (ErrorString ''no informer''), w)),
      ml_Start = (\<lambda>w. (Inr (), w))\<rparr>"

text \<open>The start succeeds even though registering the actuator and both watches fail.\<close>

lemma demo_main_setup: "\<exists>wd s'. main_setup demo_manager_lib flag_defaults (demo_sys None None) = (Val wd, s')"
  by (simp add: main_setup_def setupManager_def demo_manager_lib_def NewCachedClient_run demo_sys_def
      node_AddToManager_def providerID_AddToManager_def annotate_def
      api_def bind_def attempt_def map_err_def Let_def)

theorem components_get_own_clients_witness:
  "\<exists>wd s'. main_setup demo_manager_lib flag_defaults (demo_sys None None) = (Val wd, s') \<and>
     length (caches s') = 4"
proof -
  obtain wd s' where run: "main_setup demo_manager_lib flag_defaults (demo_sys None None) = (Val wd, s')"
    using demo_main_setup by blast
  have "map cc_name (caches s') = [''healthz'', ''actuator'', ''providerID'', ''node'']"
    using components_get_own_clients [OF run] by (simp add: demo_sys_def)
  then have "length (map cc_name (caches s')) = 4" by simp
  with run show ?thesis by auto
qed

text \<open>The process starts exactly when \<open>setupManager\<close> succeeds: whether the actuator and the two
  controllers could be registered, and their watches set up, makes no difference.\<close>

lemma start_ignores_registration_errors:
  fixes L :: "'a manager_lib"
  shows "(\<exists>wd s'. main_setup L flags s = (Val wd, s')) \<longleftrightarrow>
   (\<exists>x s1. setupManager L (ToManagerOptions flags) s = (Val x, s1))"
proof
  assume "\<exists>wd s'. main_setup L flags s = (Val wd, s')"
  then show "\<exists>x s1. setupManager L (ToManagerOptions flags) s = (Val x, s1)"
    by (auto simp: main_setup_def elim!: bind_ValE)
next
  have reg: "\<exists>x t'. attempt (api c f) t = (Val x, t')"
    "\<exists>x t'. attempt (providerID_AddToManager L b) t = (Val x, t')"
    "\<exists>x t'. attempt (node_AddToManager L b) t = (Val x, t')" for c b t and f :: "'a \<Rightarrow> (gerr + unit) \<times> 'a"
    by (rule attempt_returns, (unfold node_AddToManager_def providerID_AddToManager_def)?, intro no_crash_intros)+
  assume "\<exists>x s1. setupManager L (ToManagerOptions flags) s = (Val x, s1)"
  then obtain mgr hz s1 where 1: "setupManager L (ToManagerOptions flags) s = (Val (mgr, hz), s1)" by fastforce
  have new: "\<exists>x t'. NewCachedClient n t = (Val x, t')" for n and t :: "'a sys"
    by (simp add: NewCachedClient_run)
  show "\<exists>wd s'. main_setup L flags s = (Val wd, s')"
    unfolding main_setup_def Let_def bind_run(1) [where m = "setupManager L (ToManagerOptions flags)", OF 1] split
    by (intro bind_returns reg new) simp
qed

text \<open>The options made from the flags satisfy the order the leader election requires of its
  durations exactly when the lease lasts more than 110 seconds: the default does, but the
  flag can break it, because the renewal deadline is fixed.\<close>

lemma lease_flag_must_exceed_deadline:
  "(leader_election_ok (ToManagerOptions f) \<longleftrightarrow> fl_LeaderElectLeaseDuration f > 110 * Second) \<and>
   leader_election_ok (ToManagerOptions flag_defaults)"
  by (simp add: leader_election_ok_def ToManagerOptions_def Let_def retryPeriod_def renewDeadline_def
      flag_defaults_def leaseDuration_def Second_def)

text \<open>The health check passes exactly when the cache gives a client built from its current
  credentials; otherwise it returns the error of that attempt, the cache holds no client,
  and it never panics.\<close>

lemma health_check_reports_connection:
  assumes "cache_ready E i s" and "healthCheck E i s = (r, s')"
  shows "(\<exists>C. r = Val None \<and> Get E i s = (Val C, s') \<and> current_client E i s' C) \<or>
     (\<exists>e. r = Val (Some e) \<and> Get E i s = (Fail e, s') \<and> cc_client (caches s' ! i) = None)"
proof -
  obtain r1 s1 where 1: "Get E i s = (r1, s1)" by fastforce
  from assms(1) have i: "i < length (caches s)" by (simp add: cache_ready_def)
  show ?thesis
  proof (rule cached.get_cases [OF assms(1) 1])
    fix C assume "r1 = Val C" "current_client E i s1 C"
    with 1 assms(2) show ?thesis by (auto simp: healthCheck_def)
  next
    fix e assume e: "r1 = Fail e"
    have "cc_client (caches s1 ! i) = None"
      by (rule Get_run [OF i 1]) (use e i in auto)
    with 1 e assms(2) show ?thesis by (auto simp: healthCheck_def)
  qed
qed

theorem health_check_reports_connection_witness:
  "\<exists>r s'. healthCheck demo_env 0 demo_cached = (r, s') \<and> (r = Val None \<or> (\<exists>e. r = Val (Some e)))"
proof -
  obtain r s' where run: "healthCheck demo_env 0 demo_cached = (r, s')" by fastforce
  from health_check_reports_connection [OF demo_cache_ready run] run show ?thesis by blast
qed

end
