(* ===== verification/Program.thy ===== *)
theory Program
  imports Manager
begin

text \<open>
  The whole process: after the wiring of \<open>main\<close>, any sequence of requests of the machine
  controller, Node requests, health probes and credential events, while the outside world
  changes freely in between. Here a handler runs to its end before the next one starts;
  \<open>Process\<close> lets everything interleave between the requests handlers make of their cached
  clients, and \<open>Client_Lock\<close> runs the statements of a cached client's operations concurrently.
\<close>

section \<open>The handlers\<close>

text \<open>
  The machine controller passes the Machine it read; the two Node controllers get the name
  of a Node; the service gets an informer event.
\<close>

datatype event =
    CreateMachine Machine
  | UpdateMachine Machine
  | MachineExists Machine
  | DeleteMachine Machine
  | NodeChanged string
  | NodeAdded string
  | HealthProbe
  | SecretEvent cred_event

definition on_machine :: "Machine \<Rightarrow> ('w sys, 'a) go \<Rightarrow> ('w sys, unit) go" where
  "on_machine m operation = bind (set_machine (\<lambda>_. m)) (\<lambda>_. bind operation (\<lambda>_. ret ()))"

definition ignore :: "('w sys, 'a) go \<Rightarrow> ('w sys, unit) go" where
  "ignore operation = bind operation (\<lambda>_. ret ())"

fun handle :: "'w environment \<Rightarrow> 'w wired \<Rightarrow> event \<Rightarrow> ('w sys, unit) go" where
  "handle E wd (CreateMachine m) = on_machine m (Create E (wd_actuator wd))"
| "handle E wd (UpdateMachine m) = on_machine m (Update E (wd_actuator wd))"
| "handle E wd (MachineExists m) = on_machine m (Exists E (wd_actuator wd))"
| "handle E wd (DeleteMachine m) = on_machine m (Delete E (wd_actuator wd))"
| "handle E wd (NodeChanged n) = ignore (node_Reconcile E (wd_node wd) n)"
| "handle E wd (NodeAdded n) = ignore (providerID_Reconcile E (wd_providerID wd) n)"
| "handle E wd HealthProbe = ignore (healthCheck E (wd_healthz wd))"
| "handle E wd (SecretEvent ev) = ignore (process_event E ev)"

text \<open>The states of the process.\<close>

inductive program_reachable ::
  "'w environment \<Rightarrow> 'w manager_lib \<Rightarrow> Flags \<Rightarrow> 'w wired \<Rightarrow> 'w sys \<Rightarrow> bool" for E L flags where
  started: "main_setup L flags s = (Val wd, s') \<Longrightarrow> caches s = [] \<Longrightarrow> credUpdateListener s = [] \<Longrightarrow>
     program_reachable E L flags wd s'"
| handled: "program_reachable E L flags wd s \<Longrightarrow> handle E wd ev s = (r, s') \<Longrightarrow>
     program_reachable E L flags wd s'"
| outside: "program_reachable E L flags wd s \<Longrightarrow> program_reachable E L flags wd (s\<lparr>world := w\<rparr>)"

section \<open>Properties every handler keeps\<close>

text \<open>\<open>keeps P m\<close>: however \<open>m\<close> ends, it ends in a state with \<open>P\<close> when it starts in one.\<close>

definition keeps :: "('w sys \<Rightarrow> bool) \<Rightarrow> ('w sys, 'a) go \<Rightarrow> bool" where
  "keeps P m \<longleftrightarrow> (\<forall>s r s'. P s \<longrightarrow> m s = (r, s') \<longrightarrow> P s')"

named_theorems keeps_intros \<open>rules for the invariants an operation keeps\<close>

lemma keepsD: "keeps P m \<Longrightarrow> P s \<Longrightarrow> m s = (r, s') \<Longrightarrow> P s'"
  unfolding keeps_def by blast

lemma keeps_bind [keeps_intros]:
  "keeps P m \<Longrightarrow> (\<And>x. keeps P (k x)) \<Longrightarrow> keeps P (bind m k)"
  unfolding keeps_def by (blast elim: bind_cases)

lemma keeps_ret [keeps_intros]: "keeps P (ret x)"
  by (simp add: keeps_def)

lemma keeps_attempt [keeps_intros]: "keeps P m \<Longrightarrow> keeps P (attempt m)"
  unfolding keeps_def by (metis prod.collapse snd_conv snd_attempt)

lemma keeps_annotate [keeps_intros]: "keeps P m \<Longrightarrow> keeps P (annotate msg m)"
  unfolding keeps_def by (metis prod.collapse snd_conv snd_annotate)

lemma keeps_if [keeps_intros]: "keeps P m \<Longrightarrow> keeps P n \<Longrightarrow> keeps P (if b then m else n)"
  by simp

lemma keeps_case [keeps_intros]:
  "(\<And>e. keeps P (m e)) \<Longrightarrow> (\<And>x. keeps P (k x)) \<Longrightarrow>
     keeps P (case r of Inl e \<Rightarrow> m e | Inr x \<Rightarrow> k x)"
  "keeps P n \<Longrightarrow> (\<And>x. keeps P (k' x)) \<Longrightarrow> keeps P (case opt of None \<Rightarrow> n | Some x \<Rightarrow> k' x)"
  by (simp_all split: sum.split option.split)

lemma preserves_Eventf [preserves_intros]:
  "preserves caches (Eventf t r msg)" "preserves credUpdateListener (Eventf t r msg)"
  unfolding Eventf_def by (intro preserves_intros; simp)+

lemma preserves_handleMachineError [preserves_intros]:
  "preserves caches (handleMachineError act reason r msg)"
  "preserves credUpdateListener (handleMachineError act reason r msg)"
  unfolding handleMachineError_def by (intro preserves_intros)+

lemma preserves_newMachineScope [preserves_intros]: "preserves f (newMachineScope C k sp)"
  unfolding newMachineScope_def by (intro preserves_intros)

lemma preserves_node_vm_result:
  "preserves caches (node_vm_result b node v err)"
  "preserves credUpdateListener (node_vm_result b node v err)"
  unfolding node_vm_result_def by (intro preserves_intros)+

text \<open>The wiring fixes the owners for good.\<close>

definition wiring :: "'w wired \<Rightarrow> bool" where
  "wiring wd \<longleftrightarrow> wd_healthz wd = 0 \<and> act_cachedOVirtClient (wd_actuator wd) = 1 \<and>
     bc_CachedOVirtClient (wd_providerID wd) = 2 \<and> bc_CachedOVirtClient (wd_node wd) = 3"

definition owners :: "'w wired \<Rightarrow> nat set" where
  "owners wd = {wd_healthz wd, act_cachedOVirtClient (wd_actuator wd),
     bc_CachedOVirtClient (wd_providerID wd), bc_CachedOVirtClient (wd_node wd)}"

lemma wiring_owners: "wiring wd \<Longrightarrow> i \<in> owners wd \<longleftrightarrow> i < 4"
  by (auto simp: wiring_def owners_def)

text \<open>
  The contract of a property of the shared state that the handlers are to keep: it depends on
  the cached clients and the listeners only, and asking one of the four for a client keeps
  it. \<open>setting_up\<close> are the rules for the steps the actuator's operations are made of.
\<close>

locale process_invariant =
  fixes E :: "'w environment" and P :: "'w sys \<Rightarrow> bool"
  assumes frame: "P s \<Longrightarrow> caches s' = caches s \<Longrightarrow> credUpdateListener s' = credUpdateListener s \<Longrightarrow> P s'"
    and get: "P s \<Longrightarrow> i < 4 \<Longrightarrow> Get E i s = (r, s') \<Longrightarrow> P s'"
begin

lemma keeps_preserves:
  "preserves caches m \<Longrightarrow> preserves credUpdateListener m \<Longrightarrow> keeps P m"
  unfolding keeps_def by (blast intro: frame dest: preservesD)

lemma keeps_Get: "i < 4 \<Longrightarrow> keeps P (Get E i)"
  unfolding keeps_def by (blast intro: get)

lemma keeps_on_error:
  assumes "keeps P m" shows "keeps P (on_error act reason r prefix m)"
  unfolding on_error_def by (intro keeps_intros assms keeps_preserves preserves_intros)

lemmas setting_up = keeps_bind keeps_on_error keeps_Get keeps_preserves

lemma keeps_Create: "act_cachedOVirtClient act < 4 \<Longrightarrow> keeps P (Create E act)"
  unfolding Create_def create_with_client_def by (intro setting_up preserves_intros) assumption

lemma keeps_Update: "act_cachedOVirtClient act < 4 \<Longrightarrow> keeps P (Update E act)"
  unfolding Update_def by (intro setting_up preserves_intros) assumption

lemma keeps_Exists: "act_cachedOVirtClient act < 4 \<Longrightarrow> keeps P (Exists E act)"
  unfolding Exists_def by (intro setting_up preserves_intros) assumption

lemma keeps_Delete: "act_cachedOVirtClient act < 4 \<Longrightarrow> keeps P (Delete E act)"
  unfolding Delete_def by (intro setting_up preserves_intros) assumption

lemma keeps_GetVMByName: "keeps P (GetVMByName C n)"
  by (intro keeps_preserves preserves_intros)

lemma keeps_node: "bc_CachedOVirtClient b < 4 \<Longrightarrow> keeps P (node_Reconcile E b req)"
  unfolding node_Reconcile_def GetoVirtClient_def split_beta
  by (intro keeps_intros keeps_Get keeps_GetVMByName keeps_preserves preserves_node_vm_result
      preserves_intros)

lemma keeps_providerID: "bc_CachedOVirtClient b < 4 \<Longrightarrow> keeps P (providerID_Reconcile E b req)"
  unfolding providerID_Reconcile_def fetchOvirtVmID_def GetoVirtClient_def split_beta Let_def
  by (intro keeps_intros keeps_Get keeps_GetVMByName keeps_preserves preserves_intros)

lemma keeps_healthCheck: "i < 4 \<Longrightarrow> keeps P (healthCheck E i)"
  unfolding healthCheck_def by (intro keeps_intros keeps_Get keeps_preserves preserves_intros)

lemma keeps_handler:
  assumes "wiring wd" and "\<And>ce. ev \<noteq> SecretEvent ce"
  shows "keeps P (handle E wd ev)"
  using assms unfolding wiring_def
  by (cases ev) (auto simp: on_machine_def ignore_def intro!: keeps_bind keeps_Create keeps_Update
      keeps_Exists keeps_Delete keeps_node keeps_providerID keeps_healthCheck
      intro: keeps_preserves preserves_intros)

end

section \<open>The invariant of the process\<close>

text \<open>The four cached clients of the wired process: fresh, and all of them listening.\<close>

definition running :: "'w environment \<Rightarrow> 'w sys \<Rightarrow> bool" where
  "running E s \<longleftrightarrow> caches_fresh E s \<and> length (caches s) = 4 \<and> credUpdateListener s = [0, 1, 2, 3]"

lemma running_service_inv: "running E s \<Longrightarrow> service_inv E s"
  by (simp add: running_def service_inv_def)

lemma running_ready: "running E s \<Longrightarrow> i < 4 \<Longrightarrow> cache_ready E i s"
  by (simp add: running_def cache_ready_def)

lemma running_frame:
  "running E s \<Longrightarrow> caches s' = caches s \<Longrightarrow> credUpdateListener s' = credUpdateListener s \<Longrightarrow> running E s'"
  by (simp add: running_def caches_fresh_def)

lemma running_Get:
  assumes s: "running E s" and i: "i < 4" and run: "Get E i s = (r, s')" shows "running E s'"
proof -
  from running_ready [OF s i] have rd: "cache_ready E i s" .
  from cached.get_ready [OF rd run] Get_length [OF _ run] preservesD [OF preserves_cache_ops(3) run] s i
  show "running E s'" by (simp add: running_def cache_ready_def)
qed

interpretation running: process_invariant E "running E" for E
  by unfold_locales (fact running_frame, fact running_Get)

text \<open>Asking for a client leaves the credentials of all of them as they are.\<close>

definition creds_held :: "'w sys \<Rightarrow> Credentials option list" where
  "creds_held s = map cc_credentials (caches s)"

lemma creds_held_same_source:
  "same_source E (caches s ! i) c \<Longrightarrow> caches s' = (caches s)[i := c] \<Longrightarrow> creds_held s' = creds_held s"
  unfolding creds_held_def same_source_def by (metis list_update_id map_update)

lemma creds_held_Get:
  assumes "i < length (caches s)" and "Get E i s = (r, s')" shows "creds_held s' = creds_held s"
  using assms by (rule Get_run) (auto intro: creds_held_same_source)

interpretation holding: process_invariant E "\<lambda>s. running E s \<and> creds_held s = crs" for E crs
proof
  fix s s' :: "'a sys" assume "running E s \<and> creds_held s = crs" "caches s' = caches s" "credUpdateListener s' = credUpdateListener s"
  then show "running E s' \<and> creds_held s' = crs" using running_frame [of E s s'] by (simp add: creds_held_def)
next
  fix s i r s' assume "running E s \<and> creds_held s = crs" "i < 4" "Get E i s = (r, s')"
  then show "running E s' \<and> creds_held s' = crs"
    using running_Get [of E s i r s'] creds_held_Get [of i s E r s'] by (simp add: running_def)
qed

lemma keeps_process_event: "keeps (running E) (process_event E ev)"
  unfolding keeps_def
proof (intro allI impI)
  fix s r s'
  assume s: "running E s" and run: "process_event E ev s = (r, s')"
  from service_inv_process_event [OF running_service_inv [OF s] run] s show "running E s'"
    by (simp add: running_def service_inv_def)
qed

lemma keeps_handle:
  assumes "wiring wd" shows "keeps (running E) (handle E wd ev)"
proof (cases "\<exists>ce. ev = SecretEvent ce")
  case True
  then show ?thesis
    by (auto simp: ignore_def intro!: keeps_bind keeps_process_event keeps_ret)
qed (use running.keeps_handler [OF assms] in blast)

lemma program_invariant:
  "program_reachable E L flags wd s \<Longrightarrow> wiring wd \<and> running E s"
proof (induction rule: program_reachable.induct)
  case (started s wd s')
  from main_setup_Val [OF this] have w: "well_wired wd s'" .
  then have "length (map cc_name (caches s')) = 4" by (simp add: well_wired_def)
  with w show ?case
    by (auto simp: well_wired_def wiring_def running_def caches_fresh_def cache_fresh_def list_all_iff)
next
  case (handled wd s ev r s')
  then show ?case using keepsD [OF keeps_handle] by blast
next
  case (outside wd s w)
  then show ?case by (simp add: running_def caches_fresh_def)
qed

section \<open>Who may change what\<close>

fun node_write :: "api_call \<Rightarrow> bool" where
  "node_write (UpdateNodeCall n) = True"
| "node_write (DeleteNodeCall n) = True"
| "node_write _ = False"

fun machine_write :: "api_call \<Rightarrow> bool" where
  "machine_write (UpdateMachineCall m) = True"
| "machine_write (PatchMachineCall b m) = True"
| "machine_write (PatchMachineStatusCall b m) = True"
| "machine_write _ = False"

fun removes_vm :: "api_call \<Rightarrow> bool" where
  "removes_vm (StopVMCall v b) = True"
| "removes_vm (RemoveVMCall v) = True"
| "removes_vm _ = False"

text \<open>The changes each handler may make, outside the process.\<close>

fun permitted :: "event \<Rightarrow> api_call \<Rightarrow> bool" where
  "permitted (CreateMachine m) c = (\<not> node_write c \<and> \<not> removes_vm c)"
| "permitted (UpdateMachine m) c = (\<not> node_write c \<and> \<not> engine_mutation c)"
| "permitted (MachineExists m) c = (\<not> node_write c \<and> \<not> engine_mutation c)"
| "permitted (DeleteMachine m) c = (\<not> node_write c \<and> (engine_mutation c \<longrightarrow> removes_vm c))"
| "permitted (NodeChanged n) c =
     (\<not> machine_write c \<and> \<not> engine_mutation c \<and> (node_write c \<longrightarrow> (\<exists>k. c = DeleteNodeCall k)))"
| "permitted (NodeAdded n) c =
     (\<not> machine_write c \<and> \<not> engine_mutation c \<and> (node_write c \<longrightarrow> (\<exists>k. c = UpdateNodeCall k)))"
| "permitted HealthProbe c = (\<not> node_write c \<and> \<not> machine_write c \<and> \<not> engine_mutation c)"
| "permitted (SecretEvent ev) c = (\<not> node_write c \<and> \<not> machine_write c \<and> \<not> engine_mutation c)"

lemma upkeep_permitted: "upkeep c \<Longrightarrow> permitted ev c"
  by (cases ev; cases c) (simp_all add: upkeep_def)

lemma emits_Get_permitted: "emits (permitted ev) (Get E i)"
  by (rule emits_mono [OF emits_Get]) (rule upkeep_permitted)

lemma emits_create_permitted: "emits (\<lambda>c. \<not> node_write c \<and> \<not> removes_vm c) (create ms)"
proof -
  have "emits (\<lambda>c. \<not> node_write c \<and> \<not> removes_vm c) (build_request C ig n p)" for C :: "'a ovirt_client" and ig n p
    by (rule emits_mono [OF emits_build_request]) auto
  moreover have "emits (\<lambda>c. \<not> node_write c \<and> \<not> removes_vm c) (configure_and_start C p v)" for C :: "'a ovirt_client" and p v
    unfolding configure_and_start_def remove_graphics_consoles_def extend_os_disk_def
      reattach_nics_def create_nic_def optimize_pinning_def tag_vm_def join_affinity_group_def
      start_vm_def split_beta
    by (auto intro!: emits_intros split: flow.split)
  ultimately show ?thesis
    unfolding create_def create_vm_def getIgnition_def split_beta
    by (auto intro!: emits_intros)
qed

lemma emits_delete_permitted:
  "emits (\<lambda>c. \<not> node_write c \<and> (engine_mutation c \<longrightarrow> removes_vm c)) (delete ms)"
  unfolding delete_def delete_found_def split_beta by (auto intro!: emits_intros)

lemma emits_actuator_permitted:
  "emits (permitted (CreateMachine m)) (Create E act)"
  "emits (permitted (UpdateMachine m)) (Update E act)"
  "emits (permitted (MachineExists m)) (Exists E act)"
  "emits (permitted (DeleteMachine m)) (Delete E act)"
proof -
  have v: "emits (permitted (CreateMachine m)) (validateMachine C sp)" for C :: "'a ovirt_client" and sp
    by (rule emits_mono [OF emits_validateMachine]) auto
  have rc: "emits (permitted ev) (reconcileMachine E ms)"
    if "\<And>c. reconcile_reads c \<Longrightarrow> permitted ev c" for ms ev
    by (rule emits_mono [OF emits_reconcileMachine]) (rule that)
  have cr: "emits (permitted (CreateMachine m)) (create ms)" for ms :: "'a machineScope"
    by (rule emits_mono [OF emits_create_permitted]) simp
  have rd: "reconcile_reads c \<Longrightarrow> \<not> node_write c \<and> \<not> removes_vm c \<and> \<not> engine_mutation c" for c
    by (cases c) (simp_all add: reconcile_reads_def)
  show "emits (permitted (CreateMachine m)) (Create E act)"
    unfolding Create_def create_with_client_def
    by (intro emits_intros emits_on_error emits_Get_permitted v cr rc emits_patchMachine) (simp_all add: rd)
  show "emits (permitted (UpdateMachine m)) (Update E act)"
    unfolding Update_def
    by (intro emits_intros emits_on_error emits_Get_permitted rc emits_patchMachine) (simp_all add: rd)
  show "emits (permitted (MachineExists m)) (Exists E act)"
    unfolding Exists_def vm_exists_def split_beta
    by (intro emits_intros emits_on_error emits_Get_permitted) simp_all
  show "emits (permitted (DeleteMachine m)) (Delete E act)"
    unfolding Delete_def
    by (intro emits_intros emits_on_error emits_Get_permitted emits_mono [OF emits_delete_permitted]) simp_all
qed

lemma emits_controllers_permitted:
  "emits (permitted (NodeChanged n)) (node_Reconcile E b n)"
  "emits (permitted (NodeAdded n)) (providerID_Reconcile E b n)"
  "emits (permitted HealthProbe) (healthCheck E i)"
proof -
  have "node_may b n c \<Longrightarrow> permitted (NodeChanged n) c" for c
    by (cases c) (simp_all add: node_may_def upkeep_def)
  then show "emits (permitted (NodeChanged n)) (node_Reconcile E b n)"
    by (rule emits_mono [OF node_ctrl.reconcile_calls])
  have "providerID_may b n c \<Longrightarrow> permitted (NodeAdded n) c" for c
    by (cases c) (simp_all add: providerID_may_def upkeep_def)
  then show "emits (permitted (NodeAdded n)) (providerID_Reconcile E b n)"
    by (rule emits_mono [OF providerID_ctrl.reconcile_calls])
  show "emits (permitted HealthProbe) (healthCheck E i)"
    unfolding healthCheck_def by (intro emits_intros emits_Get_permitted)
qed

lemma emits_process_event_permitted: "emits (permitted (SecretEvent ev)) (process_event E ev)"
proof -
  have set: "emits (permitted (SecretEvent ev)) (SetCredentials E i c)" for i c ev
    unfolding SetCredentials_def
    by (auto intro!: emits_intros emits_mono [OF emits_buildClient] upkeep_permitted)
  show ?thesis
    unfolding process_event_def update_listeners_def writeCA_def writeCAToTempFile_def
    by (auto intro!: emits_intros set split: cred_event.split)
qed

lemma emits_handle: "emits (permitted ev) (handle E wd ev)"
  by (cases ev)
     (auto simp: on_machine_def ignore_def simp del: permitted.simps
       intro!: emits_intros emits_actuator_permitted emits_controllers_permitted emits_process_event_permitted)

section \<open>The whole process\<close>










lemma attempt_cases:
  assumes "attempt m s = (r, s')"
  obtains (good) x where "r = Val (Inr x)" and "m s = (Val x, s')"
    | (error) e where "r = Val (Inl e)" and "m s = (Fail e, s')"
    | (panic) p where "r = Crash p" and "m s = (Crash p, s')"
  using assms by (cases "m s"; cases "fst (m s)") (auto simp: attempt_def)









end
