(* ===== verification/Machine_Controller.thy ===== *)
theory Machine_Controller
  imports Program
begin

text \<open>
  The machine controller (\<open>pkg/controller/machine/controller.go\<close> of the vendored
  machine-api-operator), which \<open>main\<close> registers with the actuator: it reads a Machine and
  decides which of the actuator's four operations to call and what becomes of their errors.
  The Machine it works on is the one the actuator changes through its pointer, the field
  \<open>machine\<close> of the state. Parameters: draining a node, the rewriting of the provider status
  by the converter library, and the rendering of the validation errors. Conditions,
  timestamps and metrics are not part of the model.
\<close>

section \<open>Constants and tests\<close>

definition MachineFinalizer :: string where "MachineFinalizer = ''machine.machine.openshift.io''"
definition MachineClusterIDLabel :: string where
  "MachineClusterIDLabel = ''machine.openshift.io/cluster-api-cluster''"
definition ExcludeNodeDrainingAnnotation :: string where
  "ExcludeNodeDrainingAnnotation = ''machine.openshift.io/exclude-node-draining''"
definition MachineInstanceStateAnnotationName :: string where
  "MachineInstanceStateAnnotationName = ''machine.openshift.io/instance-state''"
definition unknownInstanceState :: string where "unknownInstanceState = ''Unknown''"

definition phaseFailed :: string where "phaseFailed = ''Failed''"
definition phaseProvisioning :: string where "phaseProvisioning = ''Provisioning''"
definition phaseProvisioned :: string where "phaseProvisioned = ''Provisioned''"
definition phaseRunning :: string where "phaseRunning = ''Running''"
definition phaseDeleting :: string where "phaseDeleting = ''Deleting''"

lemmas phase_defs = phaseFailed_def phaseProvisioning_def phaseProvisioned_def phaseRunning_def phaseDeleting_def

definition requeueAfter :: Result where
  "requeueAfter = \<lparr>res_Requeue = False, res_RequeueAfter = 30\<rparr>"

definition stringPointerDeref :: "string option \<Rightarrow> string" where
  "stringPointerDeref p = (case p of None \<Rightarrow> [] | Some x \<Rightarrow> x)"

definition machineIsProvisioned :: "Machine \<Rightarrow> bool" where
  "machineIsProvisioned m \<longleftrightarrow> mst_Addresses (mc_Status m) \<noteq> [] \<or> stringPointerDeref (mc_ProviderID m) \<noteq> []"

definition machineHasNode :: "Machine \<Rightarrow> bool" where
  "machineHasNode m \<longleftrightarrow> mst_NodeRef (mc_Status m) \<noteq> None"

definition machineIsFailed :: "Machine \<Rightarrow> bool" where
  "machineIsFailed m \<longleftrightarrow> stringPointerDeref (mst_Phase (mc_Status m)) = phaseFailed"

text \<open>Whether \<open>validateMachine\<close> of the controller finds an error.\<close>

definition machine_invalid :: "Machine \<Rightarrow> bool" where
  "machine_invalid m \<longleftrightarrow> map_index (mc_Labels m) MachineClusterIDLabel = [] \<or> mc_ProviderSpecValue m = None"

definition excludes_draining :: "Machine \<Rightarrow> bool" where
  "excludes_draining m \<longleftrightarrow> (case mc_Annotations m of None \<Rightarrow> False | Some a \<Rightarrow> a ExcludeNodeDrainingAnnotation \<noteq> None)"

text \<open>\<open>errors.As\<close> for the two error types of the controller.\<close>

fun as_machine_error :: "gerr \<Rightarrow> (string \<times> string) option" where
  "as_machine_error (MachineError r m) = Some (r, m)"
| "as_machine_error (Wrapped m e) = as_machine_error e"
| "as_machine_error (WrapError m e) = as_machine_error e"
| "as_machine_error (EngineError c m (Some e)) = as_machine_error e"
| "as_machine_error _ = None"

fun as_requeue_after :: "gerr \<Rightarrow> int option" where
  "as_requeue_after (RequeueAfterError secs m) = Some secs"
| "as_requeue_after (Wrapped m e) = as_requeue_after e"
| "as_requeue_after (WrapError m e) = as_requeue_after e"
| "as_requeue_after (EngineError c m (Some e)) = as_requeue_after e"
| "as_requeue_after _ = None"

definition isInvalidMachineConfigurationError :: "gerr \<Rightarrow> bool" where
  "isInvalidMachineConfigurationError err =
     (case as_machine_error err of None \<Rightarrow> False | Some (r, m) \<Rightarrow> r = InvalidConfigurationMachineError)"

definition delayIfRequeueAfterError :: "gerr \<Rightarrow> Result \<times> gerr option" where
  "delayIfRequeueAfterError err = (case as_requeue_after err of
       Some secs \<Rightarrow> (\<lparr>res_Requeue = True, res_RequeueAfter = secs\<rparr>, None)
     | None \<Rightarrow> (ResultNoRequeue, Some err))"

section \<open>Writing the Machine\<close>

record 'w machine_reconciler =
  rm_Client :: "'w k8s_client"
  rm_actuator :: "'w OvirtActuator"
  rm_drain :: "string \<Rightarrow> ('w, unit) op"
  rm_markUnknown :: "RawExtension \<Rightarrow> gerr + RawExtension"
  rm_validationText :: "Machine \<Rightarrow> string"

text \<open>Each write stores the server's answer in the Machine.\<close>

definition update_machine :: "'w machine_reconciler \<Rightarrow> ('w sys, unit) go" where
  "update_machine r = bind (gets machine) (\<lambda>m.
     bind (api (UpdateMachineCall m) (kc_UpdateMachine (rm_Client r) m)) (\<lambda>m'. set_machine (\<lambda>_. m')))"

definition patch_base :: "'w machine_reconciler \<Rightarrow> Machine \<Rightarrow> ('w sys, unit) go" where
  "patch_base r base = bind (gets machine) (\<lambda>m.
     bind (api (PatchMachineCall base m) (kc_PatchMachine (rm_Client r) base m)) (\<lambda>m'. set_machine (\<lambda>_. m')))"

definition patch_status :: "'w machine_reconciler \<Rightarrow> Machine \<Rightarrow> ('w sys, unit) go" where
  "patch_status r base = bind (gets machine) (\<lambda>m.
     bind (api (PatchMachineStatusCall base m) (kc_PatchMachineStatus (rm_Client r) base m))
       (\<lambda>m'. set_machine (\<lambda>_. m')))"

definition patchFailedMachineInstanceAnnotation :: "'w machine_reconciler \<Rightarrow> ('w sys, unit) go" where
  "patchFailedMachineInstanceAnnotation r = bind (gets machine) (\<lambda>base.
     bind (set_machine (\<lambda>m.
       let ann = (case mc_Annotations m of None \<Rightarrow> Map.empty | Some a \<Rightarrow> a) in
       m\<lparr>mc_Annotations := Some (ann(MachineInstanceStateAnnotationName \<mapsto> unknownInstanceState))\<rparr>)) (\<lambda>_.
     patch_base r base))"

definition overrideFailedMachineProviderStatusState :: "'w machine_reconciler \<Rightarrow> ('w sys, unit) go" where
  "overrideFailedMachineProviderStatusState r = bind (gets machine) (\<lambda>m.
     case mst_ProviderStatus (mc_Status m) of
       None \<Rightarrow> ret ()
     | Some raw \<Rightarrow> (case rm_markUnknown r raw of
           Inl err \<Rightarrow> fail err
         | Inr raw' \<Rightarrow> set_machine (\<lambda>m. m\<lparr>mc_Status := (mc_Status m)\<lparr>mst_ProviderStatus := Some raw'\<rparr>\<rparr>)))"

text \<open>The error fields of a status: only a failure with a cause sets them.\<close>

definition failure_fields :: "string \<Rightarrow> gerr option \<Rightarrow> string option \<times> string option" where
  "failure_fields phase failureCause =
     (if phase = phaseFailed then (case failureCause of
          None \<Rightarrow> (None, None)
        | Some err \<Rightarrow> (case as_machine_error err of
              Some (reason, msg) \<Rightarrow> (Some reason, Some msg)
            | None \<Rightarrow> (None, Some (error_string err))))
      else (None, None))"

definition updateStatus :: "'w machine_reconciler \<Rightarrow> string \<Rightarrow> gerr option \<Rightarrow> ('w sys, unit) go" where
  "updateStatus r phase failureCause =
     bind (if phase = phaseFailed then patchFailedMachineInstanceAnnotation r else ret ()) (\<lambda>_.
     bind (gets machine) (\<lambda>base.
     bind (if phase = phaseFailed then overrideFailedMachineProviderStatusState r else ret ()) (\<lambda>_.
     let (reason, msg) = failure_fields phase failureCause in
     bind (set_machine (\<lambda>m. m\<lparr>mc_Status := (mc_Status m)
             \<lparr>mst_Phase := Some phase, mst_ErrorReason := reason, mst_ErrorMessage := msg\<rparr>\<rparr>)) (\<lambda>_.
     patch_status r base))))"

text \<open>The update of the status whose error is only logged; it keeps the phase.\<close>

definition keep_phase :: "'w machine_reconciler \<Rightarrow> ('w sys, unit) go" where
  "keep_phase r = bind (gets machine) (\<lambda>m.
     bind (attempt (updateStatus r (stringPointerDeref (mst_Phase (mc_Status m))) None)) (\<lambda>_. ret ()))"

definition deleteNode :: "'w machine_reconciler \<Rightarrow> string \<Rightarrow> ('w sys, unit) go" where
  "deleteNode r n =
     bind (attempt (api (GetNodeCall n) (kc_GetNode (rm_Client r) n))) (\<lambda>g.
     case g of
       Inl err \<Rightarrow> if IsNotFound err then ret () else fail err
     | Inr node \<Rightarrow> api (DeleteNodeCall (nd_Name node)) (kc_DeleteNode (rm_Client r) (nd_Name node)))"

section \<open>Reconcile\<close>

type_synonym 'w reconcile = "('w sys, Result \<times> gerr option) go"

text \<open>\<open>if err != nil { return reconcile.Result{}, err }\<close>\<close>

definition or_return :: "('w sys, 'a) go \<Rightarrow> ('a \<Rightarrow> 'w reconcile) \<Rightarrow> 'w reconcile" where
  "or_return m k = bind (attempt m) (\<lambda>r. case r of
       Inl err \<Rightarrow> ret (ResultNoRequeue, Some err)
     | Inr x \<Rightarrow> k x)"

text \<open>A deleted Machine after \<open>Delete\<close>: the finalizer goes when the VM is gone.\<close>

definition await_gone :: "'w environment \<Rightarrow> 'w machine_reconciler \<Rightarrow> 'w reconcile" where
  "await_gone E r =
     or_return (Exists E (rm_actuator r)) (\<lambda>instanceExists.
     if instanceExists then ret (requeueAfter, None)
     else
       bind (gets machine) (\<lambda>m.
       or_return (case mst_NodeRef (mc_Status m) of None \<Rightarrow> ret () | Some n \<Rightarrow> deleteNode r n) (\<lambda>_.
       bind (set_machine (\<lambda>m. m\<lparr>mc_Finalizers := filter (\<lambda>f. f \<noteq> MachineFinalizer) (mc_Finalizers m)\<rparr>)) (\<lambda>_.
       or_return (update_machine r) (\<lambda>_. ret (ResultNoRequeue, None))))))"

definition terminate_instance :: "'w environment \<Rightarrow> 'w machine_reconciler \<Rightarrow> 'w reconcile" where
  "terminate_instance E r = bind (gets machine) (\<lambda>m.
     if mc_PreTerminate m \<noteq> [] then ret (ResultNoRequeue, None)
     else
       bind (attempt (Delete E (rm_actuator r))) (\<lambda>d.
       bind (gets machine) (\<lambda>m.
       case d of
         Inl err \<Rightarrow>
           if mst_Addresses (mc_Status m) \<noteq> [] \<or> \<not> isInvalidMachineConfigurationError err
           then ret (delayIfRequeueAfterError err)
           else await_gone E r
       | Inr _ \<Rightarrow> await_gone E r)))"

definition reconcile_deleted :: "'w environment \<Rightarrow> 'w machine_reconciler \<Rightarrow> 'w reconcile" where
  "reconcile_deleted E r =
     or_return (updateStatus r phaseDeleting None) (\<lambda>_.
     bind (gets machine) (\<lambda>m.
     if MachineFinalizer \<notin> set (mc_Finalizers m) then ret (ResultNoRequeue, None)
     else (case (excludes_draining m, mst_NodeRef (mc_Status m)) of
         (False, Some n) \<Rightarrow>
           if mc_PreDrain m \<noteq> [] then ret (ResultNoRequeue, None)
           else
             bind (attempt (api (DrainNodeCall n) (rm_drain r n))) (\<lambda>d.
             case d of
               Inl err \<Rightarrow> ret (delayIfRequeueAfterError err)
             | Inr _ \<Rightarrow> terminate_instance E r)
       | _ \<Rightarrow> terminate_instance E r)))"

definition reconcile_existing :: "'w environment \<Rightarrow> 'w machine_reconciler \<Rightarrow> 'w reconcile" where
  "reconcile_existing E r =
     bind (attempt (Update E (rm_actuator r))) (\<lambda>u.
     case u of
       Inl err \<Rightarrow> bind (keep_phase r) (\<lambda>_. ret (requeueAfter, None))
     | Inr _ \<Rightarrow>
         bind (gets machine) (\<lambda>m.
         if \<not> machineIsProvisioned m then bind (keep_phase r) (\<lambda>_. ret (requeueAfter, None))
         else if \<not> machineHasNode m then
           or_return (updateStatus r phaseProvisioned None) (\<lambda>_. ret (requeueAfter, None))
         else or_return (updateStatus r phaseRunning None) (\<lambda>_. ret (ResultNoRequeue, None))))"

definition reconcile_missing :: "'w environment \<Rightarrow> 'w machine_reconciler \<Rightarrow> 'w reconcile" where
  "reconcile_missing E r = bind (gets machine) (\<lambda>m.
     if machineIsProvisioned m then
       or_return (updateStatus r phaseFailed (Some (ErrorString ''Can't find created instance.'')))
         (\<lambda>_. ret (ResultNoRequeue, None))
     else if stringPointerDeref (mst_Phase (mc_Status m)) = [] then
       or_return (updateStatus r phaseProvisioning None) (\<lambda>_. ret (ResultNoRequeue, None))
     else
       bind (attempt (Create E (rm_actuator r))) (\<lambda>c.
       case c of
         Inl err \<Rightarrow>
           if isInvalidMachineConfigurationError err then
             or_return (updateStatus r phaseFailed (Some err)) (\<lambda>_. ret (ResultNoRequeue, None))
           else ret (delayIfRequeueAfterError err)
       | Inr _ \<Rightarrow> ret (requeueAfter, None)))"

definition reconcile_present :: "'w environment \<Rightarrow> 'w machine_reconciler \<Rightarrow> 'w reconcile" where
  "reconcile_present E r = bind (gets machine) (\<lambda>m.
     if machineIsFailed m then ret (ResultNoRequeue, None)
     else
       bind (attempt (Exists E (rm_actuator r))) (\<lambda>x.
       case x of
         Inl err \<Rightarrow> bind (keep_phase r) (\<lambda>_. ret (ResultNoRequeue, Some err))
       | Inr instanceExists \<Rightarrow>
           if instanceExists then reconcile_existing E r else reconcile_missing E r))"

text \<open>\<open>Reconcile\<close> after the Machine is read, and the whole of it.\<close>

definition reconcile_read :: "'w environment \<Rightarrow> 'w machine_reconciler \<Rightarrow> Machine \<Rightarrow> 'w reconcile" where
  "reconcile_read E r m =
     (if machine_invalid m then
        (let msg = mc_Name m @ '': machine validation failed: '' @ rm_validationText r m in
         bind (Eventf EventTypeWarning ''FailedValidate'' msg) (\<lambda>_.
         ret (ResultNoRequeue, Some (ErrorString msg))))
      else if \<not> mc_Deleted m \<and> MachineFinalizer \<notin> set (mc_Finalizers m) then
        bind (set_machine (\<lambda>m. m\<lparr>mc_Finalizers := mc_Finalizers m @ [MachineFinalizer]\<rparr>)) (\<lambda>_.
        or_return (update_machine r) (\<lambda>_. ret (ResultNoRequeue, None)))
      else if mc_Deleted m then reconcile_deleted E r
      else reconcile_present E r)"

definition machine_Reconcile :: "'w environment \<Rightarrow> 'w machine_reconciler \<Rightarrow> string \<Rightarrow> 'w reconcile" where
  "machine_Reconcile E r request =
     bind (attempt (api (GetMachineCall request) (kc_GetMachine (rm_Client r) request))) (\<lambda>g.
     case g of
       Inl err \<Rightarrow> if IsNotFound err then ret (ResultNoRequeue, None) else ret (ResultNoRequeue, Some err)
     | Inr m \<Rightarrow> bind (set_machine (\<lambda>_. m)) (\<lambda>_. reconcile_read E r m))"

section \<open>The machine controller in the process\<close>

lemma keeps_gets [keeps_intros]: "keeps P (gets f)"
  by (simp add: keeps_def)

lemma keeps_fail [keeps_intros]: "keeps P (fail e)"
  by (simp add: keeps_def)

lemma keeps_or_return [keeps_intros]:
  "keeps P m \<Longrightarrow> (\<And>x. keeps P (k x)) \<Longrightarrow> keeps P (or_return m k)"
  unfolding or_return_def by (intro keeps_intros)

lemma preserves_Machine_writes [preserves_intros]:
  "preserves caches (update_machine r)" "preserves credUpdateListener (update_machine r)"
  "preserves caches (patch_base r b)" "preserves credUpdateListener (patch_base r b)"
  "preserves caches (patch_status r b)" "preserves credUpdateListener (patch_status r b)"
  "preserves caches (deleteNode r n)" "preserves credUpdateListener (deleteNode r n)"
  unfolding update_machine_def patch_base_def patch_status_def deleteNode_def by (intro preserves_intros)+

lemma preserves_updateStatus [preserves_intros]:
  "preserves caches (updateStatus r phase cause)" "preserves credUpdateListener (updateStatus r phase cause)"
  unfolding updateStatus_def patchFailedMachineInstanceAnnotation_def overrideFailedMachineProviderStatusState_def
    Let_def split_beta
  by (intro preserves_intros)+

lemma preserves_keep_phase [preserves_intros]:
  "preserves caches (keep_phase r)" "preserves credUpdateListener (keep_phase r)"
  unfolding keep_phase_def by (intro preserves_intros)+

text \<open>Whatever the four operations of the actuator keep, a whole reconciliation keeps.\<close>

context process_invariant
begin

lemma keeps_terminate_instance:
  assumes "act_cachedOVirtClient (rm_actuator r) < 4" shows "keeps P (terminate_instance E r)"
proof -
  have *: "keeps P (deleteNode r n)" "keeps P (set_machine f)" "keeps P (update_machine r)" for n f
    by (intro keeps_preserves preserves_intros)+
  show ?thesis
    unfolding terminate_instance_def await_gone_def
    by (intro keeps_intros keeps_Delete [OF assms] keeps_Exists [OF assms] *)
qed

lemma keeps_reconcile_present:
  assumes "act_cachedOVirtClient (rm_actuator r) < 4" shows "keeps P (reconcile_present E r)"
proof -
  have *: "keeps P (updateStatus r phase cause)" "keeps P (keep_phase r)" for phase cause
    by (intro keeps_preserves preserves_intros)+
  show ?thesis
    unfolding reconcile_present_def reconcile_existing_def reconcile_missing_def
    by (intro keeps_intros keeps_Create [OF assms] keeps_Update [OF assms] keeps_Exists [OF assms] *)
qed

lemma keeps_machine_Reconcile:
  assumes "act_cachedOVirtClient (rm_actuator r) < 4" shows "keeps P (machine_Reconcile E r request)"
proof -
  have *: "keeps P (set_machine f)" "keeps P (update_machine r)" "keeps P (Eventf t reason msg)"
    "keeps P (updateStatus r phase cause)" for f t reason msg phase cause
    by (intro keeps_preserves preserves_intros)+
  have read: "keeps P (attempt (api (GetMachineCall request) (kc_GetMachine (rm_Client r) request)))"
    and drain: "keeps P (attempt (api (DrainNodeCall n) (rm_drain r n)))" for n
    by (intro keeps_attempt keeps_preserves preserves_intros)+
  have "keeps P (reconcile_deleted E r)"
    unfolding reconcile_deleted_def
    by (auto intro!: keeps_intros keeps_terminate_instance [OF assms] * drain split: bool.split option.split)
  then show ?thesis
    unfolding machine_Reconcile_def reconcile_read_def Let_def
    by (intro keeps_intros read * keeps_reconcile_present [OF assms])
qed

end

lemma machine_Reconcile_in_process:
  assumes "running E s" and "act_cachedOVirtClient (rm_actuator r) < 4" and "machine_Reconcile E r request s = (res, s')"
  shows "running E s' \<and> creds_held s' = creds_held s"
  using keepsD [OF holding.keeps_machine_Reconcile [OF assms(2)], of E s "creds_held s" request res s'] assms(1,3) by blast

end
