(* ===== verification/Service_Run.thy ===== *)
theory Service_Run
  imports Client_Service
begin

text \<open>
  The goroutines of the credential service (\<open>pkg/ovirt/clientService.go\<close>): the informer's
  goroutine with the event handlers \<open>NewClientService\<close> installs, the update loop, \<open>Run\<close> and
  \<open>Shutdown\<close>. The informer belongs to client-go: it calls the handlers one notification at
  a time from one goroutine, buffers the rest without bound, stops calling them some time
  after its stop channel is closed, and its \<open>Run\<close> returns only when the running handler has
  returned. The update channel is unbuffered: a handler's send and the loop's receive are
  one step. A round of the loop is a sequence of steps: it receives, parses the secret, stores
  its CA bundle, and calls \<open>SetCredentials\<close> on one listener after the other; each of these
  calls is one step, which \<open>Client_Lock\<close> justifies. Each operation maps a state to the next, or to \<open>None\<close> where it blocks or its
  program point is not reached; the steps interleave in any order.
\<close>

section \<open>States\<close>

datatype run_pc = NotRun | Syncing | RunReturned
datatype handler_pc = HandlerIdle | Sending cred_event | HandlerEnded
datatype loop_pc =
    LoopNotStarted
  | Selecting
  | Handling cred_event
  | StoringCA Credentials
  | Updating Credentials "nat list"
  | LoopEnded
datatype shutdown_pc = NotShutDown | Waiting | Graceful | TimedOut

definition looping :: "loop_pc \<Rightarrow> bool" where
  "looping pc \<longleftrightarrow> pc \<noteq> LoopNotStarted \<and> pc \<noteq> LoopEnded"

text \<open>The last two fields are ghosts: what the watch delivered and what the loop received.\<close>

record 'w service =
  sv_sys :: "'w sys"
  sv_run :: run_pc
  sv_informer :: bool
  sv_handler :: handler_pc
  sv_pending :: "cred_event list"
  sv_loop :: loop_pc
  sv_cancelled :: bool
  sv_wg :: int
  sv_shutdown :: shutdown_pc
  sv_delivered :: "cred_event list"
  sv_processed :: "cred_event list"

definition new_service :: "'w sys \<Rightarrow> 'w service" where
  "new_service s = \<lparr>sv_sys = s, sv_run = NotRun, sv_informer = False, sv_handler = HandlerEnded,
     sv_pending = [], sv_loop = LoopNotStarted, sv_cancelled = False, sv_wg = 0,
     sv_shutdown = NotShutDown, sv_delivered = [], sv_processed = []\<rparr>"

section \<open>Steps\<close>

text \<open>\<open>Run\<close>: start the informer's goroutine, wait for its cache, start the loop. The wait ends
  when the cache is filled or the context done, and \<open>Run\<close> goes on in both cases.\<close>

definition Run_informer :: "'w service \<Rightarrow> 'w service option" where
  "Run_informer s = (if sv_run s = NotRun
     then Some (s\<lparr>sv_run := Syncing, sv_wg := sv_wg s + 1, sv_informer := True, sv_handler := HandlerIdle\<rparr>)
     else None)"

definition Run_loop :: "'w service \<Rightarrow> 'w service option" where
  "Run_loop s = (if sv_run s = Syncing
     then Some (s\<lparr>sv_run := RunReturned, sv_wg := sv_wg s + 1, sv_loop := Selecting\<rparr>)
     else None)"

text \<open>The watch delivers an object, added or updated (deletions have no handler).\<close>

definition deliver :: "cred_event \<Rightarrow> 'w service \<Rightarrow> 'w service option" where
  "deliver ev s = (if sv_informer s \<and> sv_handler s \<noteq> HandlerEnded \<and> ev \<noteq> CtxDone
     then Some (s\<lparr>sv_pending := sv_pending s @ [ev], sv_delivered := sv_delivered s @ [ev]\<rparr>)
     else None)"

text \<open>\<open>AddFunc\<close> and \<open>UpdateFunc\<close>: the handler starts to send the object.\<close>

definition handler_send :: "'w service \<Rightarrow> 'w service option" where
  "handler_send s = (case (sv_handler s, sv_pending s) of
       (HandlerIdle, ev # evs) \<Rightarrow> Some (s\<lparr>sv_handler := Sending ev, sv_pending := evs\<rparr>)
     | _ \<Rightarrow> None)"

text \<open>The loop's \<open>select\<close> receives it and the handler returns; or it takes the end of the
  context and the goroutine ends.\<close>

definition loop_receive :: "'w service \<Rightarrow> 'w service option" where
  "loop_receive s = (case (sv_handler s, sv_loop s) of
       (Sending ev, Selecting) \<Rightarrow>
         Some (s\<lparr>sv_loop := Handling ev, sv_handler := HandlerIdle, sv_processed := sv_processed s @ [ev]\<rparr>)
     | _ \<Rightarrow> None)"

text \<open>The round: an object that is no secret or does not parse, and a bundle that cannot be
  stored, end it (\<open>break\<close> leaves the \<open>select\<close>); else the listeners follow, in their order.\<close>

definition parse_secret :: "cred_event \<Rightarrow> loop_pc" where
  "parse_secret ev = (case ev of
       SecretObj secret \<Rightarrow> (case FromK8sSecret secret of Inl err \<Rightarrow> Selecting | Inr creds \<Rightarrow> StoringCA creds)
     | _ \<Rightarrow> Selecting)"

lemma parse_secret_looping [simp]: "looping (parse_secret ev)" "parse_secret ev \<noteq> Updating creds ls"
  by (auto simp: parse_secret_def looping_def split: cred_event.split sum.split)

lemma parse_secret_range [simp]: "parse_secret ev \<noteq> LoopNotStarted" "parse_secret ev \<noteq> LoopEnded"
  by (auto simp: parse_secret_def split: cred_event.split sum.split)

definition loop_parse :: "'w service \<Rightarrow> 'w service option" where
  "loop_parse s = (case sv_loop s of
       Handling ev \<Rightarrow> Some (s\<lparr>sv_loop := parse_secret ev\<rparr>)
     | _ \<Rightarrow> None)"

definition loop_store :: "'w environment \<Rightarrow> 'w service \<Rightarrow> 'w service option" where
  "loop_store E s = (case sv_loop s of
       StoringCA creds \<Rightarrow> (case writeCA E creds (sv_sys s) of
           (Val creds', x) \<Rightarrow> Some (s\<lparr>sv_sys := x, sv_loop := Updating creds' (credUpdateListener x)\<rparr>)
         | (_, x) \<Rightarrow> Some (s\<lparr>sv_sys := x, sv_loop := Selecting\<rparr>))
     | _ \<Rightarrow> None)"

definition loop_update :: "'w environment \<Rightarrow> 'w service \<Rightarrow> 'w service option" where
  "loop_update E s = (case sv_loop s of
       Updating creds (listener # rest) \<Rightarrow>
         Some (s\<lparr>sv_sys := snd (SetCredentials E listener (Some creds) (sv_sys s)), sv_loop := Updating creds rest\<rparr>)
     | Updating creds [] \<Rightarrow> Some (s\<lparr>sv_loop := Selecting\<rparr>)
     | _ \<Rightarrow> None)"

definition loop_done :: "'w service \<Rightarrow> 'w service option" where
  "loop_done s = (if sv_loop s = Selecting \<and> sv_cancelled s
     then Some (s\<lparr>sv_loop := LoopEnded, sv_wg := sv_wg s - 1\<rparr>) else None)"

text \<open>\<open>cancel()\<close> in \<open>main\<close>; then the informer drops its buffer, between two handlers, and its \<open>Run\<close>
  returns.\<close>

definition cancel :: "'w service \<Rightarrow> 'w service option" where
  "cancel s = Some (s\<lparr>sv_cancelled := True\<rparr>)"

definition handler_end :: "'w service \<Rightarrow> 'w service option" where
  "handler_end s = (if sv_cancelled s \<and> sv_handler s = HandlerIdle
     then Some (s\<lparr>sv_handler := HandlerEnded, sv_pending := []\<rparr>) else None)"

definition informer_end :: "'w service \<Rightarrow> 'w service option" where
  "informer_end s = (if sv_informer s \<and> sv_handler s = HandlerEnded
     then Some (s\<lparr>sv_informer := False, sv_wg := sv_wg s - 1\<rparr>) else None)"

text \<open>\<open>Shutdown\<close>: wait for the goroutines, but not longer than the timeout.\<close>

definition Shutdown_wait :: "'w service \<Rightarrow> 'w service option" where
  "Shutdown_wait s = (if sv_shutdown s = NotShutDown then Some (s\<lparr>sv_shutdown := Waiting\<rparr>) else None)"

definition Shutdown_done :: "'w service \<Rightarrow> 'w service option" where
  "Shutdown_done s = (if sv_shutdown s = Waiting \<and> sv_wg s = 0
     then Some (s\<lparr>sv_shutdown := Graceful\<rparr>) else None)"

definition Shutdown_timeout :: "'w service \<Rightarrow> 'w service option" where
  "Shutdown_timeout s = (if sv_shutdown s = Waiting then Some (s\<lparr>sv_shutdown := TimedOut\<rparr>) else None)"

inductive service_step :: "'w environment \<Rightarrow> 'w service \<Rightarrow> 'w service \<Rightarrow> bool" for E where
  Run_informer: "Run_informer s = Some s' \<Longrightarrow> service_step E s s'"
| Run_loop: "Run_loop s = Some s' \<Longrightarrow> service_step E s s'"
| deliver: "deliver ev s = Some s' \<Longrightarrow> service_step E s s'"
| handler_send: "handler_send s = Some s' \<Longrightarrow> service_step E s s'"
| loop_receive: "loop_receive s = Some s' \<Longrightarrow> service_step E s s'"
| loop_parse: "loop_parse s = Some s' \<Longrightarrow> service_step E s s'"
| loop_store: "loop_store E s = Some s' \<Longrightarrow> service_step E s s'"
| loop_update: "loop_update E s = Some s' \<Longrightarrow> service_step E s s'"
| loop_done: "loop_done s = Some s' \<Longrightarrow> service_step E s s'"
| cancel: "cancel s = Some s' \<Longrightarrow> service_step E s s'"
| handler_end: "handler_end s = Some s' \<Longrightarrow> service_step E s s'"
| informer_end: "informer_end s = Some s' \<Longrightarrow> service_step E s s'"
| Shutdown_wait: "Shutdown_wait s = Some s' \<Longrightarrow> service_step E s s'"
| Shutdown_done: "Shutdown_done s = Some s' \<Longrightarrow> service_step E s s'"
| Shutdown_timeout: "Shutdown_timeout s = Some s' \<Longrightarrow> service_step E s s'"

lemmas service_ops = Run_informer_def Run_loop_def deliver_def handler_send_def loop_receive_def
  loop_parse_def loop_store_def loop_update_def loop_done_def cancel_def handler_end_def informer_end_def Shutdown_wait_def Shutdown_done_def
  Shutdown_timeout_def

lemmas service_splits = if_splits handler_pc.splits loop_pc.splits list.splits prod.splits res.splits

text \<open>The runs of the service from a state on.\<close>

inductive service_runs :: "'w environment \<Rightarrow> 'w service \<Rightarrow> 'w service \<Rightarrow> bool" for E s where
  here: "service_runs E s s"
| there: "service_runs E s t \<Longrightarrow> service_step E t u \<Longrightarrow> service_runs E s u"

inductive_cases service_stepE: "service_step E s s'"

text \<open>\<open>Run\<close> only goes forward.\<close>

instantiation run_pc :: linorder
begin

primrec rank_run :: "run_pc \<Rightarrow> nat" where
  "rank_run NotRun = 0" | "rank_run Syncing = 1" | "rank_run RunReturned = 2"

definition less_eq_run_pc :: "run_pc \<Rightarrow> run_pc \<Rightarrow> bool" where
  "less_eq_run_pc a b \<longleftrightarrow> rank_run a \<le> rank_run b"

definition less_run_pc :: "run_pc \<Rightarrow> run_pc \<Rightarrow> bool" where
  "less_run_pc a b \<longleftrightarrow> rank_run a < rank_run b"

instance
proof
  fix a b :: run_pc
  show "a \<le> b \<Longrightarrow> b \<le> a \<Longrightarrow> a = b" by (cases a; cases b) (simp_all add: less_eq_run_pc_def)
qed (auto simp: less_eq_run_pc_def less_run_pc_def)

end

lemma run_forward: "service_runs E s t \<Longrightarrow> sv_run s \<le> sv_run t"
proof (induction rule: service_runs.induct)
  case (there t u)
  from there.hyps(2) have "sv_run t \<le> sv_run u"
    by (rule service_stepE; clarsimp simp: service_ops less_eq_run_pc_def
        split: service_splits)
  with there.IH show ?case by (rule order_trans)
qed simp

section \<open>The invariant\<close>

text \<open>The counter of the wait group is the number of live goroutines, and what the loop has
  received is what was delivered, up to the object in the handler's hands and the buffer.\<close>

definition in_hand :: "handler_pc \<Rightarrow> cred_event list" where
  "in_hand pc = (case pc of Sending ev \<Rightarrow> [ev] | _ \<Rightarrow> [])"

definition counting :: "'w service \<Rightarrow> bool" where
  "counting s \<longleftrightarrow>
     sv_wg s = (if sv_informer s then 1 else 0) + (if looping (sv_loop s) then 1 else 0) \<and>
     (sv_run s = NotRun \<longrightarrow> \<not> sv_informer s) \<and>
     (sv_run s = RunReturned \<longrightarrow> sv_loop s \<noteq> LoopNotStarted) \<and>
     (sv_run s \<noteq> RunReturned \<longrightarrow> sv_loop s = LoopNotStarted) \<and>
     (\<not> sv_informer s \<longrightarrow> sv_handler s = HandlerEnded)"

definition event_order :: "'w service \<Rightarrow> bool" where
  "event_order s \<longleftrightarrow>
     (sv_run s = NotRun \<longrightarrow> sv_delivered s = []) \<and>
     (\<exists>dropped. sv_delivered s = sv_processed s @ in_hand (sv_handler s) @ sv_pending s @ dropped \<and>
        (sv_handler s \<noteq> HandlerEnded \<longrightarrow> dropped = [])) \<and>
     CtxDone \<notin> set (sv_delivered s)"

text \<open>What a round in progress still does. While nobody else touches the cached clients, their
  state is, up to that, the result of the loop.\<close>

definition store_and_update :: "'w environment \<Rightarrow> Credentials \<Rightarrow> ('w sys, unit) go" where
  "store_and_update E creds = bind (attempt (writeCA E creds)) (\<lambda>r. case r of
       Inl err \<Rightarrow> ret ()
     | Inr creds' \<Rightarrow> bind (gets credUpdateListener) (\<lambda>ls. for_each (\<lambda>l. SetCredentials E l (Some creds')) ls))"

fun round_rest :: "'w environment \<Rightarrow> loop_pc \<Rightarrow> 'w sys \<Rightarrow> 'w sys" where
  "round_rest E (Handling ev) x = snd (process_event E ev x)"
| "round_rest E (StoringCA creds) x = snd (store_and_update E creds x)"
| "round_rest E (Updating creds ls) x = snd (for_each (\<lambda>l. SetCredentials E l (Some creds)) ls x)"
| "round_rest E _ x = x"

definition replayed :: "'w environment \<Rightarrow> 'w sys \<Rightarrow> 'w service \<Rightarrow> bool" where
  "replayed E s0 s \<longleftrightarrow> processCredentialUpdate E (sv_processed s) s0 = (Val (), round_rest E (sv_loop s) (sv_sys s))"

text \<open>The listeners still to be told are cached clients.\<close>

definition round_ok :: "'w environment \<Rightarrow> 'w service \<Rightarrow> bool" where
  "round_ok E s \<longleftrightarrow> service_inv E (sv_sys s) \<and>
     (\<forall>creds ls. sv_loop s = Updating creds ls \<longrightarrow> (\<forall>l \<in> set ls. l < length (caches (sv_sys s))))"

definition service_ok :: "'w environment \<Rightarrow> 'w sys \<Rightarrow> 'w service \<Rightarrow> bool" where
  "service_ok E s0 s \<longleftrightarrow> counting s \<and> event_order s \<and> round_ok E s \<and> replayed E s0 s"

lemma service_ok_new: "service_inv E s0 \<Longrightarrow> service_ok E s0 (new_service s0)"
  by (simp add: service_ok_def counting_def event_order_def replayed_def round_ok_def new_service_def in_hand_def looping_def)

lemma processCredentialUpdate_snoc:
  assumes "processCredentialUpdate E evs s = (Val (), t)" and "CtxDone \<notin> set evs" and "ev \<noteq> CtxDone"
    and "process_event E ev t = (Val b, u)"
  shows "processCredentialUpdate E (evs @ [ev]) s = (Val (), u)"
  using assms
proof (induction evs arbitrary: s)
  case Nil
  then show ?case by simp
next
  case (Cons e evs)
  from Cons.prems(1) obtain b1 s1 where 1: "process_event E e s = (Val b1, s1)"
    and rest: "(if b1 then processCredentialUpdate E evs else ret ()) s1 = (Val (), t)"
    by (auto elim: bind_ValE)
  have "b1" using 1 Cons.prems(2) by (auto simp: process_event_def elim!: bind_ValE split: cred_event.splits)
  with 1 rest Cons show ?case by simp
qed

lemma service_inv_processed:
  assumes "service_inv E s" and "processCredentialUpdate E evs s = (r, t)"
  shows "service_inv E t"
  using assms
proof (induction evs arbitrary: s)
  case (Cons e evs)
  obtain r1 s1 where 1: "process_event E e s = (r1, s1)" by fastforce
  from service_inv_process_event [OF Cons.prems(1) 1] obtain b where "service_inv E s1" "r1 = Val b" by blast
  with 1 Cons show ?case by (auto split: if_splits)
qed simp

lemma counting_step: "service_step E s s' \<Longrightarrow> counting s \<Longrightarrow> counting s'"
  by (erule service_stepE; clarsimp simp: service_ops split: service_splits;
      auto simp: counting_def looping_def)

text \<open>Only the loop's round touches the cached clients.\<close>

definition between_rounds :: "loop_pc \<Rightarrow> bool" where
  "between_rounds pc \<longleftrightarrow> pc \<in> {LoopNotStarted, Selecting, LoopEnded}"

lemma service_step_sys:
  assumes "service_step E s s'" and "counting s"
  obtains (quiet) "sv_sys s' = sv_sys s" and "sv_processed s' = sv_processed s"
      and "sv_loop s' = sv_loop s \<or> between_rounds (sv_loop s) \<and> between_rounds (sv_loop s')"
  | (receive) ev where "sv_sys s' = sv_sys s" and "sv_handler s = Sending ev" and "sv_loop s = Selecting"
      and "sv_loop s' = Handling ev" and "sv_processed s' = sv_processed s @ [ev]"
  | (parse) ev where "sv_sys s' = sv_sys s" and "sv_processed s' = sv_processed s" and "sv_loop s = Handling ev"
      and "sv_loop s' = parse_secret ev"
  | (stored) creds creds' where "sv_processed s' = sv_processed s" and "sv_loop s = StoringCA creds"
      and "writeCA E creds (sv_sys s) = (Val creds', sv_sys s')" and "sv_loop s' = Updating creds' (credUpdateListener (sv_sys s'))"
  | (not_stored) creds x where "sv_processed s' = sv_processed s" and "sv_loop s = StoringCA creds"
      and "writeCA E creds (sv_sys s) = (x, sv_sys s')" and "\<forall>v. x \<noteq> Val v" and "sv_loop s' = Selecting"
  | (update) creds l ls where "sv_processed s' = sv_processed s" and "sv_loop s = Updating creds (l # ls)"
      and "sv_sys s' = snd (SetCredentials E l (Some creds) (sv_sys s))" and "sv_loop s' = Updating creds ls"
  | (finish) creds where "sv_processed s' = sv_processed s" and "sv_sys s' = sv_sys s"
      and "sv_loop s = Updating creds []" and "sv_loop s' = Selecting"
  using assms(1)
proof (cases rule: service_step.cases)
  case Run_loop
  with assms(2) show thesis
    by (auto simp: Run_loop_def counting_def between_rounds_def split: if_splits intro!: quiet)
next
  case loop_store
  then show thesis
    by (auto simp: loop_store_def split: loop_pc.splits prod.splits res.splits intro: stored not_stored)
next
  case loop_update
  then show thesis by (auto simp: loop_update_def split: loop_pc.splits list.splits intro: update finish)
next
  case loop_parse
  then show thesis by (auto simp: loop_parse_def split: loop_pc.splits intro: parse)
next
  case loop_receive
  then show thesis by (auto simp: loop_receive_def split: loop_pc.splits handler_pc.splits intro: receive)
qed (auto simp: service_ops between_rounds_def split: service_splits intro!: quiet)

text \<open>The steps that change only the goroutines keep the order as it is.\<close>

lemma event_order_same:
  assumes "event_order s" and "sv_run s' \<noteq> NotRun \<or> sv_run s' = sv_run s"
    and "sv_handler s' = sv_handler s" and "sv_pending s' = sv_pending s"
    and "sv_delivered s' = sv_delivered s" and "sv_processed s' = sv_processed s"
  shows "event_order s'"
  using assms unfolding event_order_def by (elim disjE) simp_all

lemma event_order_step:
  assumes ok: "event_order s" and cnt: "counting s" and step: "service_step E s s'"
  shows "event_order s'"
  using step
proof cases
  case Run_informer
  then have s': "sv_run s = NotRun"
    "s' = s\<lparr>sv_run := Syncing, sv_wg := sv_wg s + 1, sv_informer := True, sv_handler := HandlerIdle\<rparr>"
    by (auto simp: Run_informer_def split: if_splits)
  with ok have d: "sv_delivered s = []" "sv_processed s = []" "sv_pending s = []"
    by (auto simp: event_order_def)
  then show ?thesis by (simp add: s' event_order_def in_hand_def)
next
  case (deliver ev)
  then have s': "s' = s\<lparr>sv_pending := sv_pending s @ [ev], sv_delivered := sv_delivered s @ [ev]\<rparr>"
    and ev: "sv_handler s \<noteq> HandlerEnded" "ev \<noteq> CtxDone" "sv_informer s"
    by (auto simp: deliver_def split: if_splits)
  from cnt ev(3) have "sv_run s \<noteq> NotRun" by (auto simp: counting_def)
  with ok ev show ?thesis by (auto simp: s' event_order_def)
next
  case handler_send
  then obtain ev evs where s': "s' = s\<lparr>sv_handler := Sending ev, sv_pending := evs\<rparr>"
    and ev: "sv_handler s = HandlerIdle" "sv_pending s = ev # evs"
    by (auto simp: handler_send_def split: handler_pc.splits list.splits)
  with ok show ?thesis by (auto simp: s' event_order_def in_hand_def)
next
  case loop_receive
  then obtain ev where "sv_handler s = Sending ev"
    and s': "s' = s\<lparr>sv_loop := Handling ev, sv_handler := HandlerIdle, sv_processed := sv_processed s @ [ev]\<rparr>"
    by (auto simp: loop_receive_def split: handler_pc.splits loop_pc.splits)
  with ok show ?thesis by (auto simp: s' event_order_def in_hand_def)
next
  case handler_end
  then have s': "s' = s\<lparr>sv_handler := HandlerEnded, sv_pending := []\<rparr>" and "sv_handler s = HandlerIdle"
    by (auto simp: handler_end_def split: if_splits)
  with ok show ?thesis by (auto simp: s' event_order_def in_hand_def)
qed (rule event_order_same [OF ok]; auto simp: service_ops split: service_splits)+

lemma event_order_no_CtxDone:
  "event_order s \<Longrightarrow> CtxDone \<notin> set (sv_processed s) \<and> sv_handler s \<noteq> Sending CtxDone"
  by (auto simp: event_order_def in_hand_def)

text \<open>A step of the round does what the round still does first, and keeps the cached clients.\<close>

lemma update_listeners_store: "update_listeners E secret =
    (case FromK8sSecret secret of Inl err \<Rightarrow> ret () | Inr creds \<Rightarrow> store_and_update E creds)"
  by (simp add: update_listeners_def store_and_update_def split: sum.split)

lemma round_rest_parse:
  "round_rest E (parse_secret ev) x = round_rest E (Handling ev) x"
proof (cases ev)
  case (SecretObj secret)
  show ?thesis
  proof (cases "FromK8sSecret secret")
    case (Inr creds)
    obtain r y where "store_and_update E creds x = (r, y)" by fastforce
    with SecretObj Inr show ?thesis
      by (cases r) (simp_all add: parse_secret_def process_event_def update_listeners_store)
  qed (simp add: SecretObj parse_secret_def process_event_def update_listeners_store)
qed (simp_all add: parse_secret_def process_event_def)

lemma round_rest_stored:
  "writeCA E creds x = (Val creds', y) \<Longrightarrow>
     round_rest E (StoringCA creds) x = round_rest E (Updating creds' (credUpdateListener y)) y"
  by (simp add: store_and_update_def)

lemma round_rest_not_stored:
  assumes "writeCA E creds x = (r, y)" and "\<forall>v. r \<noteq> Val v" shows "round_rest E (StoringCA creds) x = y"
proof (cases r)
  case (Crash p)
  with assms(1) show ?thesis using no_crashD [OF no_crash_writeCA] by blast
qed (use assms in \<open>simp_all add: store_and_update_def\<close>)

lemma round_rest_update:
  assumes "l < length (caches x)"
  shows "round_rest E (Updating creds (l # ls)) x = round_rest E (Updating creds ls) (snd (SetCredentials E l (Some creds) x))"
proof -
  obtain r y where run: "SetCredentials E l (Some creds) x = (r, y)" by fastforce
  then have "r = Val ()" using SetCredentials_updates [OF assms run] by simp
  with run show ?thesis by simp
qed

lemma round_rest_quiet: "between_rounds pc \<Longrightarrow> round_rest E pc x = x"
  by (auto simp: between_rounds_def)

lemma service_inv_SetCredentials:
  assumes "service_inv E x" and "l < length (caches x)"
  shows "service_inv E (snd (SetCredentials E l c x))"
    and "length (caches (snd (SetCredentials E l c x))) = length (caches x)"
proof -
  obtain r y where run: "SetCredentials E l c x = (r, y)" by fastforce
  have "caches_fresh E y" using SetCredentials_fresh [OF _ assms(2) run] assms(1) by (simp add: service_inv_def)
  moreover have "credUpdateListener y = credUpdateListener x" using run by (rule preservesD [rotated]) (intro preserves_intros)
  moreover have "length (caches y) = length (caches x)" using SetCredentials_updates [OF assms(2) run] by simp
  ultimately show "service_inv E (snd (SetCredentials E l c x))"
    "length (caches (snd (SetCredentials E l c x))) = length (caches x)"
    using assms(1) run by (simp_all add: service_inv_def)
qed

lemma round_ok_step:
  assumes ok: "round_ok E s" and cnt: "counting s" and step: "service_step E s s'" shows "round_ok E s'"
  using step cnt
proof (cases rule: service_step_sys)
  case (stored creds creds')
  note k = preservesD [OF preserves_writeCA(1) stored(3)] preservesD [OF preserves_writeCA(2) stored(3)]
  then have "service_inv E (sv_sys s')" using ok service_inv_caches_only [of "sv_sys s'" "sv_sys s" E] by (simp add: round_ok_def)
  with stored(4) show ?thesis by (auto simp: round_ok_def service_inv_def)
next
  case (not_stored creds x)
  note k = preservesD [OF preserves_writeCA(1) not_stored(3)] preservesD [OF preserves_writeCA(2) not_stored(3)]
  then have "service_inv E (sv_sys s')" using ok service_inv_caches_only [of "sv_sys s'" "sv_sys s" E] by (simp add: round_ok_def)
  with not_stored(5) show ?thesis by (simp add: round_ok_def)
next
  case (update creds l ls)
  then have "l < length (caches (sv_sys s))" using ok by (simp add: round_ok_def)
  from service_inv_SetCredentials [OF _ this] ok update show ?thesis by (simp add: round_ok_def)
qed (use ok in \<open>auto simp: round_ok_def between_rounds_def split: cred_event.splits sum.splits\<close>)

lemma replayed_step:
  assumes inv: "service_inv E s0" and ord: "event_order s" and ok: "round_ok E s" and rep: "replayed E s0 s"
    and cnt: "counting s" and step: "service_step E s s'"
  shows "replayed E s0 s'"
  using step cnt
proof (cases rule: service_step_sys)
  case quiet
  with rep show ?thesis by (auto simp: replayed_def round_rest_quiet)
next
  case (receive ev)
  then have p: "processCredentialUpdate E (sv_processed s) s0 = (Val (), sv_sys s)" using rep by (simp add: replayed_def)
  obtain r u where 1: "process_event E ev (sv_sys s) = (r, u)" by fastforce
  obtain b where "r = Val b" using service_inv_process_event [OF service_inv_processed [OF inv p] 1] by blast
  with 1 have 1: "process_event E ev (sv_sys s) = (Val b, u)" by simp
  from event_order_no_CtxDone [OF ord] receive(2) have "CtxDone \<notin> set (sv_processed s)" "ev \<noteq> CtxDone" by auto
  from processCredentialUpdate_snoc [OF p this 1] receive show ?thesis by (simp add: replayed_def 1)
next
  case (parse ev)
  with rep show ?thesis unfolding replayed_def parse(1,2,4) round_rest_parse by simp
next
  case (stored creds creds')
  with rep round_rest_stored [OF stored(3)] show ?thesis by (simp add: replayed_def)
next
  case (not_stored creds x)
  with rep round_rest_not_stored [OF not_stored(3,4)] show ?thesis by (simp add: replayed_def)
next
  case (update creds l ls)
  then have "l < length (caches (sv_sys s))" using ok by (simp add: round_ok_def)
  with rep round_rest_update [OF this] update show ?thesis by (simp add: replayed_def del: round_rest.simps)
next
  case (finish creds)
  with rep show ?thesis by (simp add: replayed_def)
qed

lemma service_ok_step:
  "service_inv E s0 \<Longrightarrow> service_ok E s0 s \<Longrightarrow> service_step E s s' \<Longrightarrow> service_ok E s0 s'"
  using counting_step event_order_step round_ok_step replayed_step unfolding service_ok_def by blast

lemma service_runs_ok:
  assumes "service_runs E s t" and "service_inv E s0" and "service_ok E s0 s"
  shows "service_ok E s0 t"
  using assms(1)
proof (induction rule: service_runs.induct)
  case (there t u)
  from assms(2) there.IH there.hyps(2) show ?case by (rule service_ok_step)
qed (rule assms(3))

section \<open>Shutdown\<close>

text \<open>The loop has ended while a handler was sending: nobody will receive any more.\<close>

definition stuck :: "'w service \<Rightarrow> bool" where
  "stuck s \<longleftrightarrow> sv_informer s \<and> (\<exists>ev. sv_handler s = Sending ev) \<and> sv_loop s = LoopEnded \<and> sv_run s = RunReturned"

lemma stuck_step: "stuck s \<Longrightarrow> service_step E s t \<Longrightarrow> stuck t"
  by (erule service_step.cases)
     (auto simp: stuck_def service_ops split: service_splits)

lemma stuck_forever: "service_runs E s t \<Longrightarrow> stuck s \<Longrightarrow> stuck t"
  by (induction rule: service_runs.induct) (auto intro: stuck_step)

lemma stuck_not_graceful:
  assumes "service_step E s t" and "stuck s" and "service_ok E s0 s" and "sv_shutdown t = Graceful"
  shows "sv_shutdown s = Graceful"
  using assms by (cases rule: service_step.cases)
    (auto simp: stuck_def service_ok_def counting_def service_ops split: service_splits)

lemma stuck_no_graceful:
  assumes "service_runs E s t" and "service_inv E s0" and "stuck s" and "service_ok E s0 s"
    and "sv_shutdown t = Graceful"
  shows "sv_shutdown s = Graceful"
  using assms(1,5)
proof (induction rule: service_runs.induct)
  case (there t u)
  have "stuck t" by (rule stuck_forever [OF there.hyps(1) assms(3)])
  moreover have "service_ok E s0 t" by (rule service_runs_ok [OF there.hyps(1) assms(2,4)])
  ultimately have "sv_shutdown t = Graceful"
    using stuck_not_graceful [OF there.hyps(2)] there.prems by blast
  then show ?case by (rule there.IH)
qed

lemma service_runs_trans: "service_runs E t u \<Longrightarrow> service_runs E s t \<Longrightarrow> service_runs E s u"
  by (induction rule: service_runs.induct) (auto intro: service_runs.there)

lemma service_runs_step: "service_step E s t \<Longrightarrow> service_runs E t u \<Longrightarrow> service_runs E s u"
  using service_runs_trans service_runs.there [OF service_runs.here] by blast

text \<open>From every other state with the context cancelled a graceful end can be reached: first the
  sending handler is received from, then the informer and the loop end.\<close>

lemma service_runs_one: "service_step E s t \<Longrightarrow> service_runs E s t"
  by (rule service_runs_step [OF _ service_runs.here])

text \<open>A round in progress can be finished, whatever the service does besides.\<close>

lemma updating_finishes:
  "sv_loop s = Updating creds ls \<Longrightarrow> \<exists>x. service_runs E s (s\<lparr>sv_sys := x, sv_loop := Selecting\<rparr>)"
proof (induction ls arbitrary: s)
  case Nil
  then have "service_step E s (s\<lparr>sv_loop := Selecting\<rparr>)"
    by (intro service_step.loop_update) (simp add: loop_update_def)
  then have "service_runs E s (s\<lparr>sv_sys := sv_sys s, sv_loop := Selecting\<rparr>)" by (simp add: service_runs_one)
  then show ?case ..
next
  case (Cons l ls)
  let ?t = "s\<lparr>sv_sys := snd (SetCredentials E l (Some creds) (sv_sys s)), sv_loop := Updating creds ls\<rparr>"
  have "service_step E s ?t" using Cons.prems by (intro service_step.loop_update) (simp add: loop_update_def)
  moreover obtain x where "service_runs E ?t (?t\<lparr>sv_sys := x, sv_loop := Selecting\<rparr>)" using Cons.IH [of ?t] by auto
  ultimately have "service_runs E s (s\<lparr>sv_sys := x, sv_loop := Selecting\<rparr>)" using service_runs_step by fastforce
  then show ?case ..
qed

lemma storing_finishes:
  assumes "sv_loop s = StoringCA creds" shows "\<exists>x. service_runs E s (s\<lparr>sv_sys := x, sv_loop := Selecting\<rparr>)"
proof -
  obtain r x where w: "writeCA E creds (sv_sys s) = (r, x)" by fastforce
  show ?thesis
  proof (cases r)
    case (Val creds')
    let ?t = "s\<lparr>sv_sys := x, sv_loop := Updating creds' (credUpdateListener x)\<rparr>"
    have "service_step E s ?t" using assms w Val by (intro service_step.loop_store) (simp add: loop_store_def)
    moreover obtain y where "service_runs E ?t (?t\<lparr>sv_sys := y, sv_loop := Selecting\<rparr>)"
      using updating_finishes [of ?t] by auto
    ultimately have "service_runs E s (s\<lparr>sv_sys := y, sv_loop := Selecting\<rparr>)" using service_runs_step by fastforce
    then show ?thesis ..
  qed (use assms w in \<open>auto intro!: exI [of _ x] service_runs_one service_step.loop_store simp: loop_store_def\<close>)
qed

lemma round_finishes:
  assumes "looping (sv_loop s)" shows "\<exists>x. service_runs E s (s\<lparr>sv_sys := x, sv_loop := Selecting\<rparr>)"
proof (cases "sv_loop s")
  case Selecting
  then have "s\<lparr>sv_sys := sv_sys s, sv_loop := Selecting\<rparr> = s" by simp
  then show ?thesis by (intro exI [of _ "sv_sys s"]) (simp add: service_runs.here)
next
  case (Handling ev)
  let ?t = "s\<lparr>sv_loop := parse_secret ev\<rparr>"
  have step: "service_step E s ?t" using Handling by (intro service_step.loop_parse) (simp add: loop_parse_def)
  have "parse_secret ev = Selecting \<or> (\<exists>creds. parse_secret ev = StoringCA creds)"
    by (auto simp: parse_secret_def split: cred_event.split sum.split)
  then have "\<exists>x. service_runs E ?t (?t\<lparr>sv_sys := x, sv_loop := Selecting\<rparr>)"
  proof
    assume "parse_secret ev = Selecting"
    then have "?t\<lparr>sv_sys := sv_sys s, sv_loop := Selecting\<rparr> = ?t" by simp
    then show ?thesis by (metis service_runs.here)
  qed (use storing_finishes [of ?t] in auto)
  then show ?thesis using service_runs_step [OF step] by fastforce
qed (use assms updating_finishes storing_finishes in \<open>auto simp: looping_def\<close>)

lemma handler_free:
  assumes "service_ok E s0 s" and "sv_cancelled s" and "sv_run s = RunReturned" and "\<not> stuck s"
    and "service_inv E s0"
  obtains t where "service_runs E s t" and "\<forall>ev. sv_handler t \<noteq> Sending ev" and "sv_cancelled t"
    and "sv_run t = RunReturned" and "sv_shutdown t = sv_shutdown s" and "service_ok E s0 t"
proof (cases "\<exists>ev. sv_handler s = Sending ev")
  case True
  then obtain ev where ev: "sv_handler s = Sending ev" by blast
  with assms(1,3,4) have "looping (sv_loop s)"
    by (auto simp: service_ok_def counting_def stuck_def looping_def)
  then obtain x where a: "service_runs E s (s\<lparr>sv_sys := x, sv_loop := Selecting\<rparr>)" (is "service_runs E s ?a")
    using round_finishes by blast
  let ?t = "?a\<lparr>sv_loop := Handling ev, sv_handler := HandlerIdle, sv_processed := sv_processed s @ [ev]\<rparr>"
  have "service_step E ?a ?t" using ev by (intro service_step.loop_receive) (simp add: loop_receive_def)
  with a have run: "service_runs E s ?t" by (rule service_runs.there)
  then show thesis
    by (rule that) (use assms service_runs_ok [OF run assms(5,1)] in simp_all)
next
  case False
  with that assms show thesis by (blast intro: service_runs.here)
qed

lemma loop_and_informer_end:
  assumes "service_ok E s0 s" and "service_inv E s0" and "sv_cancelled s" and "sv_run s = RunReturned"
    and "\<forall>ev. sv_handler s \<noteq> Sending ev"
  obtains t where "service_runs E s t" and "sv_wg t = 0" and "sv_shutdown t = sv_shutdown s"
proof -
  obtain a where a: "service_runs E s a" "sv_handler a = HandlerEnded" "sv_cancelled a" "sv_shutdown a = sv_shutdown s"
      "service_ok E s0 a"
  proof (cases "sv_handler s")
    case HandlerIdle
    then obtain a where 1: "handler_end s = Some a" "sv_handler a = HandlerEnded" "sv_cancelled a"
      "sv_shutdown a = sv_shutdown s" using assms(3) by (simp add: handler_end_def)
    from service_ok_step [OF assms(2,1) service_step.handler_end [OF 1(1)]] that 1 show thesis
      by (blast intro: service_runs.there service_runs.here service_step.handler_end)
  qed (use that [OF service_runs.here] assms in simp_all)
  obtain b where b: "service_runs E a b" "\<not> sv_informer b" "sv_cancelled b" "sv_shutdown b = sv_shutdown a"
      "service_ok E s0 b"
  proof (cases "sv_informer a")
    case True
    with a obtain b where 1: "informer_end a = Some b" "\<not> sv_informer b" "sv_cancelled b"
      "sv_shutdown b = sv_shutdown a" by (simp add: informer_end_def)
    from service_ok_step [OF assms(2) a(5) service_step.informer_end [OF 1(1)]] that 1 show thesis
      by (blast intro: service_runs.there service_runs.here service_step.informer_end)
  qed (use that [OF service_runs.here] a in simp)
  obtain c where c: "service_runs E b c" "\<not> sv_informer c" "\<not> looping (sv_loop c)" "sv_shutdown c = sv_shutdown b"
      "service_ok E s0 c"
  proof (cases "looping (sv_loop b)")
    case True
    then obtain x where 1: "service_runs E b (b\<lparr>sv_sys := x, sv_loop := Selecting\<rparr>)" (is "service_runs E b ?b")
      using round_finishes by blast
    let ?c = "?b\<lparr>sv_loop := LoopEnded, sv_wg := sv_wg b - 1\<rparr>"
    have "service_step E ?b ?c" using b by (intro service_step.loop_done) (simp add: loop_done_def)
    with 1 have run: "service_runs E b ?c" by (rule service_runs.there)
    show thesis
      by (rule that [OF run]) (use b service_runs_ok [OF run assms(2) b(5)] in \<open>simp_all add: looping_def\<close>)
  qed (use that [OF service_runs.here] b in simp)
  from c(2,3,5) have "sv_wg c = 0" by (simp add: service_ok_def counting_def)
  with that c a b show thesis by (metis service_runs_trans)
qed

text \<open>A run that ends stuck: the loop takes the end of the context while a handler sends.\<close>

lemma stranded_run:
  assumes "ev \<noteq> CtxDone"
  shows "\<exists>s. service_runs E (new_service s0) s \<and> stuck s \<and> in_hand (sv_handler s) = [ev] \<and>
    sv_shutdown s = Waiting \<and> sv_cancelled s"
proof -
  let ?s1 = "(new_service s0)\<lparr>sv_run := Syncing, sv_wg := 1, sv_informer := True, sv_handler := HandlerIdle\<rparr>"
  let ?s2 = "?s1\<lparr>sv_run := RunReturned, sv_wg := 2, sv_loop := Selecting\<rparr>"
  let ?s3 = "?s2\<lparr>sv_pending := [ev], sv_delivered := [ev]\<rparr>"
  let ?s4 = "?s3\<lparr>sv_handler := Sending ev, sv_pending := []\<rparr>"
  let ?s5 = "?s4\<lparr>sv_cancelled := True\<rparr>"
  let ?s6 = "?s5\<lparr>sv_loop := LoopEnded, sv_wg := 1\<rparr>"
  let ?s7 = "?s6\<lparr>sv_shutdown := Waiting\<rparr>"
  have 1: "service_step E (new_service s0) ?s1"
    by (rule service_step.Run_informer) (simp add: Run_informer_def new_service_def)
  have 2: "service_step E ?s1 ?s2"
    by (rule service_step.Run_loop) (simp add: Run_loop_def new_service_def)
  have 3: "service_step E ?s2 ?s3"
    by (rule service_step.deliver [of ev]) (simp add: deliver_def new_service_def assms)
  have 4: "service_step E ?s3 ?s4"
    by (rule service_step.handler_send) (simp add: handler_send_def new_service_def)
  have 5: "service_step E ?s4 ?s5"
    by (rule service_step.cancel) (simp add: cancel_def new_service_def)
  have 6: "service_step E ?s5 ?s6"
    by (rule service_step.loop_done) (simp add: loop_done_def new_service_def)
  have 7: "service_step E ?s6 ?s7"
    by (rule service_step.Shutdown_wait) (simp add: Shutdown_wait_def new_service_def)
  have "service_runs E (new_service s0) ?s7"
    by (rule service_runs_step [OF 1 service_runs_step [OF 2 service_runs_step [OF 3 service_runs_step [OF 4
        service_runs_step [OF 5 service_runs_step [OF 6 service_runs_step [OF 7 service_runs.here]]]]]]])
  moreover have "stuck ?s7" by (simp add: stuck_def)
  ultimately show ?thesis by (intro exI [of _ ?s7]) (simp add: in_hand_def)
qed

section \<open>Properties\<close>

text \<open>C12: however the goroutines interleave, the state of the cached clients is, up to what the
  round in progress still has to do, the one the update loop alone produces from the
  notifications it has received, and exactly that between two rounds; and these are the
  notifications the watch delivered, in their order, none lost or doubled, up to the one in
  the handler's hands and the buffered ones, for as long as the informer runs its handlers.\<close>

theorem service_refines_update_loop:
  assumes "service_inv E s0" and "service_runs E (new_service s0) s"
  shows "processCredentialUpdate E (sv_processed s) s0 = (Val (), round_rest E (sv_loop s) (sv_sys s)) \<and>
    (between_rounds (sv_loop s) \<longrightarrow> round_rest E (sv_loop s) (sv_sys s) = sv_sys s) \<and>
    service_inv E (sv_sys s) \<and>
    (\<exists>dropped. sv_delivered s = sv_processed s @ in_hand (sv_handler s) @ sv_pending s @ dropped \<and>
       (sv_handler s \<noteq> HandlerEnded \<longrightarrow> dropped = []))"
proof -
  have "service_ok E s0 s" by (rule service_runs_ok [OF assms(2,1) service_ok_new [OF assms(1)]])
  then show ?thesis unfolding service_ok_def event_order_def replayed_def round_ok_def using round_rest_quiet by blast
qed

text \<open>C30: once the context is cancelled and \<open>Run\<close> has returned, a pending \<open>Shutdown\<close> can end
  gracefully unless the loop ended while an event handler was sending: in that case the
  handler waits for ever, and only the timeout ends \<open>Shutdown\<close>.\<close>

theorem shutdown_graceful_unless_stuck:
  assumes "service_inv E s0" and "service_runs E (new_service s0) s" and "sv_cancelled s"
    and "sv_run s = RunReturned" and "sv_shutdown s = Waiting"
  shows "(\<exists>t. service_runs E s t \<and> sv_shutdown t = Graceful) \<longleftrightarrow> \<not> stuck s"
proof
  have ok: "service_ok E s0 s" by (rule service_runs_ok [OF assms(2,1) service_ok_new [OF assms(1)]])
  show "\<not> stuck s" if "\<exists>t. service_runs E s t \<and> sv_shutdown t = Graceful"
  proof
    assume "stuck s"
    with that assms(5) ok show False using stuck_no_graceful [OF _ assms(1)] by fastforce
  qed
  show "\<exists>t. service_runs E s t \<and> sv_shutdown t = Graceful" if "\<not> stuck s"
  proof -
    obtain t where t: "service_runs E s t" "\<forall>ev. sv_handler t \<noteq> Sending ev" "sv_cancelled t"
      "sv_run t = RunReturned" "sv_shutdown t = sv_shutdown s" "service_ok E s0 t"
      by (rule handler_free [OF ok assms(3,4) \<open>\<not> stuck s\<close> assms(1)])
    obtain u where u: "service_runs E t u" "sv_wg u = 0" "sv_shutdown u = sv_shutdown t"
      by (rule loop_and_informer_end [OF t(6) assms(1) t(3,4,2)])
    then have "service_step E u (u\<lparr>sv_shutdown := Graceful\<rparr>)"
      by (intro service_step.Shutdown_done) (simp add: Shutdown_done_def t(5) assms(5))
    then have "service_runs E s (u\<lparr>sv_shutdown := Graceful\<rparr>)"
      using service_runs_trans [OF u(1) t(1)] by (rule service_runs.there [rotated])
    moreover have "sv_shutdown (u\<lparr>sv_shutdown := Graceful\<rparr>) = Graceful" by simp
    ultimately show ?thesis by blast
  qed
qed

text \<open>C39: the stuck state does occur: any notification that is on its way when the context is
  cancelled can be left in the handler's hands by the loop, since \<open>select\<close> may prefer the
  end of the context.\<close>

theorem cancel_can_strand_a_notification:
  assumes "ev \<noteq> CtxDone"
  shows "\<exists>s. service_runs E (new_service s0) s \<and> stuck s \<and> in_hand (sv_handler s) = [ev] \<and>
    sv_shutdown s = Waiting"
  using stranded_run [OF assms, of E s0] by blast

lemma demo_service_inv: "service_inv demo_env (demo_sys None None)"
  by (simp add: service_inv_def caches_fresh_def demo_sys_def)

theorem service_refines_update_loop_witness:
  "\<exists>s. service_runs demo_env (new_service (demo_sys None None)) s \<and>
     sv_delivered s = sv_processed s @ [OtherObj] @ sv_pending s \<and> service_inv demo_env (sv_sys s)"
proof -
  obtain s where s: "service_runs demo_env (new_service (demo_sys None None)) s" "stuck s"
    "in_hand (sv_handler s) = [OtherObj]"
    using stranded_run [of OtherObj] by blast
  from s(2) have "sv_handler s \<noteq> HandlerEnded" by (auto simp: stuck_def)
  with service_refines_update_loop [OF demo_service_inv s(1)] s show ?thesis by auto
qed

theorem shutdown_graceful_unless_stuck_witness:
  "\<exists>s. service_runs demo_env (new_service (demo_sys None None)) s \<and> sv_shutdown s = Waiting \<and>
     \<not> (\<exists>t. service_runs demo_env s t \<and> sv_shutdown t = Graceful)"
proof -
  obtain s where s: "service_runs demo_env (new_service (demo_sys None None)) s" "stuck s"
    "sv_cancelled s" "sv_shutdown s = Waiting"
    using stranded_run [of OtherObj] by blast
  from s(2) have "sv_run s = RunReturned" by (simp add: stuck_def)
  from shutdown_graceful_unless_stuck [OF demo_service_inv s(1,3) this s(4)] s show ?thesis by blast
qed

theorem cancel_can_strand_a_notification_witness:
  "\<exists>s. service_runs demo_env (new_service (demo_sys None None)) s \<and> in_hand (sv_handler s) = [OtherObj]"
  using cancel_can_strand_a_notification [of OtherObj demo_env "demo_sys None None"] by auto

end
