(* ===== verification/Process.thy ===== *)
theory Process
  imports Machine_Controller Service_Run
begin

text \<open>
  The running process as a whole, from the end of the wiring in \<open>main\<close> on: the goroutines of
  the credential service, the handlers of the manager and the outside world, in any
  interleaving. A handler is not a step here: of what handlers do, only asking a cached
  client for the engine's client touches the state they share, so each such \<open>Get\<close> is a
  step, and between two of them the others' steps, and anything else that leaves the cached
  clients alone, may happen. The credential service gives new credentials to one listener
  per step. The theory shows that whole handlers, and the machine controller around them,
  are runs of these steps, how the credentials of the components follow the watched secret,
  and what the clients they get were made from. \<open>main\<close> starts the manager only after \<open>Run\<close>
  has returned.
\<close>

section \<open>Steps\<close>

inductive process_step :: "'w environment \<Rightarrow> 'w wired \<Rightarrow> 'w service \<Rightarrow> 'w service \<Rightarrow> bool" for E wd where
  service: "Service_Run.service_step E s s' \<Longrightarrow> process_step E wd s s'"
| client: "sv_run s = RunReturned \<Longrightarrow> i \<in> owners wd \<Longrightarrow> Get E i (sv_sys s) = (r, x) \<Longrightarrow>
     process_step E wd s (s\<lparr>sv_sys := x\<rparr>)"
| other: "caches x = caches (sv_sys s) \<Longrightarrow> credUpdateListener x = credUpdateListener (sv_sys s) \<Longrightarrow>
     process_step E wd s (s\<lparr>sv_sys := x\<rparr>)"

inductive process_runs :: "'w environment \<Rightarrow> 'w wired \<Rightarrow> 'w service \<Rightarrow> 'w service \<Rightarrow> bool" for E wd s where
  here: "process_runs E wd s s"
| there: "process_runs E wd s t \<Longrightarrow> process_step E wd t u \<Longrightarrow> process_runs E wd s u"

lemma process_runs_trans: "process_runs E wd t u \<Longrightarrow> process_runs E wd s t \<Longrightarrow> process_runs E wd s u"
  by (induction rule: process_runs.induct) (auto intro: process_runs.there)

lemma process_runs_step: "process_step E wd s t \<Longrightarrow> process_runs E wd t u \<Longrightarrow> process_runs E wd s u"
  using process_runs_trans process_runs.there [OF process_runs.here] by blast

lemma service_process_runs: "service_runs E s t \<Longrightarrow> process_runs E wd s t"
  by (induction rule: service_runs.induct) (auto intro: process_runs.intros process_step.service)

text \<open>Being reached by the steps is itself an invariant in the sense of \<open>process_invariant\<close>, so the
  rules for the handlers say that a handler, however it ends, is a run of the steps.\<close>

interpretation moving: process_invariant E
    "\<lambda>x. wiring wd \<and> sv_run s = RunReturned \<and> process_runs E wd s (s\<lparr>sv_sys := x\<rparr>)" for E wd s
proof
  fix x y
  assume p: "wiring wd \<and> sv_run s = RunReturned \<and> process_runs E wd s (s\<lparr>sv_sys := x\<rparr>)"
  show "wiring wd \<and> sv_run s = RunReturned \<and> process_runs E wd s (s\<lparr>sv_sys := y\<rparr>)"
    if "caches y = caches x" "credUpdateListener y = credUpdateListener x"
    using process_runs.there [of E wd s "s\<lparr>sv_sys := x\<rparr>"] process_step.other [of y "s\<lparr>sv_sys := x\<rparr>" E wd] p that by simp
  show "wiring wd \<and> sv_run s = RunReturned \<and> process_runs E wd s (s\<lparr>sv_sys := y\<rparr>)"
    if "i < 4" "Get E i x = (r, y)" for i r
    using process_runs.there [of E wd s "s\<lparr>sv_sys := x\<rparr>"] process_step.client [of "s\<lparr>sv_sys := x\<rparr>" i wd E r y]
      p that wiring_owners [of wd i] by simp
qed

lemma handler_runs:
  assumes "wiring wd" and "sv_run s = RunReturned" and "\<And>ce. ev \<noteq> SecretEvent ce"
    and "handle E wd ev (sv_sys s) = (r, x)"
  shows "process_runs E wd s (s\<lparr>sv_sys := x\<rparr>)"
  using keepsD [OF moving.keeps_handler [OF assms(1,3)] _ assms(4)] assms(1,2) process_runs.here [of E wd s] by simp

lemma machine_Reconcile_runs:
  assumes "wiring wd" and "sv_run s = RunReturned" and "rm_actuator R = wd_actuator wd"
    and "machine_Reconcile E R request (sv_sys s) = (r, x)"
  shows "process_runs E wd s (s\<lparr>sv_sys := x\<rparr>)"
proof -
  have "act_cachedOVirtClient (rm_actuator R) < 4" using assms(1,3) by (simp add: wiring_def)
  from keepsD [OF moving.keeps_machine_Reconcile [OF this] _ assms(4)] assms(1,2) process_runs.here [of E wd s]
  show ?thesis by simp
qed

section \<open>The goroutines of the service under the handlers\<close>

text \<open>
  Handlers and the world change \<open>sv_sys\<close> only, so the goroutines are counted and the
  notifications ordered as before. Before \<open>cancel\<close> no goroutine ends.
\<close>

definition alive :: "'w service \<Rightarrow> bool" where
  "alive s \<longleftrightarrow> (sv_cancelled s \<or> sv_loop s \<noteq> LoopEnded \<and> (sv_run s \<noteq> NotRun \<longrightarrow> sv_handler s \<noteq> HandlerEnded))"

definition goroutines_ok :: "'w service \<Rightarrow> bool" where
  "goroutines_ok s \<longleftrightarrow> counting s \<and> event_order s \<and> alive s"

lemma goroutines_ok_sys [simp]: "goroutines_ok (s\<lparr>sv_sys := x\<rparr>) = goroutines_ok s"
  by (simp add: goroutines_ok_def counting_def event_order_def alive_def)

lemma alive_step: "Service_Run.service_step E s s' \<Longrightarrow> alive s \<Longrightarrow> alive s'"
  by (erule service_stepE; clarsimp simp: service_ops split: service_splits; auto simp: alive_def)

lemma goroutines_ok_step: "process_step E wd s s' \<Longrightarrow> goroutines_ok s \<Longrightarrow> goroutines_ok s'"
proof (induction rule: process_step.induct)
  case (service s s')
  then show ?case unfolding goroutines_ok_def by (blast intro: counting_step event_order_step alive_step)
qed simp_all

lemma goroutines_ok_new: "goroutines_ok (new_service s)"
  by (simp add: goroutines_ok_def counting_def event_order_def alive_def new_service_def in_hand_def looping_def)

section \<open>The credentials of the components\<close>

text \<open>
  What the watched secret says after a sequence of notifications: the credentials of the
  last one that is a secret and parses. A component holds them with, for a secret that has
  a CA bundle, the path of the file the bundle was stored in.
\<close>

definition adopt :: "Credentials option \<Rightarrow> cred_event \<Rightarrow> Credentials option" where
  "adopt c ev = (case ev of
       SecretObj d \<Rightarrow> (case FromK8sSecret d of Inl err \<Rightarrow> c | Inr creds \<Rightarrow> Some creds)
     | _ \<Rightarrow> c)"

definition settled :: "cred_event list \<Rightarrow> Credentials option" where
  "settled evs = foldl adopt None evs"

definition adopted :: "Credentials \<Rightarrow> Credentials \<Rightarrow> bool" where
  "adopted creds c \<longleftrightarrow> c = creds \<or> cr_CABundle creds \<noteq> [] \<and> c = creds\<lparr>cr_CAFile := cr_CAFile c\<rparr>"

definition bundle_of :: "cred_event \<Rightarrow> string" where
  "bundle_of ev = (case adopt None ev of None \<Rightarrow> [] | Some creds \<Rightarrow> cr_CABundle creds)"

definition storable :: "'w environment \<Rightarrow> cred_event list \<Rightarrow> bool" where
  "storable E evs \<longleftrightarrow> files_work E \<or> list_all (\<lambda>ev. bundle_of ev = []) evs"

text \<open>Credentials that come from one of the notifications.\<close>

definition announced :: "cred_event list \<Rightarrow> Credentials \<Rightarrow> bool" where
  "announced evs c \<longleftrightarrow> (\<exists>ev \<in> set evs. \<exists>creds. adopt None ev = Some creds \<and> adopted creds c)"

definition in_step :: "'w environment \<Rightarrow> cred_event list \<Rightarrow> Credentials option list \<Rightarrow> bool" where
  "in_step E evs held \<longleftrightarrow> (\<exists>c. held = replicate 4 c \<and> (\<forall>x. c = Some x \<longrightarrow> announced evs x) \<and>
     (storable E evs \<longrightarrow> rel_option adopted (settled evs) c))"

lemma settled_snoc: "settled (evs @ [ev]) = adopt (settled evs) ev"
  by (simp add: settled_def)

lemma adopt_Some: "adopt None ev = Some creds \<Longrightarrow> adopt c ev = Some creds"
  by (auto simp: adopt_def split: cred_event.splits sum.splits)

lemma adopt_None: "adopt None ev = None \<Longrightarrow> adopt c ev = c"
  by (auto simp: adopt_def split: cred_event.splits sum.splits)

lemma adopt_None_iff: "adopt None ev = None \<longleftrightarrow> (\<forall>d creds. ev = SecretObj d \<longrightarrow> FromK8sSecret d \<noteq> Inr creds)"
  by (cases ev) (auto simp: adopt_def split: sum.splits)

lemma storable_snoc: "storable E (evs @ [ev]) \<longleftrightarrow> storable E evs \<and> (files_work E \<or> bundle_of ev = [])"
  by (auto simp: storable_def)

lemma announced_snoc: "announced evs c \<Longrightarrow> announced (evs @ [ev]) c"
  by (auto simp: announced_def)

lemma writeCA_adopted: "writeCA E creds s = (Val creds', s') \<Longrightarrow> adopted creds creds'"
  by (auto simp: writeCA_def adopted_def elim!: bind_ValE split: if_splits)

lemma creds_held_nth: "i < length (caches s) \<Longrightarrow> credentials_of i s = creds_held s ! i"
  by (simp add: credentials_of_def creds_held_def)

lemma creds_held_all:
  assumes "length (caches s) = 4" and "\<And>i. i < 4 \<Longrightarrow> credentials_of i s = c"
  shows "creds_held s = replicate 4 c"
  by (rule nth_equalityI) (use assms creds_held_nth [of _ s] in \<open>auto simp: creds_held_def\<close>)

lemma bad_update_adopt:
  "adopt None ev = None \<Longrightarrow> ev \<noteq> CtxDone \<Longrightarrow> bad_update E ev s"
  by (cases ev) (auto simp: adopt_def bad_update_def split: sum.splits)

lemma in_step_unchanged:
  assumes "in_step E evs held" and "storable E (evs @ [ev]) \<Longrightarrow> adopt None ev = None"
  shows "in_step E (evs @ [ev]) held"
proof -
  from assms(1) obtain c where c: "held = replicate 4 c" "\<forall>x. c = Some x \<longrightarrow> announced evs x"
    "storable E evs \<longrightarrow> rel_option adopted (settled evs) c" unfolding in_step_def by blast
  have "rel_option adopted (settled (evs @ [ev])) c" if "storable E (evs @ [ev])"
    using that c(3) adopt_None [OF assms(2) [OF that]] by (simp add: settled_snoc storable_snoc)
  with c(1,2) announced_snoc show ?thesis unfolding in_step_def by blast
qed

lemma in_step_adopted:
  assumes "adopt None ev = Some creds" and "held = replicate 4 (Some c)" and "adopted creds c"
  shows "in_step E (evs @ [ev]) held"
proof -
  have "announced (evs @ [ev]) c" using assms(1,3) unfolding announced_def by (intro bexI [of _ ev]) simp_all
  moreover have "settled (evs @ [ev]) = Some creds" unfolding settled_snoc by (rule adopt_Some [OF assms(1)])
  ultimately show ?thesis unfolding in_step_def using assms(2,3) by (intro exI [of _ "Some c"]) simp
qed


section \<open>The invariant of the process\<close>

text \<open>The credentials held, at each point of the loop: the components are told one after the
  other, so that while they are told the first ones hold the new credentials and the others
  still those they all held before.\<close>

fun told :: "'w environment \<Rightarrow> loop_pc \<Rightarrow> cred_event list \<Rightarrow> Credentials option list \<Rightarrow> bool" where
  "told E (Handling ev) evs held \<longleftrightarrow> (\<exists>pre. evs = pre @ [ev] \<and> in_step E pre held)"
| "told E (StoringCA creds) evs held \<longleftrightarrow>
     (\<exists>pre ev. evs = pre @ [ev] \<and> adopt None ev = Some creds \<and> in_step E pre held)"
| "told E (Updating creds ls) evs held \<longleftrightarrow>
     (\<exists>pre ev creds0 old k. evs = pre @ [ev] \<and> adopt None ev = Some creds0 \<and> adopted creds0 creds \<and>
        in_step E pre (replicate 4 old) \<and> k \<le> 4 \<and> ls = drop k [0, 1, 2, 3] \<and>
        held = replicate k (Some creds) @ replicate (4 - k) old)"
| "told E _ evs held \<longleftrightarrow> in_step E evs held"

definition default_funcs :: "'w environment \<Rightarrow> 'w sys \<Rightarrow> bool" where
  "default_funcs E x \<longleftrightarrow> list_all (\<lambda>c. create_func E c = CreateNewOVirtClient E) (caches x)"

definition serving :: "'w environment \<Rightarrow> 'w wired \<Rightarrow> 'w service \<Rightarrow> bool" where
  "serving E wd s \<longleftrightarrow> wiring wd \<and> goroutines_ok s \<and> running E (sv_sys s) \<and> default_funcs E (sv_sys s) \<and>
     told E (sv_loop s) (sv_processed s) (creds_held (sv_sys s))"

lemma told_between: "between_rounds pc \<Longrightarrow> told E pc evs held = in_step E evs held"
  by (auto simp: between_rounds_def)

lemma told_quiet:
  "pc' = pc \<or> between_rounds pc \<and> between_rounds pc' \<Longrightarrow> told E pc evs held \<Longrightarrow> told E pc' evs held"
  by (auto simp: told_between)

lemma told_parsed:
  assumes "told E (Handling ev) evs held" shows "told E (parse_secret ev) evs held"
proof -
  from assms obtain pre where pre: "evs = pre @ [ev]" "in_step E pre held" by auto
  show ?thesis
  proof (cases "adopt None ev")
    case None
    then have "parse_secret ev = Selecting"
      by (auto simp: parse_secret_def adopt_def split: cred_event.splits sum.splits)
    with pre None show ?thesis by (simp add: in_step_unchanged)
  next
    case (Some creds)
    then have "parse_secret ev = StoringCA creds"
      by (auto simp: parse_secret_def adopt_def split: cred_event.splits sum.splits)
    with pre Some show ?thesis by auto
  qed
qed

lemma told_stored:
  assumes "told E (StoringCA creds) evs held" and "adopted creds creds'"
  shows "told E (Updating creds' [0, 1, 2, 3]) evs held"
proof -
  from assms(1) obtain pre ev where pre: "evs = pre @ [ev]" "adopt None ev = Some creds" "in_step E pre held" by auto
  then obtain old where old: "held = replicate 4 old" by (auto simp: in_step_def)
  show ?thesis unfolding told.simps
    by (rule exI [of _ pre], rule exI [of _ ev], rule exI [of _ creds], rule exI [of _ old], rule exI [of _ 0])
       (use pre old assms(2) in simp)
qed

lemma told_not_stored:
  assumes "told E (StoringCA creds) evs held" and "\<not> (files_work E \<or> cr_CABundle creds = [])"
  shows "told E Selecting evs held"
proof -
  from assms(1) obtain pre ev where pre: "evs = pre @ [ev]" "adopt None ev = Some creds" "in_step E pre held" by auto
  have "\<not> storable E (pre @ [ev])" using assms(2) pre(2) by (simp add: storable_snoc bundle_of_def)
  with in_step_unchanged [OF pre(3), of ev] pre(1) show ?thesis by simp
qed

lemma told_update:
  assumes "told E (Updating creds (l # ls)) evs held"
  shows "l < 4 \<and> told E (Updating creds ls) evs (held[l := Some creds])"
proof -
  from assms obtain pre ev creds0 old k where k: "evs = pre @ [ev]" "adopt None ev = Some creds0" "adopted creds0 creds"
    "in_step E pre (replicate 4 old)" "k \<le> 4" "l # ls = drop k [0, 1, 2, 3]"
    "held = replicate k (Some creds) @ replicate (4 - k) old" by auto
  have "k = 0 \<or> k = 1 \<or> k = 2 \<or> k = 3 \<or> k = 4" using k(5) by arith
  with k(6) have kl: "k < 4" "l = k" "ls = drop (Suc k) [0, 1, 2, 3]" by (auto simp: numeral_eq_Suc)
  then have "4 - k = Suc (4 - Suc k)" by simp
  then have "held[l := Some creds] = replicate (Suc k) (Some creds) @ replicate (4 - Suc k) old"
    using k(7) kl(2) by (simp add: list_update_append replicate_append_same)
  with k kl show ?thesis unfolding told.simps
    by (intro conjI exI [of _ pre] exI [of _ ev] exI [of _ creds0] exI [of _ old] exI [of _ "Suc k"]) simp_all
qed

lemma told_finish:
  assumes "told E (Updating creds []) evs held" shows "told E Selecting evs held"
proof -
  from assms obtain pre ev creds0 old k where k: "evs = pre @ [ev]" "adopt None ev = Some creds0" "adopted creds0 creds"
    "k \<le> 4" "[] = drop k [0 :: nat, 1, 2, 3]" "held = replicate k (Some creds) @ replicate (4 - k) old" by auto
  then have "held = replicate 4 (Some creds)" by simp
  from in_step_adopted [OF k(2) this k(3)] k(1) show ?thesis by simp
qed

lemma SetCredentials_in_process:
  assumes "running E x" and "default_funcs E x" and "l < 4"
  shows "running E (snd (SetCredentials E l c x))" and "default_funcs E (snd (SetCredentials E l c x))"
    and "creds_held (snd (SetCredentials E l c x)) = (creds_held x)[l := c]"
proof -
  obtain r y where run: "SetCredentials E l c x = (r, y)" by fastforce
  have l: "l < length (caches x)" using assms(1,3) by (simp add: running_def)
  obtain c' where c': "caches y = (caches x)[l := c']" "cc_credentials c' = c"
    "create_func E c' = create_func E (caches x ! l)" using l run by (rule SetCredentials_run)
  have "credUpdateListener y = credUpdateListener x" using run by (rule preservesD [rotated]) (intro preserves_intros)
  with SetCredentials_fresh [OF _ l run] assms(1) c'(1) show "running E (snd (SetCredentials E l c x))"
    by (simp add: running_def run)
  show "default_funcs E (snd (SetCredentials E l c x))" using assms(2) l c'
    by (auto simp: default_funcs_def run list_all_length nth_list_update)
  show "creds_held (snd (SetCredentials E l c x)) = (creds_held x)[l := c]"
    by (simp add: creds_held_def run c' map_update)
qed

lemma serving_service:
  assumes "serving E wd s" and "Service_Run.service_step E s s'" shows "serving E wd s'"
proof -
  from assms(1) have s: "wiring wd" "goroutines_ok s" "running E (sv_sys s)" "default_funcs E (sv_sys s)"
    "told E (sv_loop s) (sv_processed s) (creds_held (sv_sys s))" by (simp_all add: serving_def)
  have g: "goroutines_ok s'" by (rule goroutines_ok_step [OF process_step.service [OF assms(2)] s(2)])
  have kept: "running E x \<and> default_funcs E x \<and> creds_held x = creds_held (sv_sys s)"
    if "writeCA E creds (sv_sys s) = (r, x)" for creds r x
    using preservesD [OF preserves_writeCA(1) that] preservesD [OF preserves_writeCA(2) that] s(3,4)
    by (simp add: running_frame default_funcs_def creds_held_def)
  from assms(2) have "counting s" using s(2) by (simp add: goroutines_ok_def)
  with assms(2) show ?thesis
  proof (cases rule: service_step_sys)
    case quiet
    with s told_quiet [of "sv_loop s'" "sv_loop s"] g show ?thesis by (simp add: serving_def)
  next
    case (receive ev)
    with s g show ?thesis by (simp add: serving_def)
  next
    case (parse ev)
    with s g told_parsed show ?thesis by (simp add: serving_def)
  next
    case (stored creds creds')
    have "credUpdateListener (sv_sys s') = [0, 1, 2, 3]" using kept [OF stored(3)] by (simp add: running_def)
    with s g kept [OF stored(3)] stored told_stored [OF _ writeCA_adopted [OF stored(3)]] show ?thesis
      by (simp add: serving_def)
  next
    case (not_stored creds x)
    have "\<not> (files_work E \<or> cr_CABundle creds = [])" using writeCA_stores [of E creds "sv_sys s"] not_stored(3,4) by auto
    with s g kept [OF not_stored(3)] not_stored told_not_stored [of E creds] show ?thesis by (simp add: serving_def)
  next
    case (update creds l ls)
    with s(5) told_update [of E creds l ls] have "l < 4"
      "told E (Updating creds ls) (sv_processed s) ((creds_held (sv_sys s))[l := Some creds])" by simp_all
    with s g update SetCredentials_in_process [OF s(3,4)] show ?thesis by (simp add: serving_def)
  next
    case (finish creds)
    with s g told_finish [of E creds] show ?thesis by (simp add: serving_def)
  qed
qed

lemma default_funcs_Get:
  assumes "default_funcs E x" and "i < length (caches x)" and "Get E i x = (r, y)" shows "default_funcs E y"
proof -
  have "\<exists>c'. caches y = (caches x)[i := c'] \<and> same_source E (caches x ! i) c'"
    by (rule Get_run [OF assms(2,3)]) auto
  with assms(1,2) show ?thesis by (auto simp: default_funcs_def list_all_length nth_list_update same_source_def)
qed

lemma serving_step: "process_step E wd s s' \<Longrightarrow> serving E wd s \<Longrightarrow> serving E wd s'"
proof (induction rule: process_step.induct)
  case (service s s')
  then show ?case by (rule serving_service [rotated])
next
  case (client s i r x)
  then have i: "i < 4" "i < length (caches (sv_sys s))"
    using wiring_owners [of wd i] by (auto simp: serving_def running_def)
  with client running_Get [of E "sv_sys s" i r x] creds_held_Get [OF i(2) client(3)] default_funcs_Get [OF _ i(2) client(3)]
  show ?case by (simp add: serving_def)
next
  case (other x s)
  then show ?case using running_frame [of E "sv_sys s" x] by (simp add: serving_def default_funcs_def creds_held_def)
qed

lemma serving_runs: "process_runs E wd s t \<Longrightarrow> serving E wd s \<Longrightarrow> serving E wd t"
  by (induction rule: process_runs.induct) (auto intro: serving_step)

text \<open>It holds when \<open>main\<close> starts the service.\<close>

lemma main_setup_caches:
  assumes "main_setup L flags s = (Val wd, s')" and "caches s = []" and "credUpdateListener s = []"
  shows "creds_held s' = replicate 4 None" and "\<forall>c \<in> set (caches s'). cc_clientCreateFunc c = None"
  using assms
  by (auto simp: main_setup_def Let_def NewCachedClient_run creds_held_def NewCachedOVirtClient_def numeral_eq_Suc
      elim!: bind_ValE dest!: setupManager_Val attempt_api_keeps attempt_AddToManager_keeps)

lemma serving_start:
  assumes "main_setup L flags s = (Val wd, s')" and "caches s = []" and "credUpdateListener s = []"
  shows "serving E wd (new_service s')"
proof -
  from program_invariant [OF program_reachable.started [OF assms], of E] have "wiring wd" "running E s'" by auto
  moreover have "in_step E [] (creds_held s')"
    using main_setup_caches(1) [OF assms] by (simp add: in_step_def settled_def)
  moreover have "default_funcs E s'"
    using main_setup_caches(2) [OF assms] by (simp add: default_funcs_def list_all_iff create_func_def)
  moreover have "sv_sys (new_service s') = s'" "sv_processed (new_service s') = []" "sv_loop (new_service s') = LoopNotStarted"
    by (simp_all add: new_service_def)
  ultimately show ?thesis using goroutines_ok_new [of s'] by (simp add: serving_def)
qed

section \<open>Catching up\<close>

text \<open>What brings the loop forward until nothing is pending: the handler sends, a round in progress
  is finished, the loop receives.\<close>

definition loop_ready :: "'w service \<Rightarrow> bool" where
  "loop_ready s \<longleftrightarrow> looping (sv_loop s) \<and> sv_handler s \<noteq> HandlerEnded"

definition backlog :: "'w service \<Rightarrow> nat" where
  "backlog s = 2 * length (sv_pending s) + length (in_hand (sv_handler s))"

lemma forward:
  assumes "loop_ready s" and "backlog s > 0"
  obtains t where "service_runs E s t" and "loop_ready t" and "backlog t = backlog s - 1"
    and "sv_delivered t = sv_delivered s"
proof (cases "sv_handler s")
  case HandlerIdle
  with assms(2) obtain ev evs where p: "sv_pending s = ev # evs"
    by (cases "sv_pending s") (auto simp: backlog_def in_hand_def)
  with HandlerIdle have h: "handler_send s = Some (s\<lparr>sv_handler := Sending ev, sv_pending := evs\<rparr>)"
    by (simp add: handler_send_def)
  show thesis
    by (rule that [OF service_runs_one [OF Service_Run.service_step.handler_send [OF h]]])
       (use assms(1) HandlerIdle p in \<open>simp_all add: loop_ready_def backlog_def in_hand_def\<close>)
next
  case (Sending ev)
  from assms(1) obtain x where x: "service_runs E s (s\<lparr>sv_sys := x, sv_loop := Selecting\<rparr>)" (is "service_runs E s ?a")
    using round_finishes unfolding loop_ready_def by blast
  let ?t = "?a\<lparr>sv_loop := Handling ev, sv_handler := HandlerIdle, sv_processed := sv_processed s @ [ev]\<rparr>"
  have "Service_Run.service_step E ?a ?t"
    using Sending by (intro Service_Run.service_step.loop_receive) (simp add: loop_receive_def)
  with x have "service_runs E s ?t" by (rule service_runs.there)
  then show thesis
    by (rule that) (use Sending in \<open>simp_all add: loop_ready_def backlog_def in_hand_def looping_def\<close>)
qed (use assms(1) in \<open>simp add: loop_ready_def\<close>)

lemma catch_up:
  assumes "loop_ready s"
  shows "\<exists>t. service_runs E s t \<and> loop_ready t \<and> backlog t = 0 \<and> sv_loop t = Selecting \<and> sv_delivered t = sv_delivered s"
  using assms
proof (induction "backlog s" arbitrary: s)
  case 0
  then obtain x where "service_runs E s (s\<lparr>sv_sys := x, sv_loop := Selecting\<rparr>)" (is "service_runs E s ?t")
    using round_finishes unfolding loop_ready_def by blast
  moreover have "loop_ready ?t" "backlog ?t = 0" using 0 by (simp_all add: loop_ready_def backlog_def looping_def)
  ultimately show ?case by (intro exI [of _ ?t]) simp
next
  case (Suc n)
  then obtain t where t: "service_runs E s t" "loop_ready t" "backlog t = backlog s - 1"
    "sv_delivered t = sv_delivered s" by (metis forward zero_less_Suc)
  from Suc(2) t(3) have "n = backlog t" by simp
  from Suc(1) [OF this t(2)] t(4) service_runs_trans [OF _ t(1)] show ?case by metis
qed

lemma caught_up:
  assumes "goroutines_ok s" and "loop_ready s" and "backlog s = 0"
  shows "sv_processed s = sv_delivered s"
  using assms by (auto simp: goroutines_ok_def event_order_def loop_ready_def backlog_def)

lemma serving_loop_ready:
  assumes "serving E wd s" and "\<not> sv_cancelled s" and "sv_run s = RunReturned"
  shows "loop_ready s"
  using assms by (auto simp: serving_def goroutines_ok_def alive_def loop_ready_def counting_def looping_def)


section \<open>Properties\<close>

definition up_to_date :: "'w wired \<Rightarrow> 'w service \<Rightarrow> bool" where
  "up_to_date wd s \<longleftrightarrow> (\<forall>i \<in> owners wd.
     rel_option adopted (settled (sv_delivered s)) (credentials_of i (sv_sys s)))"

text \<open>The credentials of the four components, in the order in which they listen.\<close>

definition components_hold :: "'w wired \<Rightarrow> 'w service \<Rightarrow> Credentials option list" where
  "components_hold wd s = map (\<lambda>i. credentials_of i (sv_sys s))
     [wd_healthz wd, act_cachedOVirtClient (wd_actuator wd),
      bc_CachedOVirtClient (wd_providerID wd), bc_CachedOVirtClient (wd_node wd)]"

lemma components_hold_caches:
  assumes "serving E wd s" shows "components_hold wd s = creds_held (sv_sys s)"
proof -
  from assms have "length (caches (sv_sys s)) = 4" "wiring wd" by (simp_all add: serving_def running_def)
  then show ?thesis
    by (intro nth_equalityI) (auto simp: components_hold_def wiring_def creds_held_def credentials_of_def less_Suc_eq numeral_eq_Suc)
qed

lemma processed_delivered: "goroutines_ok s \<Longrightarrow> set (sv_processed s) \<subseteq> set (sv_delivered s)"
  by (auto simp: goroutines_ok_def event_order_def)

lemma announced_mono: "announced evs c \<Longrightarrow> set evs \<subseteq> set evs' \<Longrightarrow> announced evs' c"
  unfolding announced_def by blast

text \<open>At most one point in the list of components separates those already told from the others.\<close>

lemma told_shape:
  assumes "told E pc evs held"
  obtains k new old where "k \<le> 4" and "held = replicate k new @ replicate (4 - k) old"
    and "(\<forall>creds ls. pc \<noteq> Updating creds ls) \<longrightarrow> k = 4"
    and "\<forall>x. new = Some x \<or> old = Some x \<longrightarrow> announced evs x"
proof -
  note shape = that
  have all: thesis if "in_step E pre held" "set pre \<subseteq> set evs" for pre
  proof -
    from that obtain c where "held = replicate 4 c" "\<forall>x. c = Some x \<longrightarrow> announced pre x" by (auto simp: in_step_def)
    with that(2) announced_mono show thesis by (intro shape [of 4 c c]) (auto intro: announced_mono)
  qed
  show thesis
  proof (cases "\<exists>creds ls. pc = Updating creds ls")
    case True
    then obtain creds ls where Updating: "pc = Updating creds ls" by blast
    with assms obtain pre ev creds0 old k where k: "evs = pre @ [ev]" "adopt None ev = Some creds0" "adopted creds0 creds"
      "in_step E pre (replicate 4 old)" "k \<le> 4" "held = replicate k (Some creds) @ replicate (4 - k) old" by auto
    have "announced evs creds" using k(1-3) unfolding announced_def by auto
    moreover have "announced evs x" if "old = Some x" for x
      using k(1,4) that announced_mono [of pre x evs] by (auto simp: in_step_def)
    ultimately show thesis using k(5,6) Updating by (intro shape [of k "Some creds" old]) auto
  next
    case False
    with assms have "\<exists>pre. in_step E pre held \<and> set pre \<subseteq> set evs" by (cases pc) auto
    with all show thesis by blast
  qed
qed

lemma serving_up_to_date:
  assumes s: "serving E wd s" and "sv_processed s = sv_delivered s" and "between_rounds (sv_loop s)"
    and "storable E (sv_delivered s)"
  shows "up_to_date wd s"
proof -
  from s assms(3) have "in_step E (sv_processed s) (creds_held (sv_sys s))" by (simp add: serving_def told_between)
  with assms(2,4) obtain c where c: "components_hold wd s = replicate 4 c" "rel_option adopted (settled (sv_delivered s)) c"
    by (auto simp: in_step_def components_hold_caches [OF s])
  then have "\<forall>i \<in> owners wd. credentials_of i (sv_sys s) = c"
    by (simp add: components_hold_def owners_def numeral_eq_Suc)
  with c(2) show ?thesis by (simp add: up_to_date_def)
qed

text \<open>C13: however the requests of the components, the rounds of the credential service and the outside
  world interleave, a component that asks for a client gets none but one the engine's
  library made, with the TLS settings of the credentials, from the credentials of a secret
  the watch has delivered, completed at most by the path of its CA bundle's file; and the
  asking never panics.\<close>

theorem clients_come_from_delivered_secrets:
  assumes "main_setup L flags s0 = (Val wd, s1)" and "caches s0 = []" and "credUpdateListener s0 = []"
    and "process_runs E wd (new_service s1) s" and "i \<in> owners wd" and "Get E i (sv_sys s) = (r, x)"
  shows "case r of
      Val C \<Rightarrow> \<exists>secret creds c. SecretObj secret \<in> set (sv_delivered s) \<and> FromK8sSecret secret = Inr creds \<and>
        adopted creds c \<and> answers (env_NewWithVerify E (cr_URL c) (cr_Username c) (cr_Password c) (tls_for c)) C
    | Fail e \<Rightarrow> True
    | Crash p \<Rightarrow> False"
proof -
  have s: "serving E wd s" by (rule serving_runs [OF assms(4) serving_start [OF assms(1-3)]])
  have i: "i < 4" using s assms(5) wiring_owners [of wd i] by (simp add: serving_def)
  then have rd: "cache_ready E i (sv_sys s)" using s running_ready [of E "sv_sys s" i] by (simp add: serving_def)
  have len: "length (caches (sv_sys s)) = 4" using s by (simp add: serving_def running_def)
  from rd assms(6) show ?thesis
  proof (cases rule: cached.get_cases)
    case (client C)
    obtain c' where c': "caches x = (caches (sv_sys s))[i := c']" "same_source E (caches (sv_sys s) ! i) c'"
      using Get_run [OF _ assms(6)] i len by metis
    have made: "answers (CreateNewOVirtClient E (creds_held (sv_sys s) ! i)) C"
      using client(2) c' i len s
      by (simp add: current_client_def built_from_def same_source_def creds_held_def serving_def default_funcs_def list_all_length)
    then obtain c where c: "creds_held (sv_sys s) ! i = Some c"
      by (cases "creds_held (sv_sys s) ! i") (auto simp: CreateNewOVirtClient_def answers_def)
    from s have t: "told E (sv_loop s) (sv_processed s) (creds_held (sv_sys s))" and g: "goroutines_ok s"
      by (simp_all add: serving_def)
    from t obtain k new old where k: "k \<le> 4" "creds_held (sv_sys s) = replicate k new @ replicate (4 - k) old"
      "\<forall>x. new = Some x \<or> old = Some x \<longrightarrow> announced (sv_processed s) x" by (rule told_shape)
    then have "new = Some c \<or> old = Some c" using c i by (auto simp: nth_append split: if_splits)
    with k(3) have "announced (sv_delivered s) c" using announced_mono [OF _ processed_delivered [OF g]] by blast
    then obtain ev creds where "ev \<in> set (sv_delivered s)" "adopt None ev = Some creds" "adopted creds c"
      by (auto simp: announced_def)
    with made c client(1) show ?thesis
      by (cases ev) (auto simp: adopt_def CreateNewOVirtClient_def split: sum.splits)
  qed simp
qed

text \<open>C15: the components get new credentials in turn: in every state of the running process the
  health check, the actuator, the provider ID controller and the node controller hold, the
  first few of them one set of credentials and the others another; only while the loop is
  telling them can they differ. Each set is either none at all or that of a secret the
  watch has delivered, completed at most by the path of its CA bundle's file.\<close>

theorem components_updated_in_turn:
  assumes "main_setup L flags s0 = (Val wd, s1)" and "caches s0 = []" and "credUpdateListener s0 = []"
    and "process_runs E wd (new_service s1) s"
  shows "\<exists>k \<le> 4. \<exists>new old. components_hold wd s = replicate k new @ replicate (4 - k) old \<and>
    ((\<forall>creds ls. sv_loop s \<noteq> Updating creds ls) \<longrightarrow> k = 4) \<and>
    (\<forall>c. new = Some c \<or> old = Some c \<longrightarrow> announced (sv_delivered s) c)"
proof -
  have s: "serving E wd s" by (rule serving_runs [OF assms(4) serving_start [OF assms(1-3)]])
  then have t: "told E (sv_loop s) (sv_processed s) (components_hold wd s)" and g: "goroutines_ok s"
    by (simp_all add: serving_def components_hold_caches [OF s])
  from t obtain k new old where k: "k \<le> 4" "components_hold wd s = replicate k new @ replicate (4 - k) old"
    "(\<forall>creds ls. sv_loop s \<noteq> Updating creds ls) \<longrightarrow> k = 4"
    "\<forall>x. new = Some x \<or> old = Some x \<longrightarrow> announced (sv_processed s) x" by (rule told_shape)
  with announced_mono [OF _ processed_delivered [OF g]] show ?thesis by blast
qed

text \<open>C9: if every CA bundle delivered can be stored, the credentials follow the secret: whenever the
  loop has received everything that was delivered and is between two rounds, all four
  components hold the credentials of the last delivered secret that parses; and from every
  state the process is in before its shutdown, even in the middle of a round, the service
  alone reaches one in which they do.\<close>

theorem credentials_follow_the_secret:
  assumes "main_setup L flags s0 = (Val wd, s1)" and "caches s0 = []" and "credUpdateListener s0 = []"
    and "process_runs E wd (new_service s1) s" and "storable E (sv_delivered s)"
  shows "(sv_processed s = sv_delivered s \<and> between_rounds (sv_loop s) \<longrightarrow> up_to_date wd s) \<and>
    (\<not> sv_cancelled s \<and> sv_run s = RunReturned \<longrightarrow>
      (\<exists>t. service_runs E s t \<and> sv_delivered t = sv_delivered s \<and> up_to_date wd t))"
proof (intro conjI impI)
  have s: "serving E wd s" by (rule serving_runs [OF assms(4) serving_start [OF assms(1-3)]])
  show "up_to_date wd s" if "sv_processed s = sv_delivered s \<and> between_rounds (sv_loop s)"
    using serving_up_to_date [OF s] that assms(5) by blast
  assume "\<not> sv_cancelled s \<and> sv_run s = RunReturned"
  with s have "loop_ready s" by (simp add: serving_loop_ready)
  from catch_up [OF this] obtain t where t: "service_runs E s t" "loop_ready t" "backlog t = 0" "sv_loop t = Selecting"
    "sv_delivered t = sv_delivered s" by blast
  have st: "serving E wd t" by (rule serving_runs [OF service_process_runs [OF t(1)] s])
  then have "sv_processed t = sv_delivered t" using caught_up [OF _ t(2,3)] by (simp add: serving_def)
  moreover have "between_rounds (sv_loop t)" by (simp add: t(4) between_rounds_def)
  moreover have "storable E (sv_delivered t)" using t(5) assms(5) by simp
  ultimately have "up_to_date wd t" by (rule serving_up_to_date [OF st])
  with t(1,5) show "\<exists>t. service_runs E s t \<and> sv_delivered t = sv_delivered s \<and> up_to_date wd t" by blast
qed

text \<open>A run of the demo process that has received a secret.\<close>

lemma demo_process_run:
  obtains wd s1 s where "main_setup demo_manager_lib flag_defaults (demo_sys None None) = (Val wd, s1)"
    and "process_runs demo_env wd (new_service s1) s" and "sv_delivered s = [SecretObj demo_secret]"
    and "\<not> sv_cancelled s" and "sv_run s = RunReturned"
proof -
  obtain wd s1 where 0: "main_setup demo_manager_lib flag_defaults (demo_sys None None) = (Val wd, s1)"
    using demo_main_setup by blast
  let ?ev = "SecretObj demo_secret"
  let ?a = "(new_service s1)\<lparr>sv_run := Syncing, sv_wg := 1, sv_informer := True, sv_handler := HandlerIdle\<rparr>"
  let ?b = "?a\<lparr>sv_run := RunReturned, sv_wg := 2, sv_loop := Selecting\<rparr>"
  let ?c = "?b\<lparr>sv_pending := [?ev], sv_delivered := [?ev]\<rparr>"
  have 1: "process_step demo_env wd (new_service s1) ?a"
    by (intro process_step.service Service_Run.service_step.Run_informer) (simp add: Run_informer_def new_service_def)
  have 2: "process_step demo_env wd ?a ?b"
    by (intro process_step.service Service_Run.service_step.Run_loop) (simp add: Run_loop_def new_service_def)
  have 3: "process_step demo_env wd ?b ?c"
    by (rule process_step.service, rule Service_Run.service_step.deliver [of ?ev]) (simp add: deliver_def new_service_def)
  have "process_runs demo_env wd (new_service s1) ?c"
    by (rule process_runs_step [OF 1 process_runs_step [OF 2 process_runs_step [OF 3 process_runs.here]]])
  from that [OF 0 this] show thesis by (simp add: new_service_def)
qed

theorem credentials_follow_the_secret_witness:
  "\<exists>(wd :: demo_world wired) (t :: demo_world service) x. credentials_of (wd_healthz wd) (sv_sys t) = Some x \<and> adopted demo_credentials x"
proof -
  obtain wd s1 s where 0: "main_setup demo_manager_lib flag_defaults (demo_sys None None) = (Val wd, s1)"
    and run: "process_runs demo_env wd (new_service s1) s"
    and d: "sv_delivered s = [SecretObj demo_secret]" and r: "\<not> sv_cancelled s" "sv_run s = RunReturned"
    by (rule demo_process_run)
  have "storable demo_env (sv_delivered s)" using demo_files_work by (simp add: storable_def)
  from credentials_follow_the_secret [OF 0 _ _ run this] r obtain t where
    "sv_delivered t = sv_delivered s" "up_to_date wd t" by (auto simp: demo_sys_def)
  moreover have "settled [SecretObj demo_secret] = Some demo_credentials"
    by (simp add: settled_def adopt_def demo_secret_parses)
  ultimately have "rel_option adopted (Some demo_credentials) (credentials_of (wd_healthz wd) (sv_sys t))"
    by (simp add: up_to_date_def owners_def d)
  then obtain x where "credentials_of (wd_healthz wd) (sv_sys t) = Some x" "adopted demo_credentials x"
    by (auto simp: option_rel_Some1)
  then show ?thesis by blast
qed

text \<open>A state of the demo process in which all components have been told.\<close>

lemma demo_process_told:
  obtains wd s1 s c where "main_setup demo_manager_lib flag_defaults (demo_sys None None) = (Val wd, s1)"
    and "process_runs demo_env wd (new_service s1) s" and "sv_loop s = Selecting"
    and "\<forall>i \<in> owners wd. credentials_of i (sv_sys s) = Some c" and "serving demo_env wd s"
proof -
  obtain wd s1 s where 0: "main_setup demo_manager_lib flag_defaults (demo_sys None None) = (Val wd, s1)"
    and run: "process_runs demo_env wd (new_service s1) s"
    and d: "sv_delivered s = [SecretObj demo_secret]" and r: "\<not> sv_cancelled s" "sv_run s = RunReturned"
    by (rule demo_process_run)
  have start: "serving demo_env wd (new_service s1)" by (rule serving_start [OF 0]) (simp_all add: demo_sys_def)
  have "loop_ready s" by (rule serving_loop_ready [OF serving_runs [OF run start] r])
  from catch_up [OF this] obtain t where t: "service_runs demo_env s t" "loop_ready t" "backlog t = 0"
    "sv_loop t = Selecting" "sv_delivered t = sv_delivered s" by blast
  have all: "process_runs demo_env wd (new_service s1) t" by (rule process_runs_trans [OF service_process_runs [OF t(1)] run])
  have st: "serving demo_env wd t" by (rule serving_runs [OF all start])
  then have p: "sv_processed t = [SecretObj demo_secret]" using caught_up [OF _ t(2,3)] t(5) d by (simp add: serving_def)
  have "settled [SecretObj demo_secret] = Some demo_credentials" by (simp add: settled_def adopt_def demo_secret_parses)
  moreover have "storable demo_env [SecretObj demo_secret]" using demo_files_work by (simp add: storable_def)
  moreover have "in_step demo_env (sv_processed t) (creds_held (sv_sys t))" using st t(4) by (simp add: serving_def)
  ultimately obtain c where c: "components_hold wd t = replicate 4 (Some c)"
    unfolding p components_hold_caches [OF st] in_step_def by (auto simp: option_rel_Some1)
  then have "\<forall>i \<in> owners wd. credentials_of i (sv_sys t) = Some c"
    by (simp add: components_hold_def owners_def numeral_eq_Suc)
  with that [OF 0 all t(4)] st show thesis by blast
qed

theorem components_updated_in_turn_witness:
  "\<exists>(wd :: demo_world wired) (s :: demo_world service) c. components_hold wd s = replicate 4 (Some c) \<and>
     announced (sv_delivered s) c"
proof -
  obtain wd s1 s c where 0: "main_setup demo_manager_lib flag_defaults (demo_sys None None) = (Val wd, s1)"
    and run: "process_runs demo_env wd (new_service s1) s" and l: "sv_loop s = Selecting"
    and c: "\<forall>i \<in> owners wd. credentials_of i (sv_sys s) = Some c" and s: "serving demo_env wd s"
    by (rule demo_process_told)
  from components_updated_in_turn [OF 0 _ _ run] l obtain new :: "Credentials option" where
    n: "components_hold wd s = replicate 4 new" "\<forall>x. new = Some x \<longrightarrow> announced (sv_delivered s) x"
    by (auto simp: demo_sys_def)
  moreover have "new = Some c" using n(1) c by (simp add: components_hold_def owners_def numeral_eq_Suc)
  ultimately show ?thesis by blast
qed

theorem clients_come_from_delivered_secrets_witness:
  "\<exists>(s :: demo_world service) secret creds. SecretObj secret \<in> set (sv_delivered s) \<and> FromK8sSecret secret = Inr creds"
proof -
  obtain wd s1 s c where 0: "main_setup demo_manager_lib flag_defaults (demo_sys None None) = (Val wd, s1)"
    and run: "process_runs demo_env wd (new_service s1) s" and l: "sv_loop s = Selecting"
    and c: "\<forall>i \<in> owners wd. credentials_of i (sv_sys s) = Some c" and s: "serving demo_env wd s"
    by (rule demo_process_told)
  have w: "wiring wd" using s by (simp add: serving_def)
  have o: "0 \<in> owners wd" using wiring_owners [OF w] by simp
  have x: "0 < length (caches (sv_sys s))" "caches_fresh demo_env (sv_sys s)" "credentials_of 0 (sv_sys s) = Some c"
    "create_func demo_env (caches (sv_sys s) ! 0) = CreateNewOVirtClient demo_env"
    using s c o by (auto simp: serving_def running_def default_funcs_def list_all_length)
  from demo_Get_told [OF x(1,2,3,4)] obtain C y where get: "Get demo_env 0 (sv_sys s) = (Val C, y)" by blast
  from clients_come_from_delivered_secrets [OF 0 _ _ run o get] show ?thesis by (auto simp: demo_sys_def)
qed

end
