(* ===== verification/Client_Lock.thy ===== *)
theory Client_Lock
  imports Client_Service
begin

text \<open>
  The lock of the cached client (\<open>updateLock\<close> in \<open>cachedClient.go\<close>). \<open>Cached_Client\<close> treats
  \<open>Get\<close> and \<open>SetCredentials\<close> as single operations; here every goroutine executes them
  statement by statement, and the goroutines interleave: taking the lock, each read and
  write of a field, each call of the engine, and the deferred unlock are steps of their
  own. A program point carries the local variables of its goroutine.
\<close>

section \<open>Program points\<close>

datatype cache_op = GetOp nat | SetOp nat "Credentials option"

primrec op_cache :: "cache_op \<Rightarrow> nat" where
  "op_cache (GetOp i) = i"
| "op_cache (SetOp i creds) = i"

text \<open>What an operation returns: \<open>SetCredentials\<close> has no result, so no client.\<close>

type_synonym 'w answer = "'w ovirt_client option res"

datatype 'w pc =
    Outside
  | Locking cache_op
  | Setting nat "Credentials option"
  | Checking nat
  | Testing nat "'w ovirt_client"
  | Defaulting cache_op
  | Creating cache_op
  | Storing cache_op "gerr + 'w ovirt_client"
  | Reading nat
  | Unlocking cache_op "'w answer"
  | Finished cache_op "'w answer"

primrec first_pc :: "cache_op \<Rightarrow> 'w pc" where
  "first_pc (GetOp i) = Checking i"
| "first_pc (SetOp i creds) = Setting i creds"

text \<open>The error of \<open>buildClient\<close> is returned by \<open>Get\<close> and dropped by \<open>SetCredentials\<close>.\<close>

primrec build_failed :: "cache_op \<Rightarrow> gerr \<Rightarrow> 'w answer" where
  "build_failed (GetOp i) err = Fail (ErrorString (''failed to create oVirt client: '' @ error_string err))"
| "build_failed (SetOp i creds) err = Val None"

primrec after_build :: "cache_op \<Rightarrow> 'w pc" where
  "after_build (GetOp i) = Reading i"
| "after_build (SetOp i creds) = Unlocking (SetOp i creds) (Val None)"

text \<open>The shared state: the process state, and the goroutine that holds the lock of a cache.\<close>

record 'w shared =
  sh_sys :: "'w sys"
  sh_holder :: "nat \<Rightarrow> nat option"

definition cache_of :: "nat \<Rightarrow> 'w shared \<Rightarrow> 'w cachedOVirtClient" where
  "cache_of i s = caches (sh_sys s) ! i"

definition set_cache ::
  "nat \<Rightarrow> ('w cachedOVirtClient \<Rightarrow> 'w cachedOVirtClient) \<Rightarrow> 'w shared \<Rightarrow> 'w shared" where
  "set_cache i f s = s\<lparr>sh_sys := (sh_sys s)\<lparr>caches := (caches (sh_sys s))[i := f (cache_of i s)]\<rparr>\<rparr>"

section \<open>Steps of a goroutine\<close>

fun thread_step :: "'w environment \<Rightarrow> nat \<Rightarrow> 'w pc \<Rightarrow> 'w shared \<Rightarrow> ('w pc \<times> 'w shared) option" where
  "thread_step E t (Locking op) s =
     (if sh_holder s (op_cache op) = None
      then Some (first_pc op, s\<lparr>sh_holder := (sh_holder s)(op_cache op := Some t)\<rparr>) else None)"
| "thread_step E t (Setting i creds) s =
     Some (Defaulting (SetOp i creds), set_cache i (\<lambda>c. c\<lparr>cc_credentials := creds\<rparr>) s)"
| "thread_step E t (Checking i) s =
     (case cc_client (cache_of i s) of
        None \<Rightarrow> Some (Defaulting (GetOp i), s) | Some cl \<Rightarrow> Some (Testing i cl, s))"
| "thread_step E t (Testing i cl) s =
     (case api TestCall (oc_Test cl) (sh_sys s) of
        (Val x, y) \<Rightarrow> Some (Reading i, s\<lparr>sh_sys := y\<rparr>)
      | (_, y) \<Rightarrow> Some (Defaulting (GetOp i), s\<lparr>sh_sys := y\<rparr>))"
| "thread_step E t (Defaulting op) s =
     Some (Creating op, set_cache (op_cache op) (\<lambda>c. c\<lparr>cc_clientCreateFunc := Some (create_func E c)\<rparr>) s)"
| "thread_step E t (Creating op) s =
     (let c = cache_of (op_cache op) s in
      case api (NewClientCall (cc_credentials c)) (create_func E c (cc_credentials c)) (sh_sys s) of
        (Val cl, y) \<Rightarrow> Some (Storing op (Inr cl), s\<lparr>sh_sys := y\<rparr>)
      | (Fail err, y) \<Rightarrow> Some (Storing op (Inl err), s\<lparr>sh_sys := y\<rparr>)
      | (Crash p, y) \<Rightarrow> Some (Unlocking op (Crash p), s\<lparr>sh_sys := y\<rparr>))"
| "thread_step E t (Storing op r) s =
     (case r of
        Inl err \<Rightarrow> Some (Unlocking op (build_failed op err), set_cache (op_cache op) (\<lambda>c. c\<lparr>cc_client := None\<rparr>) s)
      | Inr cl \<Rightarrow> Some (after_build op, set_cache (op_cache op) (\<lambda>c. c\<lparr>cc_client := Some cl\<rparr>) s))"
| "thread_step E t (Reading i) s =
     (case cc_client (cache_of i s) of
        None \<Rightarrow> Some (Unlocking (GetOp i) (Crash NilDeref), s)
      | Some cl \<Rightarrow> Some (Unlocking (GetOp i) (Val (Some cl)), s))"
| "thread_step E t (Unlocking op r) s =
     Some (Finished op r, s\<lparr>sh_holder := (sh_holder s)(op_cache op := None)\<rparr>)"
| "thread_step E t Outside s = None"
| "thread_step E t (Finished op r) s = None"

text \<open>
  Any goroutine may start an operation on a cached client that exists, and take its next
  step; anything else may happen that touches neither caches nor locks, and new cached
  clients may be made.
\<close>

type_synonym 'w threads = "nat \<Rightarrow> 'w pc"

fun idle :: "'w pc \<Rightarrow> bool" where
  "idle Outside = True"
| "idle (Finished op r) = True"
| "idle _ = False"

inductive lock_step :: "'w environment \<Rightarrow> 'w shared \<times> 'w threads \<Rightarrow> 'w shared \<times> 'w threads \<Rightarrow> bool" for E where
  call: "idle (pcs t) \<Longrightarrow> op_cache op < length (caches (sh_sys s)) \<Longrightarrow>
     lock_step E (s, pcs) (s, pcs(t := Locking op))"
| run: "thread_step E t (pcs t) s = Some (pc, s') \<Longrightarrow> lock_step E (s, pcs) (s', pcs(t := pc))"
| new_cache: "caches y = caches (sh_sys s) @ [NewCachedOVirtClient name] \<Longrightarrow>
     lock_step E (s, pcs) (s\<lparr>sh_sys := y\<rparr>, pcs)"
| other: "caches y = caches (sh_sys s) \<Longrightarrow> lock_step E (s, pcs) (s\<lparr>sh_sys := y\<rparr>, pcs)"

inductive_cases lock_stepE: "lock_step E a b"

inductive lock_reachable :: "'w environment \<Rightarrow> 'w shared \<times> 'w threads \<Rightarrow> bool" for E where
  init: "caches (sh_sys s) = [] \<Longrightarrow> sh_holder s = Map.empty \<Longrightarrow> lock_reachable E (s, \<lambda>t. Outside)"
| step: "lock_reachable E a \<Longrightarrow> lock_step E a b \<Longrightarrow> lock_reachable E b"

section \<open>The invariant\<close>

text \<open>Which lock a program point implies, and what is known of the cache at it.\<close>

fun in_section :: "'w pc \<Rightarrow> nat option" where
  "in_section Outside = None"
| "in_section (Locking op) = None"
| "in_section (Setting i creds) = Some i"
| "in_section (Checking i) = Some i"
| "in_section (Testing i cl) = Some i"
| "in_section (Defaulting op) = Some (op_cache op)"
| "in_section (Creating op) = Some (op_cache op)"
| "in_section (Storing op r) = Some (op_cache op)"
| "in_section (Reading i) = Some i"
| "in_section (Unlocking op r) = Some (op_cache op)"
| "in_section (Finished op r) = None"

definition answer_ok :: "'w environment \<Rightarrow> 'w cachedOVirtClient \<Rightarrow> cache_op \<Rightarrow> 'w answer \<Rightarrow> bool" where
  "answer_ok E c op r \<longleftrightarrow> (case op of
       GetOp i \<Rightarrow> (\<exists>cl. r = Val (Some cl) \<and> cc_client c = Some cl \<and> built_from E c cl) \<or>
         (\<exists>e. r = Fail e \<and> cc_client c = None)
     | SetOp i creds \<Rightarrow> r = Val None \<and> cc_credentials c = creds)"

fun pc_ok :: "'w environment \<Rightarrow> 'w pc \<Rightarrow> 'w cachedOVirtClient \<Rightarrow> bool" where
  "pc_ok E (Checking i) c = cache_fresh E c"
| "pc_ok E (Testing i cl) c = (cache_fresh E c \<and> cc_client c = Some cl)"
| "pc_ok E (Defaulting op) c = (case op of GetOp i \<Rightarrow> cache_fresh E c | SetOp i creds \<Rightarrow> cc_credentials c = creds)"
| "pc_ok E (Creating op) c = (case op of GetOp i \<Rightarrow> cache_fresh E c | SetOp i creds \<Rightarrow> cc_credentials c = creds)"
| "pc_ok E (Storing op r) c = ((case op of GetOp i \<Rightarrow> True | SetOp i creds \<Rightarrow> cc_credentials c = creds) \<and>
     (case r of Inl e \<Rightarrow> True | Inr cl \<Rightarrow> built_from E c cl))"
| "pc_ok E (Reading i) c = (cache_fresh E c \<and> cc_client c \<noteq> None)"
| "pc_ok E (Unlocking op r) c = (cache_fresh E c \<and> answer_ok E c op r)"
| "pc_ok E _ c = True"

fun pc_range :: "nat \<Rightarrow> 'w pc \<Rightarrow> bool" where
  "pc_range n (Locking op) = (op_cache op < n)"
| "pc_range n _ = True"

definition lock_ok :: "'w environment \<Rightarrow> 'w shared \<Rightarrow> 'w threads \<Rightarrow> bool" where
  "lock_ok E s pcs \<longleftrightarrow>
     (\<forall>t i. sh_holder s i = Some t \<longleftrightarrow> in_section (pcs t) = Some i) \<and>
     (\<forall>t i. in_section (pcs t) = Some i \<longrightarrow> i < length (caches (sh_sys s)) \<and> pc_ok E (pcs t) (cache_of i s)) \<and>
     (\<forall>t. pc_range (length (caches (sh_sys s))) (pcs t)) \<and>
     (\<forall>i < length (caches (sh_sys s)). sh_holder s i = None \<longrightarrow> cache_fresh E (cache_of i s))"

lemma cache_of_set_cache:
  "i < length (caches (sh_sys s)) \<Longrightarrow> cache_of j (set_cache i f s) = (if j = i then f (cache_of i s) else cache_of j s)"
  by (simp add: cache_of_def set_cache_def)

lemma set_cache_frame [simp]:
  "length (caches (sh_sys (set_cache i f s))) = length (caches (sh_sys s))"
  "sh_holder (set_cache i f s) = sh_holder s"
  by (simp_all add: set_cache_def)

lemma cache_fresh_simps [simp]:
  "cache_fresh E (c\<lparr>cc_client := None\<rparr>)"
  "cache_fresh E (c\<lparr>cc_client := Some cl\<rparr>) \<longleftrightarrow> built_from E c cl"
  "cache_fresh E (c\<lparr>cc_clientCreateFunc := Some (create_func E c)\<rparr>) \<longleftrightarrow> cache_fresh E c"
  by (simp_all add: cache_fresh_def built_from_def split: option.split)

lemma built_from_client [simp]: "built_from E (c\<lparr>cc_client := x\<rparr>) cl \<longleftrightarrow> built_from E c cl"
  by (simp add: built_from_def)

lemma call_keeps_caches:
  assumes "api c f y = (r, z)"
  shows "caches z = caches y"
  using preservesD [OF preserves_api(2) assms] .

text \<open>What one statement inside the critical section of cache \<open>i\<close> can change.\<close>

lemma section_step_frame:
  assumes "in_section pc = Some i" and "thread_step E t pc s = Some (pc', s')" and "i < length (caches (sh_sys s))"
  shows "length (caches (sh_sys s')) = length (caches (sh_sys s))"
    and "j \<noteq> i \<Longrightarrow> cache_of j s' = cache_of j s" and "j \<noteq> i \<Longrightarrow> sh_holder s' j = sh_holder s j"
proof -
  have "length (caches (sh_sys s')) = length (caches (sh_sys s)) \<and>
      (j \<noteq> i \<longrightarrow> cache_of j s' = cache_of j s \<and> sh_holder s' j = sh_holder s j)" for j
    using assms
    by (cases pc) (auto simp: cache_of_set_cache Let_def cache_of_def [of _ "s\<lparr>sh_sys := _\<rparr>"] dest!: call_keeps_caches
        split: option.splits prod.splits res.splits sum.splits, (simp add: cache_of_def)+)
  then show "length (caches (sh_sys s')) = length (caches (sh_sys s))"
    and "j \<noteq> i \<Longrightarrow> cache_of j s' = cache_of j s" and "j \<noteq> i \<Longrightarrow> sh_holder s' j = sh_holder s j"
    by blast+
qed

text \<open>The statement keeps the section's assertion, or leaves the section with a fresh cache.\<close>

definition section_kept :: "'w environment \<Rightarrow> nat \<Rightarrow> 'w shared \<Rightarrow> 'w pc \<Rightarrow> 'w shared \<Rightarrow> bool" where
  "section_kept E i s pc' s' \<longleftrightarrow>
     (in_section pc' = Some i \<and> sh_holder s' i = sh_holder s i \<and> pc_ok E pc' (cache_of i s')) \<or>
     (idle pc' \<and> sh_holder s' i = None \<and> cache_fresh E (cache_of i s'))"

lemma after_build_ok:
  "op_cache op = i \<Longrightarrow> in_section (after_build op) = Some i"
  by (cases op) simp_all

lemma section_step_ok:
  assumes "in_section pc = Some i" and "thread_step E t pc s = Some (pc', s')"
    and i: "i < length (caches (sh_sys s))" and "pc_ok E pc (cache_of i s)"
  shows "section_kept E i s pc' s'"
proof (cases pc)
  case (Testing j cl)
  then show ?thesis using assms
    by (auto simp: section_kept_def cache_of_def dest: call_keeps_caches split: prod.splits res.splits)
next
  case (Creating op)
  let ?c = "cache_of i s"
  obtain r y where c: "api (NewClientCall (cc_credentials ?c)) (create_func E ?c (cc_credentials ?c)) (sh_sys s) = (r, y)"
    by fastforce
  have k: "cache_of i (s\<lparr>sh_sys := y\<rparr>) = ?c" using call_keeps_caches [OF c] by (simp add: cache_of_def)
  from c show ?thesis
  proof (cases rule: api_cases)
    case (answer cl)
    then have "built_from E ?c cl" by (simp add: built_from_def)
    with Creating assms c k answer(1) show ?thesis
      by (auto simp: section_kept_def split: cache_op.splits)
  next
    case (error e)
    with Creating assms c k show ?thesis
      by (auto simp: section_kept_def split: cache_op.splits)
  qed
next
  case (Storing op r)
  then show ?thesis using assms
    by (cases op; cases r) (auto simp: section_kept_def cache_of_set_cache answer_ok_def)
next
  case (Defaulting op)
  then show ?thesis using assms
    by (cases op) (auto simp: section_kept_def cache_of_set_cache)
next
  case (Reading j)
  then show ?thesis using assms
    by (auto simp: section_kept_def answer_ok_def cache_fresh_def split: option.splits)
next
  case (Unlocking op r)
  then show ?thesis using assms by (auto simp: section_kept_def cache_of_def)
qed (use assms in \<open>auto simp: section_kept_def cache_of_set_cache cache_fresh_def split: option.splits\<close>)

lemma lock_ok_init:
  "caches (sh_sys s) = [] \<Longrightarrow> sh_holder s = Map.empty \<Longrightarrow> lock_ok E s (\<lambda>t. Outside)"
  by (simp add: lock_ok_def)

text \<open>What the invariant says, as rules.\<close>

lemma lock_okD:
  assumes "lock_ok E s pcs"
  shows "sh_holder s i = Some t \<longleftrightarrow> in_section (pcs t) = Some i"
    and "in_section (pcs t) = Some i \<Longrightarrow> i < length (caches (sh_sys s))"
    and "in_section (pcs t) = Some i \<Longrightarrow> pc_ok E (pcs t) (cache_of i s)"
    and "pc_range (length (caches (sh_sys s))) (pcs t)"
    and "i < length (caches (sh_sys s)) \<Longrightarrow> sh_holder s i = None \<Longrightarrow> cache_fresh E (cache_of i s)"
  using assms unfolding lock_ok_def by blast+

lemma in_section_idle: "idle pc \<Longrightarrow> in_section pc = None"
  by (cases pc) simp_all

lemma lock_ok_enter:
  assumes ok: "lock_ok E s pcs" and p: "pcs t = Locking op" and free: "sh_holder s (op_cache op) = None"
  shows "lock_ok E (s\<lparr>sh_holder := (sh_holder s)(op_cache op := Some t)\<rparr>) (pcs(t := first_pc op))"
proof -
  let ?i = "op_cache op"
  have i: "?i < length (caches (sh_sys s))" using lock_okD(4) [OF ok, of t] p by simp
  have f: "cache_fresh E (cache_of ?i s)" by (rule lock_okD(5) [OF ok i free])
  have sec: "in_section (first_pc op) = Some ?i" "pc_ok E (first_pc op) (cache_of ?i s)"
    "pc_range n (first_pc op)" for n using f by (cases op; simp)+
  have none: "in_section (pcs u) \<noteq> Some ?i" for u using lock_okD(1) [OF ok, of ?i u] free by simp
  have c: "cache_of j (s\<lparr>sh_holder := h\<rparr>) = cache_of j s" for j h by (simp add: cache_of_def)
  show ?thesis
    unfolding lock_ok_def using lock_okD [OF ok] sec none i c by (auto simp: p)
qed

lemma lock_ok_section:
  assumes ok: "lock_ok E s pcs" and sec: "in_section (pcs t) = Some i"
    and step: "thread_step E t (pcs t) s = Some (pc', s')"
  shows "lock_ok E s' (pcs(t := pc'))"
proof -
  note i = lock_okD(2) [OF ok sec]
  note fr = section_step_frame [OF sec step i]
  have kept: "section_kept E i s pc' s'" by (rule section_step_ok [OF sec step i lock_okD(3) [OF ok sec]])
  have t: "sh_holder s i = Some t" using lock_okD(1) [OF ok] sec by blast
  have others: "in_section (pcs u) \<noteq> Some i" if "u \<noteq> t" for u using lock_okD(1) [OF ok, of i u] t that by auto
  have rng: "pc_range n pc'" for n using kept by (cases pc') (auto simp: section_kept_def)
  have pc': "in_section pc' = Some i \<and> sh_holder s' i = Some t \<and> pc_ok E pc' (cache_of i s') \<or>
      in_section pc' = None \<and> sh_holder s' i = None \<and> cache_fresh E (cache_of i s')"
    using kept t in_section_idle [of pc'] unfolding section_kept_def by auto
  show ?thesis unfolding lock_ok_def
  proof (intro conjI allI impI)
    fix u j
    show "sh_holder s' j = Some u \<longleftrightarrow> in_section ((pcs(t := pc')) u) = Some j"
      using pc' others [of u] lock_okD(1) [OF ok, of j u] fr(3) [of j] sec by (cases "j = i"; cases "u = t") auto
    show "in_section ((pcs(t := pc')) u) = Some j \<Longrightarrow> j < length (caches (sh_sys s'))"
      using pc' i lock_okD(2) [OF ok, of u j] fr(1) by (auto split: if_splits)
    show "in_section ((pcs(t := pc')) u) = Some j \<Longrightarrow> pc_ok E ((pcs(t := pc')) u) (cache_of j s')"
      using pc' others [of u] lock_okD(3) [OF ok, of u j] fr(2) [of j] by (cases "u = t"; cases "j = i") auto
    show "pc_range (length (caches (sh_sys s'))) ((pcs(t := pc')) u)"
      using rng lock_okD(4) [OF ok, of u] fr(1) by simp
    show "j < length (caches (sh_sys s')) \<Longrightarrow> sh_holder s' j = None \<Longrightarrow> cache_fresh E (cache_of j s')"
      using pc' lock_okD(5) [OF ok, of j] fr by (cases "j = i") auto
  qed
qed

lemma lock_ok_caches:
  assumes ok: "lock_ok E s pcs"
    and y: "caches y = caches (sh_sys s) \<or> caches y = caches (sh_sys s) @ [NewCachedOVirtClient name]"
  shows "lock_ok E (s\<lparr>sh_sys := y\<rparr>) pcs"
proof -
  let ?n = "length (caches (sh_sys s))"
  from y have n: "?n \<le> length (caches y)" by auto
  have old: "cache_of i (s\<lparr>sh_sys := y\<rparr>) = cache_of i s" if "i < ?n" for i
    using y that by (auto simp: cache_of_def nth_append)
  have new: "cache_fresh E (cache_of i (s\<lparr>sh_sys := y\<rparr>))" if "\<not> i < ?n" "i < length (caches y)" for i
    using y that by (auto simp: cache_of_def nth_append cache_fresh_new)
  show ?thesis unfolding lock_ok_def
  proof (intro conjI allI impI)
    fix t i
    show "sh_holder (s\<lparr>sh_sys := y\<rparr>) i = Some t \<longleftrightarrow> in_section (pcs t) = Some i"
      using lock_okD(1) [OF ok] by simp
    assume "in_section (pcs t) = Some i"
    with lock_okD(2,3) [OF ok this] n old
    show "i < length (caches (sh_sys (s\<lparr>sh_sys := y\<rparr>)))" "pc_ok E (pcs t) (cache_of i (s\<lparr>sh_sys := y\<rparr>))"
      by auto
  next
    fix t
    show "pc_range (length (caches (sh_sys (s\<lparr>sh_sys := y\<rparr>)))) (pcs t)"
      using lock_okD(4) [OF ok, of t] n by (cases "pcs t") auto
  next
    fix i
    assume "i < length (caches (sh_sys (s\<lparr>sh_sys := y\<rparr>)))" "sh_holder (s\<lparr>sh_sys := y\<rparr>) i = None"
    then show "cache_fresh E (cache_of i (s\<lparr>sh_sys := y\<rparr>))"
      using lock_okD(5) [OF ok, of i] old [of i] new [of i] by (cases "i < ?n") auto
  qed
qed

lemma lock_ok_step:
  assumes "lock_ok E s pcs" and "lock_step E (s, pcs) (s', pcs')"
  shows "lock_ok E s' pcs'"
  using assms(2)
proof (cases rule: lock_step.cases)
  case (call t op)
  then have "in_section (pcs t) = None" by (simp add: in_section_idle)
  with call lock_okD [OF assms(1)] show ?thesis
    unfolding lock_ok_def by auto
next
  case (run t pc)
  show ?thesis
  proof (cases "in_section (pcs t)")
    case (Some i)
    with run lock_ok_section [OF assms(1) Some] show ?thesis by simp
  next
    case None
    with run obtain op where op: "pcs t = Locking op" by (cases "pcs t") auto
    with run lock_ok_enter [OF assms(1) op] show ?thesis by (simp split: if_splits)
  qed
next
  case (new_cache y name)
  with lock_ok_caches [OF assms(1), of y name] show ?thesis by simp
next
  case (other y)
  with lock_ok_caches [OF assms(1), of y] show ?thesis by simp
qed

lemma lock_reachable_ok: "lock_reachable E a \<Longrightarrow> lock_ok E (fst a) (snd a)"
proof (induction rule: lock_reachable.induct)
  case (init s)
  then show ?case using lock_ok_init by simp
next
  case (step a b)
  then show ?case using lock_ok_step [of E "fst a" "snd a" "fst b" "snd b"] by simp
qed

section \<open>Running alone\<close>

text \<open>At most this many statements are left.\<close>

fun steps_left :: "'w pc \<Rightarrow> nat" where
  "steps_left Outside = 0"
| "steps_left (Finished op r) = 0"
| "steps_left (Unlocking op r) = 1"
| "steps_left (Reading i) = 2"
| "steps_left (Storing op r) = 3"
| "steps_left (Creating op) = 4"
| "steps_left (Defaulting op) = 5"
| "steps_left (Setting i creds) = 6"
| "steps_left (Testing i cl) = 6"
| "steps_left (Checking i) = 7"
| "steps_left (Locking op) = 8"

lemma thread_step_decreases:
  "thread_step E t pc s = Some (pc', s') \<Longrightarrow> steps_left pc' < steps_left pc"
proof (cases pc)
  case (Locking op)
  then show "thread_step E t pc s = Some (pc', s') \<Longrightarrow> ?thesis" by (cases op) (auto split: if_splits)
next
  case (Storing op r)
  then show "thread_step E t pc s = Some (pc', s') \<Longrightarrow> ?thesis" by (cases op) (auto split: sum.splits)
qed (auto simp: Let_def split: option.splits prod.splits res.splits)

function run_thread :: "'w environment \<Rightarrow> nat \<Rightarrow> 'w pc \<Rightarrow> 'w shared \<Rightarrow> 'w pc \<times> 'w shared" where
  "run_thread E t pc s = (case thread_step E t pc s of
       None \<Rightarrow> (pc, s) | Some r \<Rightarrow> run_thread E t (fst r) (snd r))"
  by pat_completeness auto
termination
  by (relation "measure (\<lambda>(E, t, pc, s). steps_left pc)") (auto simp: thread_step_decreases)

declare run_thread.simps [simp del]

lemma run_thread_Some [simp]:
  "thread_step E t pc s = Some (pc', s') \<Longrightarrow> run_thread E t pc s = run_thread E t pc' s'"
  by (subst run_thread.simps) simp

lemma run_thread_Finished [simp]: "run_thread E t (Finished op r) s = (Finished op r, s)"
  by (subst run_thread.simps) simp

text \<open>The answer of an operation as \<open>Cached_Client\<close> has it.\<close>

primrec sequential :: "'w environment \<Rightarrow> cache_op \<Rightarrow> 'w sys \<Rightarrow> 'w answer \<times> 'w sys" where
  "sequential E (GetOp i) y = bind (Get E i) (\<lambda>cl. ret (Some cl)) y"
| "sequential E (SetOp i creds) y = bind (SetCredentials E i creds) (\<lambda>_. ret None) y"

text \<open>The statements of \<open>buildClient\<close>, run to the end.\<close>

lemma run_build:
  assumes i: "op_cache op < length (caches (sh_sys s))"
  obtains (built) y where "buildClient E (op_cache op) (sh_sys s) = (Val (), y)"
      and "run_thread E t (Defaulting op) s = run_thread E t (after_build op) (s\<lparr>sh_sys := y\<rparr>)"
      and "cc_client (caches y ! op_cache op) \<noteq> None" and "length (caches y) = length (caches (sh_sys s))"
    | (failed) err y where
      "buildClient E (op_cache op) (sh_sys s) =
         (Fail (ErrorString (''failed to create oVirt client: '' @ error_string err)), y)"
      and "run_thread E t (Defaulting op) s = run_thread E t (Unlocking op (build_failed op err)) (s\<lparr>sh_sys := y\<rparr>)"
proof -
  let ?i = "op_cache op" let ?c = "cache_of ?i s"
  let ?y1 = "(sh_sys s)\<lparr>caches := (caches (sh_sys s))[?i := ?c\<lparr>cc_clientCreateFunc := Some (create_func E ?c)\<rparr>]\<rparr>"
  have s1: "set_cache ?i (\<lambda>c. c\<lparr>cc_clientCreateFunc := Some (create_func E c)\<rparr>) s = s\<lparr>sh_sys := ?y1\<rparr>"
    by (simp add: set_cache_def)
  have c1: "cache_of ?i (s\<lparr>sh_sys := ?y1\<rparr>) = ?c\<lparr>cc_clientCreateFunc := Some (create_func E ?c)\<rparr>"
    using i by (simp add: cache_of_def)
  obtain r y2 where 1: "api (NewClientCall (cc_credentials ?c)) (create_func E ?c (cc_credentials ?c)) ?y1 = (r, y2)"
    by fastforce
  note k = call_keeps_caches [OF 1]
  note run = run_thread_Some [of E t "Defaulting op" s, simplified, unfolded s1]
  from 1 show thesis
  proof (cases rule: api_cases)
    case (answer cl)
    let ?y = "y2\<lparr>caches := (caches y2)[?i := (caches y2 ! ?i)\<lparr>cc_client := Some cl\<rparr>]\<rparr>"
    have "buildClient E ?i (sh_sys s) = (Val (), ?y)"
      using i 1 answer k by (simp add: buildClient_def read_cache_run cache_of_def)
    moreover have "run_thread E t (Defaulting op) s = run_thread E t (after_build op) (s\<lparr>sh_sys := ?y\<rparr>)"
      using 1 answer k c1 run by (simp add: Let_def set_cache_def cache_of_def)
    ultimately show thesis by (rule built) (use i k in simp_all)
  next
    case (error e)
    let ?y = "y2\<lparr>caches := (caches y2)[?i := (caches y2 ! ?i)\<lparr>cc_client := None\<rparr>]\<rparr>"
    have "buildClient E ?i (sh_sys s) = (Fail (ErrorString (''failed to create oVirt client: '' @ error_string e)), ?y)"
      using i 1 error k by (simp add: buildClient_def read_cache_run cache_of_def)
    moreover have "run_thread E t (Defaulting op) s =
        run_thread E t (Unlocking op (build_failed op e)) (s\<lparr>sh_sys := ?y\<rparr>)"
      using 1 error k c1 run by (simp add: Let_def set_cache_def cache_of_def)
    ultimately show thesis by (rule failed)
  qed
qed

lemma run_unlock:
  assumes "sh_holder s (op_cache op) = None"
  shows "run_thread E t (Unlocking op r) (s\<lparr>sh_holder := (sh_holder s)(op_cache op := Some t), sh_sys := y\<rparr>) =
    (Finished op r, s\<lparr>sh_sys := y\<rparr>)"
proof -
  have "(sh_holder s)(op_cache op := None) = sh_holder s" using assms by auto
  then show ?thesis by simp
qed

lemma run_alone_set:
  assumes i: "i < length (caches (sh_sys s))" and free: "sh_holder s i = None"
  shows "run_thread E t (Locking (SetOp i creds)) s =
    (Finished (SetOp i creds) (Val None), s\<lparr>sh_sys := snd (SetCredentials E i creds (sh_sys s))\<rparr>)"
proof -
  let ?op = "SetOp i creds" let ?h = "(sh_holder s)(i := Some t)"
  let ?y1 = "(sh_sys s)\<lparr>caches := (caches (sh_sys s))[i := (caches (sh_sys s) ! i)\<lparr>cc_credentials := creds\<rparr>]\<rparr>"
  let ?s1 = "s\<lparr>sh_holder := ?h, sh_sys := ?y1\<rparr>"
  have 1: "run_thread E t (Locking ?op) s = run_thread E t (Defaulting ?op) ?s1"
    using free by (simp add: set_cache_def cache_of_def)
  have "op_cache ?op < length (caches (sh_sys ?s1))" using i by simp
  then show ?thesis
  proof (cases rule: run_build [where E = E and t = t])
    case (built y)
    then have "SetCredentials E i creds (sh_sys s) = (Val (), y)"
      using i by (simp add: SetCredentials_def read_cache_run)
    with built(2) 1 run_unlock [of s ?op E t "Val None" y] free show ?thesis by simp
  next
    case (failed err y)
    then have "SetCredentials E i creds (sh_sys s) = (Val (), y)"
      using i by (simp add: SetCredentials_def read_cache_run)
    with failed(2) 1 run_unlock [of s ?op E t "Val None" y] free show ?thesis by simp
  qed
qed

lemma run_read:
  assumes "cc_client (caches y ! i) = Some cl" and "sh_holder s i = None"
  shows "run_thread E t (Reading i) (s\<lparr>sh_holder := (sh_holder s)(i := Some t), sh_sys := y\<rparr>) =
    (Finished (GetOp i) (Val (Some cl)), s\<lparr>sh_sys := y\<rparr>)"
  using assms run_unlock [of s "GetOp i" E t "Val (Some cl)" y] by (simp add: cache_of_def)

text \<open>The part of \<open>Get\<close> that builds a client and reads it.\<close>

lemma run_get_build:
  assumes i: "i < length (caches y)" and free: "sh_holder s i = None"
  shows "run_thread E t (Defaulting (GetOp i)) (s\<lparr>sh_holder := (sh_holder s)(i := Some t), sh_sys := y\<rparr>) =
    (let (r, z) = bind (buildClient E i) (\<lambda>_. bind (read_cache i) (\<lambda>c. bind (deref (cc_client c)) (\<lambda>cl. ret (Some cl)))) y
     in (Finished (GetOp i) r, s\<lparr>sh_sys := z\<rparr>))"
proof -
  let ?s = "s\<lparr>sh_holder := (sh_holder s)(i := Some t), sh_sys := y\<rparr>"
  have "op_cache (GetOp i) < length (caches (sh_sys ?s))" using i by simp
  then show ?thesis
  proof (cases rule: run_build [where E = E and t = t])
    case (built z)
    then obtain cl where "cc_client (caches z ! i) = Some cl" by auto
    with built i run_read [of z i cl s E t] free show ?thesis
      by (simp add: read_cache_run)
  next
    case (failed err z)
    with run_unlock [of s "GetOp i" E t "build_failed (GetOp i) err" z] free show ?thesis by simp
  qed
qed

lemma run_alone_get:
  assumes i: "i < length (caches (sh_sys s))" and free: "sh_holder s i = None"
  shows "run_thread E t (Locking (GetOp i)) s =
    (let (r, y) = sequential E (GetOp i) (sh_sys s) in (Finished (GetOp i) r, s\<lparr>sh_sys := y\<rparr>))"
proof -
  let ?y = "sh_sys s" let ?s1 = "s\<lparr>sh_holder := (sh_holder s)(i := Some t), sh_sys := ?y\<rparr>"
  have 1: "run_thread E t (Locking (GetOp i)) s = run_thread E t (Checking i) ?s1" using free by simp
  show ?thesis
  proof (cases "cc_client (caches ?y ! i)")
    case None
    with 1 run_get_build [OF i free, of E t] i show ?thesis
      by (simp add: cache_of_def Get_def read_cache_run needs_build_def bind_assoc)
  next
    case (Some cl)
    obtain r z where c: "api TestCall (oc_Test cl) ?y = (r, z)" by fastforce
    note k = call_keeps_caches [OF c]
    from 1 Some have 2: "run_thread E t (Locking (GetOp i)) s = run_thread E t (Testing i cl) ?s1"
      by (simp add: cache_of_def)
    from c show ?thesis
    proof (cases rule: api_cases)
      case (answer x)
      with 2 c k Some i run_read [of z i cl s E t] free show ?thesis
        by (simp add: Get_def read_cache_run needs_build_def bind_assoc)
    next
      case (error e)
      with 2 c k Some i run_get_build [of i z s E t] free show ?thesis
        by (simp add: Get_def read_cache_run needs_build_def bind_assoc)
    qed
  qed
qed

section \<open>Properties\<close>

text \<open>C10: when every statement of every goroutine interleaves freely, at most one goroutine is
  inside the critical section of a cached client, a cached client nobody is inside of never
  holds a client built from other credentials than its own, and an operation about to
  return has the answer it promises: \<open>Get\<close> the client just made from the current
  credentials or an error with no client left, \<open>SetCredentials\<close> its credentials in place.\<close>

theorem interleaved_caches_never_stale:
  assumes "lock_reachable E (s, pcs)"
  shows "(\<forall>t u i. in_section (pcs t) = Some i \<and> in_section (pcs u) = Some i \<longrightarrow> t = u) \<and>
    (\<forall>i < length (caches (sh_sys s)). (\<forall>t. in_section (pcs t) \<noteq> Some i) \<longrightarrow> cache_fresh E (cache_of i s)) \<and>
    (\<forall>t op r. pcs t = Unlocking op r \<longrightarrow> answer_ok E (cache_of (op_cache op) s) op r)"
proof -
  from lock_reachable_ok [OF assms] have ok: "lock_ok E s pcs" by simp
  have "t = u" if "in_section (pcs t) = Some i" "in_section (pcs u) = Some i" for t u i
    using that lock_okD(1) [OF ok, of i t] lock_okD(1) [OF ok, of i u] by simp
  moreover have "cache_fresh E (cache_of i s)"
    if "i < length (caches (sh_sys s))" "\<forall>t. in_section (pcs t) \<noteq> Some i" for i
    using that lock_okD(1) [OF ok, of i] lock_okD(5) [OF ok] by (metis not_None_eq)
  moreover have "answer_ok E (cache_of (op_cache op) s) op r" if "pcs t = Unlocking op r" for t op r
    using lock_okD(3) [OF ok, of t "op_cache op"] that by simp
  ultimately show ?thesis by blast
qed

text \<open>C14: executed statement by statement without interference, from taking the lock to releasing
  it, an operation ends with the answer and in the state of the single operation the rest
  of the model uses, and the lock is free again.\<close>

theorem statements_refine_operations:
  assumes "op_cache op < length (caches (sh_sys s))" and "sh_holder s (op_cache op) = None"
  shows "run_thread E t (Locking op) s =
    (Finished op (fst (sequential E op (sh_sys s))), s\<lparr>sh_sys := snd (sequential E op (sh_sys s))\<rparr>)"
proof (cases op)
  case (GetOp i)
  with assms run_alone_get [of i s E t] show ?thesis by (simp del: sequential.simps split: prod.splits)
next
  case (SetOp i creds)
  with assms have i: "i < length (caches (sh_sys s))" "sh_holder s i = None" by simp_all
  obtain r y where "SetCredentials E i creds (sh_sys s) = (r, y)" by fastforce
  moreover from SetCredentials_updates [OF i(1) this] have "r = Val ()" by simp
  ultimately show ?thesis using SetOp run_alone_set [OF i] by simp
qed

text \<open>C20: the lock cannot deadlock and no operation runs on for ever: a goroutine inside an
  operation can always take a step, one that waits for the lock can, or the holder of that
  lock can, and every step of a goroutine brings its operation closer to its end, which it
  reaches after at most eight statements.\<close>

theorem lock_operations_terminate:
  assumes "lock_reachable E (s, pcs)"
  shows "(\<forall>t. in_section (pcs t) \<noteq> None \<longrightarrow> thread_step E t (pcs t) s \<noteq> None) \<and>
    (\<forall>t op. pcs t = Locking op \<longrightarrow> thread_step E t (pcs t) s \<noteq> None \<or>
       (\<exists>u. sh_holder s (op_cache op) = Some u \<and> thread_step E u (pcs u) s \<noteq> None)) \<and>
    (\<forall>t pc s'. thread_step E t (pcs t) s = Some (pc, s') \<longrightarrow>
       steps_left pc < steps_left (pcs t) \<and> steps_left (pcs t) \<le> 8)"
proof -
  from lock_reachable_ok [OF assms] have ok: "lock_ok E s pcs" by simp
  have inside: "thread_step E u (pcs u) s \<noteq> None" if "in_section (pcs u) \<noteq> None" for u
    using that by (cases "pcs u") (auto simp: Let_def split: option.splits prod.splits res.splits sum.splits)
  moreover have "thread_step E t (pcs t) s \<noteq> None \<or>
       (\<exists>u. sh_holder s (op_cache op) = Some u \<and> thread_step E u (pcs u) s \<noteq> None)"
    if "pcs t = Locking op" for t op
  proof (cases "sh_holder s (op_cache op)")
    case (Some u)
    then have "in_section (pcs u) = Some (op_cache op)" using lock_okD(1) [OF ok] by blast
    with inside [of u] Some show ?thesis by simp
  qed (simp add: that)
  moreover have "steps_left pc \<le> 8" for pc :: "'a pc" by (cases pc) simp_all
  ultimately show ?thesis using thread_step_decreases by blast
qed

section \<open>An example\<close>

text \<open>One cached client, and goroutine 0 about to ask it for a client.\<close>

definition demo_shared :: "demo_world shared" where
  "demo_shared = \<lparr>sh_sys = (demo_sys None None)\<lparr>caches := [NewCachedOVirtClient ''node'']\<rparr>, sh_holder = Map.empty\<rparr>"

definition demo_inside :: "demo_world shared \<times> demo_world threads" where
  "demo_inside = (demo_shared\<lparr>sh_holder := Map.empty(0 := Some 0)\<rparr>, (\<lambda>t. Outside)(0 := Checking 0))"

lemma demo_lock_reachable: "lock_reachable demo_env demo_inside"
proof -
  let ?s0 = "\<lparr>sh_sys = demo_sys None None, sh_holder = Map.empty\<rparr> :: demo_world shared"
  let ?out = "(\<lambda>t. Outside) :: demo_world threads"
  have "lock_reachable demo_env (?s0, ?out)" by (rule lock_reachable.init) (simp_all add: demo_sys_def)
  moreover have "lock_step demo_env (?s0, ?out) (demo_shared, ?out)"
    using lock_step.new_cache [of "(demo_sys None None)\<lparr>caches := [NewCachedOVirtClient ''node'']\<rparr>" ?s0
        "''node''" demo_env ?out]
    by (simp add: demo_shared_def demo_sys_def)
  moreover have "lock_step demo_env (demo_shared, ?out) (demo_shared, ?out(0 := Locking (GetOp 0)))"
    by (rule lock_step.call) (simp_all add: demo_shared_def)
  moreover have "lock_step demo_env (demo_shared, ?out(0 := Locking (GetOp 0))) demo_inside"
    using lock_step.run [of demo_env 0 "?out(0 := Locking (GetOp 0))" demo_shared "Checking 0"
        "demo_shared\<lparr>sh_holder := Map.empty(0 := Some 0)\<rparr>"]
    by (simp add: demo_inside_def demo_shared_def)
  ultimately show ?thesis by (blast intro: lock_reachable.step)
qed

lemma demo_lock_pair: "lock_reachable demo_env (fst demo_inside, snd demo_inside)"
  using demo_lock_reachable by simp

lemma demo_in_section: "in_section (snd demo_inside 0) = Some 0"
  by (simp add: demo_inside_def)

theorem interleaved_caches_never_stale_witness:
  "{t. in_section (snd demo_inside t) = Some 0} = {0}"
  using interleaved_caches_never_stale [OF demo_lock_pair] demo_in_section by blast

theorem statements_refine_operations_witness:
  "run_thread demo_env 0 (Locking (GetOp 0)) demo_shared =
    (Finished (GetOp 0) (fst (sequential demo_env (GetOp 0) (sh_sys demo_shared))),
     demo_shared\<lparr>sh_sys := snd (sequential demo_env (GetOp 0) (sh_sys demo_shared))\<rparr>)"
  by (rule statements_refine_operations) (simp_all add: demo_shared_def)

theorem lock_operations_terminate_witness:
  "thread_step demo_env 0 (snd demo_inside 0) (fst demo_inside) \<noteq> None"
  using lock_operations_terminate [OF demo_lock_pair] demo_in_section by (metis option.simps(3))

end
