(* ===== verification/Machine_Controller_Correct.thy ===== *)
theory Machine_Controller_Correct
  imports Machine_Controller
begin

text \<open>
  What the machine controller and the actuator together guarantee of a Machine's VM: the
  finalizer, which keeps the API server from forgetting the Machine, goes only after the
  engine said the VM is gone; the engine is changed for a Machine only when it has no VM; and
  a failure that looks like an invalid configuration ends the reconciliation of the Machine
  for good. The first rests on an invariant, \<open>finalized\<close>, kept by every operation of the
  actuator; the others on what each branch of \<open>Reconcile\<close> can call.
\<close>

section \<open>The writes\<close>

lemma or_return_run:
  "m s = (Val x, s') \<Longrightarrow> or_return m k s = k x s'"
  "m s = (Fail e, s') \<Longrightarrow> or_return m k s = (Val (ResultNoRequeue, Some e), s')"
  by (simp_all add: or_return_def)

lemma emits_or_return [emits_intros]:
  "emits A m \<Longrightarrow> (\<And>x. emits A (k x)) \<Longrightarrow> emits A (or_return m k)"
  unfolding or_return_def by (intro emits_intros)

lemma emits_updateStatus [emits_intros]:
  assumes "\<And>b m. A (PatchMachineCall b m)" and "\<And>b m. A (PatchMachineStatusCall b m)"
  shows "emits A (updateStatus r phase cause)"
  unfolding updateStatus_def patchFailedMachineInstanceAnnotation_def patch_base_def patch_status_def
    overrideFailedMachineProviderStatusState_def Let_def split_beta
  by (intro emits_intros assms)

lemma emits_keep_phase [emits_intros]:
  assumes "\<And>b m. A (PatchMachineCall b m)" and "\<And>b m. A (PatchMachineStatusCall b m)"
  shows "emits A (keep_phase r)"
  unfolding keep_phase_def by (intro emits_intros assms)

lemma emits_update_machine [emits_intros]:
  "(\<And>m. A (UpdateMachineCall m)) \<Longrightarrow> emits A (update_machine r)"
  unfolding update_machine_def by (intro emits_intros)

lemma emits_deleteNode [emits_intros]:
  assumes "\<And>n. A (GetNodeCall n)" and "\<And>n. A (DeleteNodeCall n)" shows "emits A (deleteNode r n)"
  unfolding deleteNode_def by (intro emits_intros assms)

section \<open>What the answer of Exists says\<close>

text \<open>
  The engine says that the Machine has no VM: the client the cache gives answers the lookup of
  the Machine's name with the error \<open>ENotFound\<close>.
\<close>

definition vm_absent :: "'w environment \<Rightarrow> 'w OvirtActuator \<Rightarrow> 'w sys \<Rightarrow> 'w sys \<Rightarrow> bool" where
  "vm_absent E act s s' \<longleftrightarrow> (\<exists>C u v e. Get E (act_cachedOVirtClient act) s = (Val C, u) \<and>
     GetVMByName C (mc_Name (machine s)) u = (Val (v, Some e), s') \<and> HasErrorCode e ENotFound = Val True)"

lemma Exists_False:
  assumes "Exists E act s = (Val False, s')"
  shows "vm_absent E act s s'" and "machine s' = machine s"
    and "\<exists>new. calls s' = calls s @ new @ [(GetVMByNameCall (mc_Name (machine s)), False)]"
proof -
  from assms obtain C s1 where 1: "Get E (act_cachedOVirtClient act) s = (Val C, s1)"
    and 2: "vm_exists \<lparr>ms_ovirtClient = C, ms_client = act_client act, ms_original = machine s1, ms_providerSpec = None\<rparr> s1
      = (Val False, s')"
    by (auto simp: Exists_def newMachineScope_def elim!: bind_ValE)
  from emitsD [OF emits_Get 1] obtain new where new: "calls s1 = calls s @ new" by blast
  have m: "machine s1 = machine s" using preservesD [OF preserves_cache_ops(1) 1] .
  obtain v err w' where q: "oc_GetVMByName C (mc_Name (machine s)) (world s1) = ((v, err), w')" by (metis prod.exhaust)
  from 2 m q obtain e where e: "err = Some e" "HasErrorCode e ENotFound = Val True"
    and s': "s' = s1\<lparr>world := w', calls := calls s1 @ [(GetVMByNameCall (mc_Name (machine s)), False)]\<rparr>"
    by (auto simp: vm_exists_def split: option.splits if_splits res.splits elim!: bind_ValE)
  with q have "GetVMByName C (mc_Name (machine s)) s1 = (Val (v, Some e), s')" by (simp add: GetVMByName_def)
  with 1 e(2) show "vm_absent E act s s'" unfolding vm_absent_def by blast
  show "machine s' = machine s" by (simp add: s' m)
  show "\<exists>new. calls s' = calls s @ new @ [(GetVMByNameCall (mc_Name (machine s)), False)]" by (simp add: s' new)
qed

section \<open>The finalizer\<close>

text \<open>
  \<open>delivers P Q m\<close>: however \<open>m\<close> ends, a state with \<open>P\<close> becomes one, and a value it returns
  satisfies \<open>Q\<close>. It is used with the state that has the finalizer and has sent no Machine
  without it.
\<close>

definition delivers :: "('w sys \<Rightarrow> bool) \<Rightarrow> ('a \<Rightarrow> bool) \<Rightarrow> ('w sys, 'a) go \<Rightarrow> bool" where
  "delivers P Q m \<longleftrightarrow> (\<forall>s r s'. P s \<longrightarrow> m s = (r, s') \<longrightarrow> P s' \<and> (\<forall>x. r = Val x \<longrightarrow> Q x))"

lemma deliversD: "delivers P Q m \<Longrightarrow> P s \<Longrightarrow> m s = (r, s') \<Longrightarrow> P s' \<and> (\<forall>x. r = Val x \<longrightarrow> Q x)"
  unfolding delivers_def by blast

lemma delivers_keeps: "delivers P Q m \<Longrightarrow> keeps P m"
  unfolding delivers_def keeps_def by blast

lemma keeps_delivers: "keeps P m \<Longrightarrow> delivers P (\<lambda>_. True) m"
  unfolding delivers_def keeps_def by blast

lemma delivers_bind:
  assumes "delivers P Q m" and "\<And>x. Q x \<Longrightarrow> delivers P R (k x)" shows "delivers P R (bind m k)"
  unfolding delivers_def
proof (intro allI impI)
  fix s r s' assume s: "P s" and "bind m k s = (r, s')"
  from this(2) show "P s' \<and> (\<forall>x. r = Val x \<longrightarrow> R x)"
  proof (cases rule: bind_cases)
    case (Val x t)
    from deliversD [OF assms(1) s Val(1)] deliversD [OF assms(2) _ Val(2)] show ?thesis by blast
  qed (use deliversD [OF assms(1) s] in auto)
qed

lemma delivers_annotate: "delivers P Q m \<Longrightarrow> delivers P Q (annotate msg m)"
  unfolding delivers_def annotate_def map_err_def by (fastforce split: prod.splits res.splits)

definition keeps_finalizer :: "api_call \<times> bool \<Rightarrow> bool" where
  "keeps_finalizer e \<longleftrightarrow> (case fst e of UpdateMachineCall m \<Rightarrow> MachineFinalizer \<in> set (mc_Finalizers m) | _ \<Rightarrow> True)"

definition has_finalizer :: "Machine \<Rightarrow> bool" where
  "has_finalizer m \<longleftrightarrow> MachineFinalizer \<in> set (mc_Finalizers m)"

definition finalized :: "(api_call \<times> bool) list \<Rightarrow> 'w sys \<Rightarrow> bool" where
  "finalized old s \<longleftrightarrow> has_finalizer (machine s) \<and> (\<exists>new. calls s = old @ new \<and> list_all keeps_finalizer new)"

text \<open>The API server gives back no Machine without a finalizer it was sent with.\<close>

definition server_keeps_finalizer :: "'w k8s_client \<Rightarrow> bool" where
  "server_keeps_finalizer k \<longleftrightarrow>
     (\<forall>m m'. has_finalizer m \<longrightarrow> answers (kc_UpdateMachine k m) m' \<longrightarrow> has_finalizer m') \<and>
     (\<forall>b m m'. has_finalizer m \<longrightarrow> answers (kc_PatchMachine k b m) m' \<longrightarrow> has_finalizer m') \<and>
     (\<forall>b m m'. has_finalizer m \<longrightarrow> answers (kc_PatchMachineStatus k b m) m' \<longrightarrow> has_finalizer m')"

lemma server_keepsD:
  "server_keeps_finalizer k \<Longrightarrow> has_finalizer m \<Longrightarrow> answers (kc_UpdateMachine k m) m' \<Longrightarrow> has_finalizer m'"
  "server_keeps_finalizer k \<Longrightarrow> has_finalizer m \<Longrightarrow> answers (kc_PatchMachine k b m) m' \<Longrightarrow> has_finalizer m'"
  "server_keeps_finalizer k \<Longrightarrow> has_finalizer m \<Longrightarrow> answers (kc_PatchMachineStatus k b m) m' \<Longrightarrow> has_finalizer m'"
  unfolding server_keeps_finalizer_def by blast+

lemma keeps_finalized_quiet:
  assumes "preserves machine m" and "emits (\<lambda>c. \<forall>x. c \<noteq> UpdateMachineCall x) m" shows "keeps (finalized old) m"
  unfolding keeps_def
proof (intro allI impI)
  fix s r s' assume s: "finalized old s" and run: "m s = (r, s')"
  from emitsD [OF assms(2) run] obtain new where new: "calls s' = calls s @ new"
    "\<forall>e \<in> set new. \<forall>x. fst e \<noteq> UpdateMachineCall x" by blast
  then have "list_all keeps_finalizer new"
    by (auto simp: list_all_iff keeps_finalizer_def split: api_call.split)
  with s new(1) preservesD [OF assms(1) run] show "finalized old s'" by (auto simp: finalized_def)
qed

lemma delivers_machine: "delivers (finalized old) has_finalizer (gets machine)"
  by (simp add: delivers_def finalized_def)

lemma keeps_finalized_set_machine:
  "(\<And>m. has_finalizer m \<Longrightarrow> has_finalizer (f m)) \<Longrightarrow> keeps (finalized old) (set_machine f)"
  by (auto simp: keeps_def finalized_def set_machine_def)

lemma delivers_api:
  assumes "\<And>ok. keeps_finalizer (c, ok)" shows "delivers (finalized old) (answers f) (api c f)"
  unfolding delivers_def
proof (intro allI impI)
  fix s r s' assume s: "finalized old s" and run: "api c f s = (r, s')"
  have "machine s' = machine s" using preservesD [OF preserves_api(1) run] .
  with s run assms show "finalized old s' \<and> (\<forall>x. r = Val x \<longrightarrow> answers f x)"
    by (cases rule: api_cases [OF run]) (auto simp: finalized_def)
qed


lemma keeps_write:
  assumes "\<And>m ok. has_finalizer m \<Longrightarrow> keeps_finalizer (c m, ok)"
    and "\<And>m m'. has_finalizer m \<Longrightarrow> answers (f m) m' \<Longrightarrow> has_finalizer (g m m')"
  shows "keeps (finalized old) (bind (gets machine) (\<lambda>m. bind (api (c m) (f m)) (\<lambda>m'. set_machine (\<lambda>_. g m m'))))"
  by (rule delivers_keeps, rule delivers_bind [OF delivers_machine], rule delivers_bind [OF delivers_api])
     (auto intro: keeps_delivers keeps_finalized_set_machine assms)

lemma keeps_finalizer_simps [simp]:
  "keeps_finalizer (UpdateMachineCall m, ok) \<longleftrightarrow> has_finalizer m"
  "keeps_finalizer (PatchMachineCall b m, ok)" "keeps_finalizer (PatchMachineStatusCall b m, ok)"
  by (simp_all add: keeps_finalizer_def has_finalizer_def)

lemma has_finalizer_simps [simp]:
  "has_finalizer (m\<lparr>mc_Status := st\<rparr>) = has_finalizer m"
  "has_finalizer (m\<lparr>mc_Annotations := a\<rparr>) = has_finalizer m"
  "has_finalizer (m\<lparr>mc_ProviderID := p\<rparr>) = has_finalizer m"
  by (simp_all add: has_finalizer_def)

lemma keeps_finalized_writes:
  assumes "server_keeps_finalizer (rm_Client r)"
  shows "keeps (finalized old) (update_machine r)" and "keeps (finalized old) (patch_base r b)"
    and "keeps (finalized old) (patch_status r b)"
proof -
  show "keeps (finalized old) (update_machine r)" unfolding update_machine_def
    by (rule keeps_write [where g = "\<lambda>m m'. m'"]) (simp, rule server_keepsD(1) [OF assms])
  show "keeps (finalized old) (patch_base r b)" unfolding patch_base_def
    by (rule keeps_write [where g = "\<lambda>m m'. m'"]) (simp, rule server_keepsD(2) [OF assms])
  show "keeps (finalized old) (patch_status r b)" unfolding patch_status_def
    by (rule keeps_write [where g = "\<lambda>m m'. m'"]) (simp, rule server_keepsD(3) [OF assms])
qed

lemma keeps_finalized_updateStatus:
  assumes "server_keeps_finalizer (rm_Client r)" shows "keeps (finalized old) (updateStatus r phase cause)"
  unfolding updateStatus_def patchFailedMachineInstanceAnnotation_def overrideFailedMachineProviderStatusState_def
    Let_def split_beta
  by (intro keeps_intros keeps_finalized_set_machine keeps_finalized_writes assms) simp_all

lemma keeps_finalized_keep_phase:
  assumes "server_keeps_finalizer (rm_Client r)" shows "keeps (finalized old) (keep_phase r)"
  unfolding keep_phase_def by (intro keeps_intros keeps_finalized_updateStatus assms)

text \<open>The actuator.\<close>

lemma keeps_finalized_Eventf: "keeps (finalized old) (Eventf t reason msg)"
  by (rule keeps_finalized_quiet) (auto simp: Eventf_def intro!: preserves_intros emits_intros)

lemma keeps_finalized_handleMachineError:
  assumes "act_client act = Some k" and "server_keeps_finalizer k"
  shows "keeps (finalized old) (handleMachineError act reason r msg)"
proof -
  have "keeps (finalized old) (bind (gets machine) (\<lambda>m. bind (annotate ''unable to update machine status''
      (api (UpdateMachineCall m) (kc_UpdateMachine k m))) (\<lambda>m'. set_machine (\<lambda>_. m'))))"
  proof (rule delivers_keeps, rule delivers_bind [OF delivers_machine], rule delivers_bind [OF delivers_annotate [OF delivers_api]])
    fix m m' assume m: "has_finalizer m" and "answers (kc_UpdateMachine k m) m'"
    with assms(2) have "has_finalizer m'" by (rule server_keepsD(1))
    then show "delivers (finalized old) (\<lambda>_. True) (set_machine (\<lambda>_. m'))"
      by (intro keeps_delivers keeps_finalized_set_machine)
  qed simp
  then show ?thesis
    unfolding handleMachineError_def assms(1) option.case
    by (intro keeps_bind [OF keeps_finalized_Eventf] keeps_bind [OF keeps_bind [OF keeps_finalized_set_machine]]
        keeps_fail) simp_all
qed


lemma keeps_finalized_reads:
  "keeps (finalized old) (Get E i)" "keeps (finalized old) (provider_spec E)"
  "keeps (finalized old) (newMachineScope C k sp)" "keeps (finalized old) (vm_exists ms)"
  "keeps (finalized old) (delete ms)" "keeps (finalized old) (validateMachine C sp)"
  "keeps (finalized old) (create ms)"
proof -
  show "keeps (finalized old) (Get E i)"
    by (intro keeps_finalized_quiet preserves_intros emits_mono [OF emits_Get]) (auto simp: upkeep_def)
  show "keeps (finalized old) (provider_spec E)" and "keeps (finalized old) (newMachineScope C k sp)"
    and "keeps (finalized old) (vm_exists ms)" and "keeps (finalized old) (delete ms)"
    unfolding newMachineScope_def vm_exists_def delete_def delete_found_def split_beta
    by (intro keeps_finalized_quiet preserves_intros emits_intros; simp)+
  show "keeps (finalized old) (validateMachine C sp)"
    by (intro keeps_finalized_quiet preserves_intros emits_mono [OF emits_validateMachine]) simp
  have "emits (\<lambda>c. \<forall>x. c \<noteq> UpdateMachineCall x) (build_request C ig n p)" for C :: "'c ovirt_client" and ig n p
    by (rule emits_mono [OF emits_build_request]) auto
  moreover have "emits (\<lambda>c. \<forall>x. c \<noteq> UpdateMachineCall x) (configure_and_start C p v)" for C :: "'c ovirt_client" and p v
    unfolding configure_and_start_def remove_graphics_consoles_def extend_os_disk_def
      reattach_nics_def create_nic_def optimize_pinning_def tag_vm_def join_affinity_group_def
      start_vm_def split_beta
    by (auto intro!: emits_intros split: flow.split)
  ultimately have "emits (\<lambda>c. \<forall>x. c \<noteq> UpdateMachineCall x) (create ms)" for ms :: "'c machineScope"
    unfolding create_def create_vm_def getIgnition_def split_beta by (auto intro!: emits_intros)
  then show "keeps (finalized old) (create ms)" by (intro keeps_finalized_quiet preserves_intros)
qed

lemma keeps_finalized_reconcileMachine: "keeps (finalized old) (reconcileMachine E ms)"
proof -
  have net: "keeps (finalized old) (getClusterAddress ms)" "keeps (finalized old) (findUsableInternalAddress order ms i as)" for order i as
    unfolding getClusterAddress_def findUsableInternalAddress_def Let_def
    by (intro keeps_finalized_quiet preserves_intros emits_intros; simp)+
  show ?thesis
    unfolding reconcileMachine_def reconcileMachineProviderID_def reconcileMachineAnnotations_def
      reconcileMachineNetwork_def reconcileMachineProviderStatus_def split_beta Let_def
    by (intro keeps_intros keeps_finalized_set_machine net keeps_finalized_quiet [of "GetVMByName C n" for C n]
        keeps_finalized_quiet [of "deref p" for p] preserves_intros emits_intros) simp_all
qed


lemma keeps_finalized_patchMachine:
  assumes "ms_client ms = Some k" and "server_keeps_finalizer k" shows "keeps (finalized old) (patchMachine ms)"
  unfolding patchMachine_def Let_def assms(1) deref_simps bind_ret
proof -
  have set: "delivers (finalized old) (\<lambda>_. True) (set_machine (\<lambda>_. m))" if "has_finalizer m" for m
    using that by (intro keeps_delivers keeps_finalized_set_machine)
  show "keeps (finalized old) (bind (gets machine) (\<lambda>m.
     bind (api (PatchMachineCall (ms_original ms) m) (kc_PatchMachine k (ms_original ms) m)) (\<lambda>m1.
     bind (set_machine (\<lambda>_. m1\<lparr>mc_Status := mc_Status m\<rparr>)) (\<lambda>_.
     bind (gets machine) (\<lambda>m2.
     bind (api (PatchMachineStatusCall (ms_original ms) m2) (kc_PatchMachineStatus k (ms_original ms) m2)) (\<lambda>m3.
     set_machine (\<lambda>_. m3)))))))"
    by (rule delivers_keeps, rule delivers_bind [OF delivers_machine], rule delivers_bind [OF delivers_api], simp,
        rule delivers_bind [OF set], simp add: server_keepsD(2) [OF assms(2)],
        rule delivers_bind [OF delivers_machine], rule delivers_bind [OF delivers_api], simp,
        rule set, rule server_keepsD(3) [OF assms(2)])
qed

lemma keeps_finalized_on_error:
  assumes "act_client act = Some k" and "server_keeps_finalizer k" and "keeps (finalized old) m"
  shows "keeps (finalized old) (on_error act reason r prefix m)"
  unfolding on_error_def
  by (intro keeps_intros keeps_finalized_handleMachineError [OF assms(1,2)] assms(3))

lemma delivers_newMachineScope:
  "delivers (finalized old) (\<lambda>ms. ms_client ms = k) (newMachineScope C k sp)"
  unfolding newMachineScope_def by (simp add: delivers_def)

lemma keeps_bind_scope:
  "(\<And>ms. ms_client ms = k \<Longrightarrow> keeps (finalized old) (f ms)) \<Longrightarrow>
     keeps (finalized old) (bind (newMachineScope C k sp) f)"
  by (rule delivers_keeps, rule delivers_bind [OF delivers_newMachineScope]) (rule keeps_delivers)

text \<open>The four operations of an actuator whose client is a server that keeps finalizers.\<close>

lemma keeps_finalized_actuator:
  assumes act: "act_client act = Some k" "server_keeps_finalizer k"
  shows "keeps (finalized old) (Create E act)" and "keeps (finalized old) (Update E act)"
    and "keeps (finalized old) (Exists E act)" and "keeps (finalized old) (Delete E act)"
proof -
  note on = keeps_finalized_on_error [OF act]
  have patch: "keeps (finalized old) (patchMachine ms)" if "ms_client ms = act_client act" for ms
    using that act by (intro keeps_finalized_patchMachine [of _ k]) simp_all
  note intros = keeps_bind_scope keeps_bind on keeps_finalized_reads keeps_finalized_reconcileMachine patch
    keeps_finalized_Eventf keeps_gets
  show "keeps (finalized old) (Create E act)"
    unfolding Create_def create_with_client_def by (intro intros)
  show "keeps (finalized old) (Update E act)" unfolding Update_def by (intro intros)
  show "keeps (finalized old) (Exists E act)" unfolding Exists_def by (intro intros)
  show "keeps (finalized old) (Delete E act)" unfolding Delete_def by (intro intros)
qed


section \<open>When the finalizer may go\<close>

definition log_ok :: "(api_call \<times> bool) list \<Rightarrow> 'w sys \<Rightarrow> bool" where
  "log_ok old s \<longleftrightarrow> (\<exists>new. calls s = old @ new \<and> list_all keeps_finalizer new)"

text \<open>The part of \<open>await_gone\<close> after \<open>Exists\<close> said no.\<close>

definition remove_finalizer :: "'w machine_reconciler \<Rightarrow> 'w reconcile" where
  "remove_finalizer r = bind (gets machine) (\<lambda>m.
     or_return (case mst_NodeRef (mc_Status m) of None \<Rightarrow> ret () | Some n \<Rightarrow> deleteNode r n) (\<lambda>_.
     bind (set_machine (\<lambda>m. m\<lparr>mc_Finalizers := filter (\<lambda>f. f \<noteq> MachineFinalizer) (mc_Finalizers m)\<rparr>)) (\<lambda>_.
     or_return (update_machine r) (\<lambda>_. ret (ResultNoRequeue, None)))))"

lemma await_gone_split:
  "await_gone E r = or_return (Exists E (rm_actuator r))
     (\<lambda>instanceExists. if instanceExists then ret (requeueAfter, None) else remove_finalizer r)"
  unfolding await_gone_def remove_finalizer_def ..

definition vm_gone ::
  "'w environment \<Rightarrow> 'w machine_reconciler \<Rightarrow> (api_call \<times> bool) list \<Rightarrow> (Result \<times> gerr option) res \<Rightarrow> 'w sys \<Rightarrow> bool" where
  "vm_gone E r old res s' \<longleftrightarrow> (\<exists>t t1. finalized old t \<and> Exists E (rm_actuator r) t = (Val False, t1) \<and>
     remove_finalizer r t1 = (res, s'))"

definition guarded ::
  "'w environment \<Rightarrow> 'w machine_reconciler \<Rightarrow> (api_call \<times> bool) list \<Rightarrow> 'w reconcile \<Rightarrow> bool" where
  "guarded E r old m \<longleftrightarrow> (\<forall>s res s'. finalized old s \<longrightarrow> m s = (res, s') \<longrightarrow> log_ok old s' \<or> vm_gone E r old res s')"

lemma finalized_log: "finalized old s \<Longrightarrow> log_ok old s"
  by (auto simp: finalized_def log_ok_def)

lemma guarded_keeps: "keeps (finalized old) m \<Longrightarrow> guarded E r old m"
  unfolding guarded_def by (blast dest: keepsD finalized_log)

lemma guarded_bind:
  assumes "keeps (finalized old) m" and "\<And>x. guarded E r old (k x)" shows "guarded E r old (bind m k)"
  unfolding guarded_def
proof (intro allI impI)
  fix s res s' assume s: "finalized old s" and "bind m k s = (res, s')"
  from this(2) show "log_ok old s' \<or> vm_gone E r old res s'"
  proof (cases rule: bind_cases)
    case (Val x t)
    with assms(2) keepsD [OF assms(1) s Val(1)] show ?thesis unfolding guarded_def by blast
  qed (use keepsD [OF assms(1) s] finalized_log in blast)+
qed

lemma guarded_or_return:
  "keeps (finalized old) m \<Longrightarrow> (\<And>x. guarded E r old (k x)) \<Longrightarrow> guarded E r old (or_return m k)"
  unfolding or_return_def
  by (rule guarded_bind) (auto intro: keeps_attempt guarded_keeps keeps_ret split: sum.split)

lemma guarded_cases:
  "guarded E r old m \<Longrightarrow> guarded E r old n \<Longrightarrow> guarded E r old (if b then m else n)"
  "(\<And>e. guarded E r old (h e)) \<Longrightarrow> (\<And>x. guarded E r old (k x)) \<Longrightarrow>
     guarded E r old (case y of Inl e \<Rightarrow> h e | Inr x \<Rightarrow> k x)"
  by (simp_all split: sum.split)

lemma guarded_ret: "guarded E r old (ret x)"
  by (rule guarded_keeps [OF keeps_ret])

lemma guarded_await_gone:
  assumes "act_client (rm_actuator r) = Some k" and "server_keeps_finalizer k"
  shows "guarded E r old (await_gone E r)"
  unfolding guarded_def
proof (intro allI impI)
  fix s res s' assume s: "finalized old s" and run: "await_gone E r s = (res, s')"
  obtain x t1 where x: "Exists E (rm_actuator r) s = (x, t1)" by fastforce
  have t1: "finalized old t1" by (rule keepsD [OF keeps_finalized_actuator(3) [OF assms] s x])
  show "log_ok old s' \<or> vm_gone E r old res s'"
  proof (cases "x = Val False")
    case True
    with x have "Exists E (rm_actuator r) s = (Val False, t1)" by simp
    then have "await_gone E r s = remove_finalizer r t1" unfolding await_gone_split by (subst or_return_run(1)) auto
    with run have "remove_finalizer r t1 = (res, s')" by simp
    with s x True show ?thesis unfolding vm_gone_def by blast
  next
    case False
    with run x have "s' = t1"
      by (cases x) (auto simp: await_gone_split or_return_def split: if_splits)
    with t1 finalized_log show ?thesis by blast
  qed
qed

lemma guarded_terminate:
  assumes "act_client (rm_actuator r) = Some k" and "server_keeps_finalizer k"
  shows "guarded E r old (terminate_instance E r)"
  unfolding terminate_instance_def
  by (intro guarded_bind [OF keeps_gets] guarded_cases guarded_ret guarded_await_gone [OF assms]
      guarded_bind [OF keeps_attempt [OF keeps_finalized_actuator(4) [OF assms]]])

lemma guarded_deleted_tail:
  assumes "act_client (rm_actuator r) = Some k" and "server_keeps_finalizer k"
  shows "guarded E r old (case (b, n) of
      (False, Some n) \<Rightarrow>
        if hooks then ret (ResultNoRequeue, None)
        else bind (attempt (api (DrainNodeCall n) (rm_drain r n))) (\<lambda>d.
          case d of Inl err \<Rightarrow> ret (delayIfRequeueAfterError err) | Inr _ \<Rightarrow> terminate_instance E r)
    | _ \<Rightarrow> terminate_instance E r)"
proof -
  have drain: "keeps (finalized old) (api (DrainNodeCall n) (rm_drain r n))" for n
    by (intro keeps_finalized_quiet preserves_intros emits_intros) simp
  show ?thesis
    by (cases b; cases n)
       (simp_all only: bool.case option.case prod.case, (intro guarded_terminate [OF assms] guarded_ret guarded_cases
         guarded_bind [OF keeps_attempt [OF drain]])+)
qed


text \<open>The Machine that is not deleted keeps its finalizer on every branch.\<close>

lemma keeps_finalized_present:
  assumes "act_client (rm_actuator r) = Some k" and "server_keeps_finalizer k"
    and "server_keeps_finalizer (rm_Client r)"
  shows "keeps (finalized old) (reconcile_present E r)"
  unfolding reconcile_present_def reconcile_existing_def reconcile_missing_def
  by (intro keeps_intros keeps_finalized_actuator [OF assms(1,2)] keeps_finalized_updateStatus [OF assms(3)]
      keeps_finalized_keep_phase [OF assms(3)])

lemma log_ok_emits:
  assumes "log_ok old s" and "emits (\<lambda>c. \<forall>x. c \<noteq> UpdateMachineCall x) m" and "m s = (r, s')"
  shows "log_ok old s'"
proof -
  from emitsD [OF assms(2,3)] obtain new where "calls s' = calls s @ new"
    "\<forall>e \<in> set new. \<forall>x. fst e \<noteq> UpdateMachineCall x" by blast
  moreover from this have "list_all keeps_finalizer new"
    by (auto simp: list_all_iff keeps_finalizer_def split: api_call.split)
  ultimately show ?thesis using assms(1) by (auto simp: log_ok_def)
qed

lemma reconcile_deleted_guarded:
  assumes act: "act_client (rm_actuator r) = Some k" "server_keeps_finalizer k"
    and s: "log_ok old s" and run: "reconcile_deleted E r s = (res, s')"
  shows "log_ok old s' \<or> vm_gone E r old res s'"
proof -
  obtain x t where x: "updateStatus r phaseDeleting None s = (x, t)" by fastforce
  have t: "log_ok old t" by (rule log_ok_emits [OF s emits_updateStatus x]) simp_all
  show ?thesis
  proof (cases "x = Val () \<and> has_finalizer (machine t)")
    case False
    with run x have "s' = t"
      by (cases x) (auto simp: reconcile_deleted_def or_return_def has_finalizer_def)
    with t show ?thesis by simp
  next
    case True
    with t have f: "finalized old t" by (auto simp: log_ok_def finalized_def)
    let ?m = "machine t"
    from True x run have "(case (excludes_draining ?m, mst_NodeRef (mc_Status ?m)) of
         (False, Some n) \<Rightarrow>
           if mc_PreDrain ?m \<noteq> [] then ret (ResultNoRequeue, None)
           else
             bind (attempt (api (DrainNodeCall n) (rm_drain r n))) (\<lambda>d.
             case d of
               Inl err \<Rightarrow> ret (delayIfRequeueAfterError err)
             | Inr _ \<Rightarrow> terminate_instance E r)
       | _ \<Rightarrow> terminate_instance E r) t = (res, s')"
      by (simp add: reconcile_deleted_def or_return_def has_finalizer_def)
    with guarded_deleted_tail [OF act] f show ?thesis unfolding guarded_def by blast
  qed
qed


text \<open>A run of \<open>Reconcile\<close>: the Machine is not there, or it is read and handled.\<close>

definition after_read :: "'w machine_reconciler \<Rightarrow> string \<Rightarrow> 'w sys \<Rightarrow> Machine \<Rightarrow> 'w sys \<Rightarrow> bool" where
  "after_read r request s m s1 \<longleftrightarrow> (\<exists>w. kc_GetMachine (rm_Client r) request (world s) = (Inr m, w) \<and>
     s1 = s\<lparr>world := w, calls := calls s @ [(GetMachineCall request, True)], machine := m\<rparr>)"

lemma machine_Reconcile_cases:
  assumes "machine_Reconcile E r request s = (res, s')"
  obtains (unread) e where "res = Val (ResultNoRequeue, e)" and "calls s' = calls s @ [(GetMachineCall request, False)]"
  | (read) m s1 where "after_read r request s m s1" and "reconcile_read E r m s1 = (res, s')"
proof -
  obtain x w where x: "kc_GetMachine (rm_Client r) request (world s) = (x, w)" by fastforce
  show thesis
  proof (cases x)
    case (Inl e)
    with assms x show thesis by (cases "IsNotFound e") (auto simp: machine_Reconcile_def api_def intro: that(1))
  next
    case (Inr m)
    with assms x show thesis
      by (intro that(2)) (auto simp: after_read_def machine_Reconcile_def api_def set_machine_def)
  qed
qed

lemma reconcile_read_guarded:
  assumes act: "act_client (rm_actuator r) = Some (rm_Client r)" and srv: "server_keeps_finalizer (rm_Client r)"
    and s: "log_ok old s" "machine s = m" and run: "reconcile_read E r m s = (res, s')"
  shows "log_ok old s' \<or> mc_Deleted m \<and> vm_gone E r old res s'"
proof -
  consider (invalid) "machine_invalid m" | (add) "\<not> machine_invalid m" "\<not> mc_Deleted m" "MachineFinalizer \<notin> set (mc_Finalizers m)"
    | (deleted) "\<not> machine_invalid m" "mc_Deleted m"
    | (present) "\<not> machine_invalid m" "\<not> mc_Deleted m" "MachineFinalizer \<in> set (mc_Finalizers m)" by blast
  then show ?thesis
  proof cases
    case invalid
    with run s show ?thesis by (auto simp: reconcile_read_def Let_def log_ok_def Eventf_def)
  next
    case add
    let ?m = "m\<lparr>mc_Finalizers := mc_Finalizers m @ [MachineFinalizer]\<rparr>"
    have "or_return (update_machine r) (\<lambda>_. ret (ResultNoRequeue, None)) (s\<lparr>machine := ?m\<rparr>) = (res, s')"
      using run add s by (simp add: reconcile_read_def set_machine_def)
    moreover have "finalized old (s\<lparr>machine := ?m\<rparr>)"
      using s by (auto simp: log_ok_def finalized_def has_finalizer_def)
    moreover have "keeps (finalized old) (or_return (update_machine r) (\<lambda>_. ret (ResultNoRequeue, None)))"
      by (intro keeps_intros keeps_finalized_writes(1) srv)
    ultimately show ?thesis using keepsD finalized_log by blast
  next
    case deleted
    with run have "reconcile_deleted E r s = (res, s')" by (simp add: reconcile_read_def)
    from reconcile_deleted_guarded [OF act srv s(1) this] deleted(2) show ?thesis by blast
  next
    case present
    with run have "reconcile_present E r s = (res, s')" by (simp add: reconcile_read_def)
    moreover have "finalized old s" using s present by (auto simp: log_ok_def finalized_def has_finalizer_def)
    ultimately show ?thesis using keepsD [OF keeps_finalized_present [OF act srv srv]] finalized_log by blast
  qed
qed

lemma emits_remove_finalizer: "emits (\<lambda>c. \<not> engine_mutation c) (remove_finalizer r)"
  unfolding remove_finalizer_def by (auto intro!: emits_intros split: option.split)

lemma vm_gone_calls:
  assumes act: "act_client (rm_actuator r) = Some k" "server_keeps_finalizer k"
    and gone: "vm_gone E r old res s'" and s': "calls s' = old @ new"
    and m: "(UpdateMachineCall m, ok) \<in> set new" "MachineFinalizer \<notin> set (mc_Finalizers m)"
  obtains t t1 pre post where "vm_absent E (rm_actuator r) t t1" and "remove_finalizer r t1 = (res, s')"
    and "new = pre @ (GetVMByNameCall (mc_Name (machine t)), False) # post" and "(UpdateMachineCall m, ok) \<in> set post"
    and "\<forall>e \<in> set post. \<not> engine_mutation (fst e)"
proof -
  from gone obtain t t1 where t: "finalized old t" and x: "Exists E (rm_actuator r) t = (Val False, t1)"
    and rem: "remove_finalizer r t1 = (res, s')" by (auto simp: vm_gone_def)
  from t obtain l where l: "calls t = old @ l" by (auto simp: finalized_def)
  obtain up where up: "calls t1 = calls t @ up @ [(GetVMByNameCall (mc_Name (machine t)), False)]"
    using Exists_False(3) [OF x] by blast
  let ?look = "(GetVMByNameCall (mc_Name (machine t)), False)"
  have "finalized old t1" by (rule keepsD [OF keeps_finalized_actuator(3) [OF act] t x])
  with l up have safe: "list_all keeps_finalizer (l @ up @ [?look])" by (auto simp: finalized_def)
  from emitsD [OF emits_remove_finalizer rem] obtain post where post: "calls s' = calls t1 @ post"
    "\<forall>e \<in> set post. \<not> engine_mutation (fst e)" by blast
  with s' l up have new: "new = (l @ up) @ ?look # post" by simp
  have "(UpdateMachineCall m, ok) \<notin> set (l @ up @ [?look])"
    using safe m(2) unfolding list_all_iff by (metis keeps_finalizer_simps(1) has_finalizer_def)
  with m(1) new have "(UpdateMachineCall m, ok) \<in> set post" by auto
  from that [OF Exists_False(1) [OF x] rem new this post(2)] show thesis .
qed

section \<open>When the engine is changed\<close>

text \<open>No change of the engine but those of a deletion.\<close>

definition no_building :: "api_call \<Rightarrow> bool" where
  "no_building c \<longleftrightarrow> \<not> engine_mutation c \<or> removes_vm c"

lemma emits_no_building: "emits (\<lambda>c. \<not> engine_mutation c) m \<Longrightarrow> emits no_building m"
  by (erule emits_mono) (simp add: no_building_def)

lemma emits_Delete_removal: "emits no_building (Delete E act)"
  by (rule emits_mono [OF emits_actuator_permitted(4)]) (auto simp: no_building_def)

lemma emits_Exists_reads: "emits (\<lambda>c. \<not> engine_mutation c) (Exists E act)"
  unfolding Exists_def by (intro emits_intros emits_on_error emits_no_mutation) simp_all

lemma emits_reconcile_deleted: "emits no_building (reconcile_deleted E r)"
proof -
  have t: "emits no_building (terminate_instance E r)"
    unfolding terminate_instance_def await_gone_split
    by (intro emits_intros emits_Delete_removal emits_no_building [OF emits_Exists_reads]
        emits_no_building [OF emits_remove_finalizer])
  have *: "(case (b, n) of (False, Some n) \<Rightarrow> f n | _ \<Rightarrow> g) = (if b then g else case n of None \<Rightarrow> g | Some n \<Rightarrow> f n)" for b n f g
    by (simp split: bool.split option.split)
  show ?thesis
    unfolding reconcile_deleted_def *
    by (intro emits_intros t) (simp_all add: no_building_def)
qed

lemma emits_reconcile_existing: "emits (\<lambda>c. \<not> engine_mutation c) (reconcile_existing E r)"
  unfolding reconcile_existing_def by (intro emits_intros Update_no_mutation) simp_all

lemma emits_Create_logs: "emits (\<lambda>_. True) (Create E act)"
  by (rule emits_mono [OF emits_actuator_permitted(1)]) simp

text \<open>A Machine the controller may create a VM for.\<close>

definition wants_vm :: "Machine \<Rightarrow> bool" where
  "wants_vm m \<longleftrightarrow> \<not> machine_invalid m \<and> \<not> mc_Deleted m \<and> has_finalizer m \<and> \<not> machineIsFailed m \<and>
     \<not> machineIsProvisioned m \<and> stringPointerDeref (mst_Phase (mc_Status m)) \<noteq> []"

lemma reconcile_present_builds:
  assumes run: "reconcile_present E r s = (res, s')" and new: "calls s' = calls s @ new" "(c, ok) \<in> set new"
    and c: "engine_mutation c" "\<not> removes_vm c"
    and m: "\<not> machine_invalid (machine s)" "\<not> mc_Deleted (machine s)" "has_finalizer (machine s)"
  obtains t x u post where "wants_vm (machine s)" and "Exists E (rm_actuator r) s = (Val False, t)" and "attempt (Create E (rm_actuator r)) t = (x, u)"
    and "calls u = calls t @ post" and "(c, ok) \<in> set post"
proof -
  have failed: "\<not> machineIsFailed (machine s)"
  proof
    assume "machineIsFailed (machine s)"
    with run new show False by (simp add: reconcile_present_def)
  qed
  obtain y t where y: "Exists E (rm_actuator r) s = (y, t)" by fastforce
  from emitsD [OF emits_Exists_reads y] obtain n1 where n1: "calls t = calls s @ n1" "\<forall>e \<in> set n1. \<not> engine_mutation (fst e)"
    by blast
  have later: "(c, ok) \<in> set n2" if "calls s' = calls t @ n2" for n2 using that n1 new c(1) by auto
  have kp: "emits (\<lambda>c. \<not> engine_mutation c) (keep_phase r)" by (intro emits_intros) simp_all
  have "y = Val False"
  proof (rule ccontr)
    assume "y \<noteq> Val False"
    then consider (err) e where "y = Fail e" | (crash) p where "y = Crash p" | (yes) "y = Val True"
      by (cases y) auto
    then show False
    proof cases
      case err
      with run failed y have "bind (keep_phase r) (\<lambda>_. ret (ResultNoRequeue, Some e)) t = (res, s')"
        by (simp add: reconcile_present_def)
      moreover have "emits (\<lambda>c. \<not> engine_mutation c) (bind (keep_phase r) (\<lambda>_. ret (ResultNoRequeue, Some e)))"
        by (intro emits_intros kp)
      ultimately show False using later emitsD c(1) by fastforce
    next
      case crash
      with run failed y have "s' = t" by (simp add: reconcile_present_def)
      with later show False by fastforce
    next
      case yes
      with run failed y have "reconcile_existing E r t = (res, s')" by (simp add: reconcile_present_def)
      with emitsD [OF emits_reconcile_existing] later c(1) show False by fastforce
    qed
  qed
  with y have ex: "Exists E (rm_actuator r) s = (Val False, t)" by simp
  have mt: "machine t = machine s" by (rule Exists_False(2) [OF ex])
  from run failed ex have miss: "reconcile_missing E r t = (res, s')" by (simp add: reconcile_present_def)
  have no: "or_return (updateStatus r ph cause) (\<lambda>_. ret z) t \<noteq> (res, s')" for ph cause z
  proof
    assume run: "or_return (updateStatus r ph cause) (\<lambda>_. ret z) t = (res, s')"
    have "emits (\<lambda>c. \<not> engine_mutation c) (or_return (updateStatus r ph cause) (\<lambda>_. ret z))"
      by (intro emits_intros) simp_all
    from emitsD [OF this run] later c(1) show False by fastforce
  qed
  have prov: "\<not> machineIsProvisioned (machine s)" and ph: "stringPointerDeref (mst_Phase (mc_Status (machine s))) \<noteq> []"
    using miss no by (auto simp: reconcile_missing_def mt split: if_splits)
  with failed m have wants: "wants_vm (machine s)" by (simp add: wants_vm_def)
  obtain x u where x: "attempt (Create E (rm_actuator r)) t = (x, u)" by fastforce
  let ?k = "\<lambda>c. case c of
         Inl err \<Rightarrow>
           if isInvalidMachineConfigurationError err then
             or_return (updateStatus r phaseFailed (Some err)) (\<lambda>_. ret (ResultNoRequeue, None))
           else ret (delayIfRequeueAfterError err)
       | Inr _ \<Rightarrow> ret (requeueAfter, None)"
  from emitsD [OF emits_attempt [OF emits_Create_logs] x] obtain post where post: "calls u = calls t @ post" by blast
  have split: "bind (attempt (Create E (rm_actuator r))) ?k t = (res, s')"
    using miss prov ph by (simp add: reconcile_missing_def mt)
  have tail: "emits (\<lambda>c. \<not> engine_mutation c) (?k z)" for z by (intro emits_intros) simp_all
  have "\<exists>n3. calls s' = calls u @ n3 \<and> (\<forall>e \<in> set n3. \<not> engine_mutation (fst e))"
  proof (cases x)
    case (Val z)
    with split x have "?k z u = (res, s')" by (simp add: bind_def)
    from emitsD [OF tail this] show ?thesis .
  qed (use split x in \<open>auto simp: bind_def\<close>)
  then obtain n3 where n3: "calls s' = calls u @ n3" "\<forall>e \<in> set n3. \<not> engine_mutation (fst e)" by blast
  have "(c, ok) \<in> set (post @ n3)" using later post n3(1) by simp
  with n3(2) c(1) have "(c, ok) \<in> set post" by auto
  with wants ex x post show thesis by (rule that)
qed

lemma reconcile_read_builds:
  assumes run: "reconcile_read E r m s = (res, s')" and new: "calls s' = calls s @ new" "(c, ok) \<in> set new"
    and c: "engine_mutation c" "\<not> removes_vm c"
  shows "\<not> machine_invalid m \<and> \<not> mc_Deleted m \<and> has_finalizer m \<and> reconcile_present E r s = (res, s')"
proof (rule ccontr)
  assume *: "\<not> ?thesis"
  define k where "k = (if machine_invalid m \<or> mc_Deleted m \<or> \<not> has_finalizer m then reconcile_read E r m
    else ret (ResultNoRequeue, None))"
  have "emits no_building k"
    unfolding k_def reconcile_read_def has_finalizer_def Let_def
    by (auto intro!: emits_intros emits_reconcile_deleted simp: no_building_def)
  moreover have "k s = (res, s')" using run * by (auto simp: k_def reconcile_read_def has_finalizer_def)
  ultimately show False using emitsD new c by (fastforce simp: no_building_def)
qed

lemma reconcile_read_log: "emits (\<lambda>_. True) (reconcile_read E r m)"
proof -
  have "emits (\<lambda>_. True) (reconcile_deleted E r)" by (rule emits_mono [OF emits_reconcile_deleted]) simp
  moreover have "emits (\<lambda>_. True) (reconcile_present E r)"
    unfolding reconcile_present_def reconcile_missing_def
    by (intro emits_intros emits_mono [OF emits_Exists_reads] emits_mono [OF emits_reconcile_existing] emits_Create_logs) simp_all
  ultimately show ?thesis unfolding reconcile_read_def by (intro emits_intros) simp_all
qed

section \<open>Failing for good\<close>

text \<open>
  An API server for which the status of a Machine is a subresource, as the Machine's resource
  definition declares it: \<open>st w n\<close> is the status it holds. An update and a patch of the Machine
  store everything but the status and are answered with the status the server holds; only
  the patch of the status is taken as it is sent.
\<close>

definition server_stores :: "'w k8s_client \<Rightarrow> ('w \<Rightarrow> string \<Rightarrow> machine_status) \<Rightarrow> bool" where
  "server_stores k st \<longleftrightarrow> (\<forall>b m w.
     fst (kc_UpdateMachine k m w) = Inr (m\<lparr>mc_Status := st w (mc_Name m)\<rparr>) \<and> st (snd (kc_UpdateMachine k m w)) = st w \<and>
     fst (kc_PatchMachine k b m w) = Inr (m\<lparr>mc_Status := st w (mc_Name m)\<rparr>) \<and> st (snd (kc_PatchMachine k b m w)) = st w \<and>
     fst (kc_PatchMachineStatus k b m w) = Inr m)"

lemma api_stored: "fst (f (world s)) = Inr x \<Longrightarrow>
    api c f s = (Val x, s\<lparr>world := snd (f (world s)), calls := calls s @ [(c, True)]\<rparr>)"
  by (cases "f (world s)") (simp add: api_def)

lemma stored_writes:
  assumes "server_stores k st"
  shows "api c (kc_UpdateMachine k m) s = (Val (m\<lparr>mc_Status := st (world s) (mc_Name m)\<rparr>),
      s\<lparr>world := snd (kc_UpdateMachine k m (world s)), calls := calls s @ [(c, True)]\<rparr>)"
    and "api c (kc_PatchMachine k b m) s = (Val (m\<lparr>mc_Status := st (world s) (mc_Name m)\<rparr>),
      s\<lparr>world := snd (kc_PatchMachine k b m (world s)), calls := calls s @ [(c, True)]\<rparr>)"
    and "api c (kc_PatchMachineStatus k b m) s =
      (Val m, s\<lparr>world := snd (kc_PatchMachineStatus k b m (world s)), calls := calls s @ [(c, True)]\<rparr>)"
  using assms by (intro api_stored; simp add: server_stores_def)+

definition with_error :: "string \<Rightarrow> string \<Rightarrow> Machine \<Rightarrow> Machine" where
  "with_error r msg m = m\<lparr>mc_Status := (mc_Status m)\<lparr>mst_ErrorReason := Some r, mst_ErrorMessage := Some msg\<rparr>\<rparr>"

text \<open>What \<open>handleMachineError\<close> leaves behind: it sends the error and gets the old status back.\<close>

definition error_sent :: "'w k8s_client \<Rightarrow> ('w \<Rightarrow> string \<Rightarrow> machine_status) \<Rightarrow> string \<Rightarrow> string \<Rightarrow> string \<Rightarrow> 'w sys \<Rightarrow> 'w sys" where
  "error_sent k st reason r msg s = s\<lparr>recorded := recorded s @ [(EventTypeWarning, reason, msg)],
     machine := (machine s)\<lparr>mc_Status := st (world s) (mc_Name (machine s))\<rparr>,
     world := snd (kc_UpdateMachine k (with_error r msg (machine s)) (world s)),
     calls := calls s @ [(UpdateMachineCall (with_error r msg (machine s)), True)]\<rparr>"

lemma handleMachineError_sent:
  assumes "act_client act = Some k" and "server_stores k st"
  shows "handleMachineError act reason r msg s = (Fail (MachineError r msg), error_sent k st reason r msg s)"
  using assms by (simp add: handleMachineError_def stored_writes [OF assms(2)] Eventf_def set_machine_def error_sent_def with_error_def)

text \<open>
  So the reason and the message are lost, on the server and in the Machine in work, although
  \<open>handleMachineError\<close> is there to set them.
\<close>

lemma machine_error_not_stored:
  assumes "act_client act = Some k" and "server_stores k st"
    and "handleMachineError act reason r msg s = (x, s')"
  shows "mc_Status (machine s') = st (world s) (mc_Name (machine s)) \<and> st (world s') = st (world s)"
proof -
  have "s' = error_sent k st reason r msg s" using assms(3) by (simp add: handleMachineError_sent [OF assms(1,2)])
  with assms(2) show ?thesis by (simp add: error_sent_def server_stores_def)
qed

lemma on_error_sent:
  assumes "act_client act = Some k" and "server_stores k st" and "m s = (Fail e, s')"
  shows "on_error act reason r prefix m s =
    (Fail (MachineError r (prefix @ error_string e)), error_sent k st reason r (prefix @ error_string e) s')"
  using assms by (simp add: on_error_def handleMachineError_sent)

lemma on_error_Val: "m s = (Val x, s1) \<Longrightarrow> on_error act reason r prefix m s = (Val x, s1)"
  by (simp add: on_error_def)

text \<open>The provider status can be rewritten.\<close>

definition markable :: "'w machine_reconciler \<Rightarrow> bool" where
  "markable r \<longleftrightarrow> (\<forall>raw. \<exists>raw'. rm_markUnknown r raw = Inr raw')"

lemma overrideFailedMachineProviderStatusState_run:
  assumes "markable r"
  obtains ps where "overrideFailedMachineProviderStatusState r s =
    (Val (), s\<lparr>machine := (machine s)\<lparr>mc_Status := (mc_Status (machine s))\<lparr>mst_ProviderStatus := ps\<rparr>\<rparr>\<rparr>)"
proof (cases "mst_ProviderStatus (mc_Status (machine s))")
  case None
  then have "overrideFailedMachineProviderStatusState r s =
    (Val (), s\<lparr>machine := (machine s)\<lparr>mc_Status := (mc_Status (machine s))\<lparr>mst_ProviderStatus := None\<rparr>\<rparr>\<rparr>)"
    by (simp add: overrideFailedMachineProviderStatusState_def)
  then show thesis by (rule that)
next
  case (Some raw)
  moreover obtain raw' where "rm_markUnknown r raw = Inr raw'" using assms unfolding markable_def by blast
  ultimately have "overrideFailedMachineProviderStatusState r s =
    (Val (), s\<lparr>machine := (machine s)\<lparr>mc_Status := (mc_Status (machine s))\<lparr>mst_ProviderStatus := Some raw'\<rparr>\<rparr>\<rparr>)"
    by (simp add: overrideFailedMachineProviderStatusState_def set_machine_def)
  then show thesis by (rule that)
qed

lemma updateStatus_failed_stored:
  assumes "server_stores (rm_Client r) st" and "markable r"
  shows "\<exists>s' base pre a ps. updateStatus r phaseFailed (Some (MachineError reason msg)) s = (Val (), s') \<and>
    machine s' = (machine s)\<lparr>mc_Annotations := a, mc_Status := (st (world s) (mc_Name (machine s)))
      \<lparr>mst_ProviderStatus := ps, mst_Phase := Some phaseFailed, mst_ErrorReason := Some reason,
       mst_ErrorMessage := Some msg\<rparr>\<rparr> \<and>
    calls s' = calls s @ pre @ [(PatchMachineStatusCall base (machine s'), True)]"
proof -
  let ?a = "Some ((case mc_Annotations (machine s) of None \<Rightarrow> Map.empty | Some a \<Rightarrow> a)
      (MachineInstanceStateAnnotationName \<mapsto> unknownInstanceState))"
  let ?m = "(machine s)\<lparr>mc_Annotations := ?a\<rparr>"
  let ?n = "?m\<lparr>mc_Status := st (world s) (mc_Name (machine s))\<rparr>"
  let ?t = "s\<lparr>machine := ?n, world := snd (kc_PatchMachine (rm_Client r) (machine s) ?m (world s)),
     calls := calls s @ [(PatchMachineCall (machine s) ?m, True)]\<rparr>"
  have 1: "patchFailedMachineInstanceAnnotation r s = (Val (), ?t)"
    by (simp add: patchFailedMachineInstanceAnnotation_def patch_base_def stored_writes [OF assms(1)] set_machine_def Let_def)
  obtain ps where 2: "overrideFailedMachineProviderStatusState r ?t =
    (Val (), ?t\<lparr>machine := ?n\<lparr>mc_Status := (mc_Status ?n)\<lparr>mst_ProviderStatus := ps\<rparr>\<rparr>\<rparr>)"
    using overrideFailedMachineProviderStatusState_run [OF assms(2), of ?t] by auto
  show ?thesis
    by (simp add: updateStatus_def bind_run(1) [where m = "patchFailedMachineInstanceAnnotation r" and s = s, OF 1]
        bind_run(1) [where m = "overrideFailedMachineProviderStatusState r" and s = ?t, OF 2] failure_fields_def patch_status_def
        stored_writes [OF assms(1)] set_machine_def Let_def) blast
qed

lemma failed_machine_is_left_alone:
  assumes "after_read r request s m s1" and "machineIsFailed m" and "\<not> machine_invalid m" and "\<not> mc_Deleted m" and "has_finalizer m"
  shows "machine_Reconcile E r request s = (Val (ResultNoRequeue, None), s1)"
  using assms
  by (auto simp: after_read_def machine_Reconcile_def api_def set_machine_def reconcile_read_def reconcile_present_def has_finalizer_def)

lemma reconcile_present_Create_fails:
  assumes "wants_vm (machine s)" and "Exists E (rm_actuator r) s = (Val False, t)" and "machine t = machine s"
    and "Create E (rm_actuator r) t = (Fail err, u)" and "isInvalidMachineConfigurationError err"
    and "updateStatus r phaseFailed (Some err) u = (Val (), s')"
  shows "reconcile_present E r s = (Val (ResultNoRequeue, None), s')"
proof -
  have 1: "bind (attempt (Exists E (rm_actuator r))) K s = K (Inr False) t" for K
    using assms(2) by (simp add: bind_def attempt_def)
  have 2: "bind (attempt (Create E (rm_actuator r))) K t = K (Inl err) u" for K
    using assms(4) by (simp add: bind_def attempt_def)
  have 3: "or_return (updateStatus r phaseFailed (Some err)) K u = K () s'" for K
    using assms(6) by (rule or_return_run(1))
  show ?thesis using assms(1,3,5) by (simp add: reconcile_present_def reconcile_missing_def wants_vm_def 1 2 3)
qed

section \<open>A concrete cluster\<close>

definition demo_server :: "Machine \<Rightarrow> demo_world k8s_client" where
  "demo_server m = demo_k8s\<lparr>kc_GetMachine := \<lambda>n w. (Inr m, w),
     kc_UpdateMachine := \<lambda>m' w. (Inr (m'\<lparr>mc_Status := mc_Status m\<rparr>), w),
     kc_PatchMachine := \<lambda>b m' w. (Inr (m'\<lparr>mc_Status := mc_Status m\<rparr>), w)\<rparr>"

definition demo_reconciler :: "Machine \<Rightarrow> demo_world machine_reconciler" where
  "demo_reconciler m = \<lparr>rm_Client = demo_server m,
     rm_actuator = NewActuator \<lparr>ap_Namespace = [], ap_Client = Some (demo_server m), ap_CachedOVirtClient = 0\<rparr>,
     rm_drain = (\<lambda>n w. (Inr (), w)), rm_markUnknown = Inr, rm_validationText = (\<lambda>m. ''invalid'')\<rparr>"

definition demo_deleted :: Machine where
  "demo_deleted = demo_machine\<lparr>mc_ProviderSpecValue := Some \<lparr>Raw = ''demo''\<rparr>, mc_Deleted := True\<rparr>"

lemma demo_server_keeps: "server_keeps_finalizer (demo_server m)"
  by (auto simp: server_keeps_finalizer_def demo_server_def demo_k8s_def answers_def)

lemma demo_reconciler_simps [simp]:
  "rm_Client (demo_reconciler m) = demo_server m" "act_client (rm_actuator (demo_reconciler m)) = Some (demo_server m)"
  "act_cachedOVirtClient (rm_actuator (demo_reconciler m)) = 0"
  "kc_GetMachine (demo_server m) n w = (Inr m, w)" "kc_UpdateMachine (demo_server m) m' w = (Inr (m'\<lparr>mc_Status := mc_Status m\<rparr>), w)"
  "kc_PatchMachine (demo_server m) b m' w = (Inr (m'\<lparr>mc_Status := mc_Status m\<rparr>), w)" "kc_PatchMachineStatus (demo_server m) b m' w = (Inr m', w)"
  by (simp_all add: demo_reconciler_def demo_server_def NewActuator_def demo_k8s_def)

lemma demo_server_stores: "server_stores (demo_server m) (\<lambda>w n. mc_Status m)" "markable (demo_reconciler m)"
  by (simp_all add: server_stores_def markable_def) (simp_all add: demo_reconciler_def)

lemma demo_client_run:
  assumes "caches s = caches (demo_after [] None None)"
  shows "Get demo_env 0 s = (Val demo_engine, s\<lparr>calls := calls s @ [(TestCall, True)]\<rparr>)"
  using assms
  by (simp add: Get_def needs_build_def read_cache_run demo_after_def demo_sys_def bind_def attempt_def api_def demo_engine_def)

lemma demo_lookup_run:
  "GetVMByName demo_engine n s = (Val (fst (demo_GetVMByName n (world s))),
     s\<lparr>calls := calls s @ [(GetVMByNameCall n, dw_vm (world s) \<noteq> None \<and> vm_name (the (dw_vm (world s))) = n)]\<rparr>)"
  by (cases s) (simp add: GetVMByName_def demo_engine_def demo_GetVMByName_def split: option.split)

lemmas demo_reconcile_defs = machine_Reconcile_def reconcile_read_def machine_invalid_def reconcile_deleted_def reconcile_present_def
  reconcile_missing_def excludes_draining_def terminate_instance_def await_gone_def or_return_def update_machine_def
  updateStatus_def patch_status_def patch_base_def failure_fields_def phase_defs MachineClusterIDLabel_def map_index_def
  MachineFinalizer_def set_machine_def Eventf_def

lemmas demo_actuator_defs = Create_def Delete_def Exists_def on_error_def newMachineScope_def delete_def vm_exists_def
  demo_client_run demo_lookup_run demo_GetVMByName_def api_def attempt_def bind_def demo_after_def demo_sys_def

lemma demo_deleted_run:
  assumes "r = demo_reconciler demo_deleted"
  shows "calls (snd (machine_Reconcile demo_env r ''m1'' (demo_after [] None None))) =
    [(GetMachineCall ''m1'', True),
     (PatchMachineStatusCall demo_deleted (demo_deleted\<lparr>mc_Status := (mc_Status demo_deleted)\<lparr>mst_Phase := Some phaseDeleting\<rparr>\<rparr>), True),
     (TestCall, True), (GetVMByNameCall ''m1'', False), (TestCall, True), (GetVMByNameCall ''m1'', False),
     (UpdateMachineCall (demo_deleted\<lparr>mc_Status := (mc_Status demo_deleted)\<lparr>mst_Phase := Some phaseDeleting\<rparr>, mc_Finalizers := []\<rparr>), True)]"
proof -
  note k = demo_reconciler_simps [of demo_deleted, folded assms]
  show ?thesis
    by (simp add: k demo_reconcile_defs demo_actuator_defs demo_deleted_def demo_machine_def newError_def)
qed

definition demo_wanted :: Machine where
  "demo_wanted = demo_machine\<lparr>mc_ProviderSpecValue := Some \<lparr>Raw = ''demo''\<rparr>,
     mc_Status := (mc_Status demo_machine)\<lparr>mst_Phase := Some phaseProvisioning\<rparr>\<rparr>"

lemma demo_codec_spec: "ProviderSpecFromRawExtension (env_codec demo_env) (Some \<lparr>Raw = ''demo''\<rparr>) = Inr (Some demo_spec)"
  by (simp add: ProviderSpecFromRawExtension_def demo_env_def demo_codec_def)

lemma demo_spec_validates: "validate_required demo_spec = None" "validate_optional demo_spec = None"
  unfolding validate_required_None_iff validate_optional_None_iff
  by (simp_all add: valid_required_def valid_optional_def demo_spec_def empty_spec_def)

lemma demo_validate_run: "validateMachine demo_engine (Some demo_spec) s = (Val (), s)"
  by (simp add: validateMachine_def demo_spec_validates, simp add: demo_spec_def empty_spec_def)

lemma demo_create_run:
  assumes "mc_Name (machine s) = ''m1''" and "mc_Labels (machine s) = mc_Labels demo_machine"
    and "mc_Namespace (machine s) = mc_Namespace demo_machine" and "dw_vm (world s) = None"
  shows "\<exists>params log. create \<lparr>ms_ovirtClient = demo_engine, ms_client = Some (demo_server m), ms_original = m', ms_providerSpec = Some demo_spec\<rparr> s =
     (Val (), s\<lparr>world := (world s)\<lparr>dw_vm := Some (demo_vm ''m1'')\<rparr>, calls := calls s @ log\<rparr>) \<and>
     (CreateVMCall ''c1'' ''t1'' ''m1'' params, True) \<in> set log"
  using assms by (cases s) (auto simp add: create_defs create_eval demo_defs demo_server_def map_index_def clusterLabel_def)

lemma bind_logs:
  assumes "m s = (x, s1)" and "e \<in> set (calls s1)" and "\<And>y. emits (\<lambda>_. True) (k y)"
  shows "e \<in> set (calls (snd (bind m k s)))"
proof (cases x)
  case (Val y)
  obtain r s2 where k: "k y s1 = (r, s2)" by fastforce
  from emitsD [OF assms(3) k] assms(2) have "e \<in> set (calls s2)" by auto
  with assms(1) Val k show ?thesis by simp
qed (use assms in auto)

lemma demo_wanted_Create:
  assumes "mc_Name (machine s) = ''m1''" and "mc_Labels (machine s) = mc_Labels demo_machine"
    and "mc_Namespace (machine s) = mc_Namespace demo_machine" and "dw_vm (world s) = None"
    and "mc_ProviderSpecValue (machine s) = Some \<lparr>Raw = ''demo''\<rparr>" and "caches s = caches (demo_after [] None None)"
  obtains params where
    "(CreateVMCall ''c1'' ''t1'' ''m1'' params, True) \<in> set (calls (snd (Create demo_env (rm_actuator (demo_reconciler m)) s)))"
proof -
  let ?act = "rm_actuator (demo_reconciler m)" and ?t = "s\<lparr>calls := calls s @ [(TestCall, True)]\<rparr>"
  let ?ms = "\<lparr>ms_ovirtClient = demo_engine, ms_client = Some (demo_server m), ms_original = machine s, ms_providerSpec = Some demo_spec\<rparr>"
  from demo_create_run [of ?t m "machine s"] assms obtain params log u where
    cr: "create ?ms ?t = (Val (), u)" "calls u = calls ?t @ log" "(CreateVMCall ''c1'' ''t1'' ''m1'' params, True) \<in> set log"
    by auto
  let ?k = "\<lambda>_. bind (on_error ?act ''Create'' CreateMachineError ''error reconciling Machine '' (reconcileMachine demo_env ?ms)) (\<lambda>_.
     bind (on_error ?act ''Create'' CreateMachineError ''error patching Machine '' (patchMachine ?ms)) (\<lambda>_.
     bind (gets machine) (\<lambda>m. Eventf EventTypeNormal ''Created'' (''Updated Machine '' @ mc_Name m))))"
  have "Create demo_env ?act s = bind (on_error ?act ''Create'' CreateMachineError ''error creating Machine '' (create ?ms)) ?k ?t"
    using assms by (simp add: Create_def create_with_client_def on_error_Val provider_spec_def demo_codec_spec
        demo_client_run demo_validate_run newMachineScope_def)
  moreover have "on_error ?act ''Create'' CreateMachineError ''error creating Machine '' (create ?ms) ?t = (Val (), u)"
    using cr(1) by (simp add: on_error_def)
  moreover have "emits (\<lambda>_. True) (?k y)" for y
    by (intro emits_intros emits_on_error emits_mono [OF emits_no_mutation(2)] emits_mono [OF emits_no_mutation(3)]) simp_all
  ultimately have "(CreateVMCall ''c1'' ''t1'' ''m1'' params, True) \<in> set (calls (snd (Create demo_env ?act s)))"
    using cr bind_logs [of "on_error ?act ''Create'' CreateMachineError ''error creating Machine '' (create ?ms)" ?t "Val ()" u _ ?k]
    by simp
  then show thesis by (rule that)
qed

lemma demo_wanted_simps:
  "\<not> machine_invalid demo_wanted" "\<not> mc_Deleted demo_wanted" "MachineFinalizer \<in> set (mc_Finalizers demo_wanted)"
  "\<not> machineIsFailed demo_wanted" "\<not> machineIsProvisioned demo_wanted"
  "stringPointerDeref (mst_Phase (mc_Status demo_wanted)) \<noteq> []" "mc_Name demo_wanted = ''m1''"
  by (simp_all add: demo_wanted_def demo_machine_def demo_reconcile_defs machineIsFailed_def machineIsProvisioned_def
      stringPointerDeref_def)

lemma demo_wanted_run:
  obtains params where "(CreateVMCall ''c1'' ''t1'' ''m1'' params, True) \<in>
    set (calls (snd (machine_Reconcile demo_env (demo_reconciler demo_wanted) ''m1'' (demo_after [] None None))))"
proof -
  let ?r = "demo_reconciler demo_wanted"
  let ?t = "(demo_after [] None None)\<lparr>calls := [(GetMachineCall ''m1'', True), (TestCall, True), (GetVMByNameCall ''m1'', False)], machine := demo_wanted\<rparr>"
  let ?k = "\<lambda>c. case c of
         Inl err \<Rightarrow>
           if isInvalidMachineConfigurationError err then
             or_return (updateStatus ?r phaseFailed (Some err)) (\<lambda>_. ret (ResultNoRequeue, None))
           else ret (delayIfRequeueAfterError err)
       | Inr _ \<Rightarrow> ret (requeueAfter, None)"
  obtain params where "(CreateVMCall ''c1'' ''t1'' ''m1'' params, True) \<in> set (calls (snd (Create demo_env (rm_actuator ?r) ?t)))"
    by (rule demo_wanted_Create [of ?t]) (simp_all add: demo_wanted_def demo_machine_def demo_after_def demo_sys_def)
  then have c: "(CreateVMCall ''c1'' ''t1'' ''m1'' params, True) \<in> set (calls (snd (attempt (Create demo_env (rm_actuator ?r)) ?t)))"
    by (simp add: snd_attempt)
  obtain x u where x: "attempt (Create demo_env (rm_actuator ?r)) ?t = (x, u)" by fastforce
  define k :: "gerr + unit \<Rightarrow> demo_world reconcile" where "k = ?k"
  have k: "emits (\<lambda>_. True) (k z)" for z unfolding k_def by (intro emits_intros) simp_all
  from bind_logs [where m = "attempt (Create demo_env (rm_actuator ?r))" and s = ?t, OF x _ k] c x have
    "(CreateVMCall ''c1'' ''t1'' ''m1'' params, True) \<in> set (calls (snd (bind (attempt (Create demo_env (rm_actuator ?r))) k ?t)))" by simp
  moreover have "machine_Reconcile demo_env ?r ''m1'' (demo_after [] None None) = bind (attempt (Create demo_env (rm_actuator ?r))) k ?t"
  proof -
    let ?s = "(demo_after [] None None)\<lparr>calls := [(GetMachineCall ''m1'', True)], machine := demo_wanted\<rparr>"
    have 1: "machine_Reconcile demo_env ?r ''m1'' (demo_after [] None None) = reconcile_present demo_env ?r ?s"
      by (simp add: machine_Reconcile_def api_def set_machine_def reconcile_read_def demo_wanted_simps)
        (simp add: demo_after_def demo_sys_def)
    have 2: "Exists demo_env (rm_actuator ?r) ?s = (Val False, ?t)"
      by (simp add: Exists_def on_error_Val demo_client_run newMachineScope_def vm_exists_def demo_lookup_run
          demo_wanted_simps demo_GetVMByName_def) (simp add: demo_after_def demo_sys_def newError_def)
    have 3: "bind (attempt (Exists demo_env (rm_actuator ?r))) K ?s = K (Inr False) ?t" for K
      using 2 by (simp add: bind_def attempt_def)
    have 4: "bind (gets machine) K (demo_after [] None None\<lparr>calls := l, machine := m\<rparr>) = K m (demo_after [] None None\<lparr>calls := l, machine := m\<rparr>)" for K l m
      by (simp add: bind_def)
    show ?thesis unfolding 1 k_def reconcile_present_def reconcile_missing_def 4
      by (simp add: demo_wanted_simps 3 4 del: bind_run)
  qed
  ultimately show thesis using that by simp
qed

text \<open>An engine that goes away after one lookup; a Node in its world stands for being down.\<close>

definition demo_flaky_engine :: "demo_world ovirt_client" where
  "demo_flaky_engine = demo_engine
     \<lparr>oc_Test := (\<lambda>w. (if dw_node w = None then Inr () else Inl (ErrorString ''connection refused''), w)),
      oc_GetVMByName := (\<lambda>n w. (fst (demo_GetVMByName n w), w\<lparr>dw_node := Some demo_node\<rparr>))\<rparr>"

definition demo_down :: "demo_world environment" where
  "demo_down = demo_env\<lparr>env_NewWithVerify := (\<lambda>url user pw tls w. (Inl (ErrorString ''connection refused''), w))\<rparr>"

definition demo_flaky :: "demo_world sys" where
  "demo_flaky = (demo_sys None None)\<lparr>caches := [\<lparr>cc_name = ''actuator'', cc_credentials = Some demo_credentials,
     cc_client = Some demo_flaky_engine, cc_clientCreateFunc = Some (CreateNewOVirtClient demo_down)\<rparr>]\<rparr>"

section \<open>Properties\<close>

text \<open>C5: The machine controller removes the finalizer of a Machine, and with it lets the
  Machine go, only at the end of a reconciliation of a Machine that was being deleted, and
  only after the engine said, through the client the cache gave, that it has no VM of the
  Machine's name: the log has that lookup before the update without the finalizer, and
  nothing changes the engine in between.
  The API server is assumed to give back the finalizer it is sent.\<close>

theorem finalizer_removed_only_when_vm_gone:
  assumes "act_client (rm_actuator r) = Some (rm_Client r)" and "server_keeps_finalizer (rm_Client r)"
    and "machine_Reconcile E r request s = (res, s')" and "calls s' = calls s @ new"
    and "(UpdateMachineCall m, ok) \<in> set new" and "MachineFinalizer \<notin> set (mc_Finalizers m)"
  shows "\<exists>m0 s1 t t1 pre post. after_read r request s m0 s1 \<and> mc_Deleted m0 \<and>
     vm_absent E (rm_actuator r) t t1 \<and> remove_finalizer r t1 = (res, s') \<and>
     new = pre @ (GetVMByNameCall (mc_Name (machine t)), False) # post \<and>
     (UpdateMachineCall m, ok) \<in> set post \<and> (\<forall>e \<in> set post. \<not> engine_mutation (fst e))"
proof -
  have "\<not> list_all keeps_finalizer new"
    using assms(6) by (auto simp: list_all_iff has_finalizer_def intro: bexI [OF _ assms(5)])
  with assms(4) have bad: "\<not> log_ok (calls s) s'" by (simp add: log_ok_def)
  from assms(3) show ?thesis
  proof (cases rule: machine_Reconcile_cases)
    case (unread e)
    with bad show ?thesis by (simp add: log_ok_def keeps_finalizer_def)
  next
    case (read m0 s1)
    then have "log_ok (calls s) s1" "machine s1 = m0" by (auto simp: after_read_def log_ok_def keeps_finalizer_def)
    with reconcile_read_guarded [OF assms(1,2) _ _ read(2)] bad
    have m0: "mc_Deleted m0" and gone: "vm_gone E r (calls s) res s'" by blast+
    obtain t t1 pre post where "vm_absent E (rm_actuator r) t t1" and "remove_finalizer r t1 = (res, s')"
      and "new = pre @ (GetVMByNameCall (mc_Name (machine t)), False) # post" and "(UpdateMachineCall m, ok) \<in> set post"
      and "\<forall>e \<in> set post. \<not> engine_mutation (fst e)"
      by (rule vm_gone_calls [OF assms(1,2) gone assms(4-6)])
    with read(1) m0 show ?thesis by blast
  qed
qed

theorem finalizer_removed_only_when_vm_gone_witness:
  "\<exists>res s' t t1 pre post. machine_Reconcile demo_env (demo_reconciler demo_deleted) ''m1'' (demo_after [] None None) = (res, s') \<and>
     vm_absent demo_env (rm_actuator (demo_reconciler demo_deleted)) t t1 \<and>
     calls s' = pre @ (GetVMByNameCall (mc_Name (machine t)), False) # post \<and>
     (\<exists>m. (UpdateMachineCall m, True) \<in> set post)"
proof -
  let ?r = "demo_reconciler demo_deleted" and ?s = "demo_after [] None None"
    and ?m = "demo_deleted\<lparr>mc_Status := (mc_Status demo_deleted)\<lparr>mst_Phase := Some phaseDeleting\<rparr>, mc_Finalizers := []\<rparr>"
  obtain res s' where run: "machine_Reconcile demo_env ?r ''m1'' ?s = (res, s')" by fastforce
  have old: "calls s' = calls ?s @ calls s'" by (simp add: demo_after_def)
  have u: "(UpdateMachineCall ?m, True) \<in> set (calls s')" using demo_deleted_run [OF refl] unfolding run by simp
  have act: "act_client (rm_actuator ?r) = Some (rm_Client ?r)" and srv: "server_keeps_finalizer (rm_Client ?r)"
    by (simp_all add: demo_server_keeps)
  from finalizer_removed_only_when_vm_gone [OF act srv run old u] run show ?thesis by fastforce
qed

text \<open>C6: For a Machine, the controller changes the engine other than by stopping and removing VMs
  only inside one call of \<open>Create\<close>, and calls it only when the Machine it read is valid, not
  deleted, has the finalizer, has a phase and no failure, no address and no provider ID, and
  the engine, asked right before, said that it has no VM of the Machine's name.\<close>

theorem vm_built_only_when_absent:
  assumes "machine_Reconcile E r request s = (res, s')" and "calls s' = calls s @ new"
    and "(c, ok) \<in> set new" and "engine_mutation c" and "\<not> removes_vm c"
  shows "\<exists>m s1 t pre post. after_read r request s m s1 \<and> wants_vm m \<and>
     vm_absent E (rm_actuator r) s1 t \<and> calls t = calls s1 @ pre @ [(GetVMByNameCall (mc_Name m), False)] \<and>
     calls (snd (Create E (rm_actuator r) t)) = calls t @ post \<and> (c, ok) \<in> set post"
  using assms(1)
proof (cases rule: machine_Reconcile_cases)
  case (read m s1)
  then have m: "machine s1 = m" and log: "calls s1 = calls s @ [(GetMachineCall request, True)]"
    by (auto simp: after_read_def)
  from reconcile_read_log [of E r m] emitsD read(2) obtain n2 where n2: "calls s' = calls s1 @ n2" by blast
  with log assms(2-4) have c: "(c, ok) \<in> set n2" by auto
  from reconcile_read_builds [OF read(2) n2 c assms(4,5)]
  have ok: "\<not> machine_invalid m" "\<not> mc_Deleted m" "has_finalizer m" and present: "reconcile_present E r s1 = (res, s')"
    by blast+
  obtain t y u post where "wants_vm m" and ex: "Exists E (rm_actuator r) s1 = (Val False, t)"
    and "attempt (Create E (rm_actuator r)) t = (y, u)" and "calls u = calls t @ post" and "(c, ok) \<in> set post"
    by (rule reconcile_present_builds [OF present n2 c assms(4,5), unfolded m, OF ok])
  moreover from this(3) have "u = snd (Create E (rm_actuator r) t)" by (metis snd_attempt snd_conv)
  moreover obtain pre where "calls t = calls s1 @ pre @ [(GetVMByNameCall (mc_Name m), False)]"
    using Exists_False(3) [OF ex, unfolded m] by blast
  moreover have "vm_absent E (rm_actuator r) s1 t" by (rule Exists_False(1) [OF ex])
  ultimately show ?thesis using read(1) by blast
qed (use assms in auto)

theorem vm_built_only_when_absent_witness:
  "\<exists>m s1 t. after_read (demo_reconciler demo_wanted) ''m1'' (demo_after [] None None) m s1 \<and> wants_vm m \<and>
     vm_absent demo_env (rm_actuator (demo_reconciler demo_wanted)) s1 t"
proof -
  let ?r = "demo_reconciler demo_wanted" and ?s = "demo_after [] None None"
  obtain res s' where run: "machine_Reconcile demo_env ?r ''m1'' ?s = (res, s')" by fastforce
  obtain params where c: "(CreateVMCall ''c1'' ''t1'' ''m1'' params, True) \<in> set (calls s')"
    using demo_wanted_run unfolding run by auto
  have old: "calls s' = calls ?s @ calls s'" by (simp add: demo_after_def)
  from vm_built_only_when_absent [OF run old c] show ?thesis by auto
qed

text \<open>C38: When the engine cannot be reached at the moment \<open>Create\<close> asks for a client, right after
  \<open>Exists\<close> said no, the Machine is marked \<open>Failed\<close> with the reason of an invalid configuration, by
  a patch of its status, and the reconciliation ends without an error and without a requeue.
  From then on every reconciliation that reads the Machine with the phase stored here, and
  still valid, not deleted and with its finalizer, does nothing but that read: the failure
  of the connection is not retried. The API server is assumed to take every write, with the
  status as a subresource that only the patch of the status changes, and the provider
  status, if there is one, to be rewritable.\<close>

theorem unreachable_engine_fails_machine_for_good:
  assumes "act_client (rm_actuator r) = Some (rm_Client r)" and "server_stores (rm_Client r) st" and "markable r"
    and "after_read r request s m s1" and "wants_vm m"
    and "ProviderSpecFromRawExtension (env_codec E) (mc_ProviderSpecValue m) = Inr spec"
    and "Exists E (rm_actuator r) s1 = (Val False, t)" and "Get E (act_cachedOVirtClient (rm_actuator r)) t = (Fail e, u)"
  shows "\<exists>s' pre base. machine_Reconcile E r request s = (Val (ResultNoRequeue, None), s') \<and>
     machineIsFailed (machine s') \<and> mst_ErrorReason (mc_Status (machine s')) = Some InvalidConfigurationMachineError \<and>
     calls s' = pre @ [(PatchMachineStatusCall base (machine s'), True)] \<and>
     (\<forall>E' v m' v1. after_read r request v m' v1 \<and> mst_Phase (mc_Status m') = mst_Phase (mc_Status (machine s')) \<and>
        \<not> machine_invalid m' \<and> \<not> mc_Deleted m' \<and> has_finalizer m' \<longrightarrow>
        machine_Reconcile E' r request v = (Val (ResultNoRequeue, None), v1))"
proof -
  have m: "machine s1 = m" using assms(4) by (auto simp: after_read_def)
  have t: "machine t = m" using Exists_False(2) [OF assms(7)] m by simp
  have u: "machine u = m" using preservesD [OF preserves_cache_ops(1) assms(8)] t by simp
  let ?msg = "''failed to create connection to oVirt API: '' @ error_string e" and ?R = InvalidConfigurationMachineError
  let ?v = "error_sent (rm_Client r) st ''Create'' ?R ?msg u"
  have create: "Create E (rm_actuator r) t = (Fail (MachineError ?R ?msg), ?v)"
  proof -
    have "provider_spec E t = (Val spec, t)" using t assms(6) by (simp add: provider_spec_def)
    note 1 = on_error_Val [where m = "provider_spec E" and s = t, OF this]
    note 2 = on_error_sent [where m = "Get E (act_cachedOVirtClient (rm_actuator r))" and s = t, OF assms(1,2,8)]
    show ?thesis by (simp only: Create_def bind_run(1) [where m = "on_error a b c d e" and s = t for a b c d e, OF 1]
          bind_run(2) [where m = "on_error a b c d e" and s = t for a b c d e, OF 2])
  qed
  obtain s' base pre a ps where st: "updateStatus r phaseFailed (Some (MachineError ?R ?msg)) ?v = (Val (), s')"
    and ms: "machine s' = (machine ?v)\<lparr>mc_Annotations := a, mc_Status := (st (world ?v) (mc_Name (machine ?v)))
      \<lparr>mst_ProviderStatus := ps, mst_Phase := Some phaseFailed, mst_ErrorReason := Some ?R, mst_ErrorMessage := Some ?msg\<rparr>\<rparr>"
    and cs: "calls s' = calls ?v @ pre @ [(PatchMachineStatusCall base (machine s'), True)]"
    using updateStatus_failed_stored [OF assms(2,3), of ?R ?msg ?v] by blast
  have inv: "isInvalidMachineConfigurationError (MachineError ?R ?msg)"
    by (simp add: isInvalidMachineConfigurationError_def)
  have pres: "reconcile_present E r s1 = (Val (ResultNoRequeue, None), s')"
    using reconcile_present_Create_fails [OF _ assms(7) _ create inv st] assms(5) m t by simp
  have run: "machine_Reconcile E r request s = (Val (ResultNoRequeue, None), s')"
    using assms(4,5) pres
    by (auto simp: after_read_def machine_Reconcile_def api_def set_machine_def reconcile_read_def wants_vm_def has_finalizer_def)
  have f: "machineIsFailed (machine s')" by (simp add: machineIsFailed_def ms stringPointerDeref_def)
  have later: "machine_Reconcile E' r request v = (Val (ResultNoRequeue, None), v1)"
    if "after_read r request v m' v1 \<and> mst_Phase (mc_Status m') = mst_Phase (mc_Status (machine s')) \<and>
        \<not> machine_invalid m' \<and> \<not> mc_Deleted m' \<and> has_finalizer m'" for E' v m' v1
    using failed_machine_is_left_alone [of r request v m' v1 E'] that f by (simp add: machineIsFailed_def)
  show ?thesis
    by (rule exI [of _ s'], rule exI [of _ "calls ?v @ pre"], rule exI [of _ base])
      (use run f ms cs later in \<open>simp add: error_sent_def\<close>)
qed

theorem unreachable_engine_fails_machine_for_good_witness:
  "\<exists>s'. machine_Reconcile demo_down (demo_reconciler demo_wanted) ''m1'' demo_flaky = (Val (ResultNoRequeue, None), s') \<and>
     machineIsFailed (machine s')"
proof -
  let ?r = "demo_reconciler demo_wanted"
  let ?s1 = "demo_flaky\<lparr>calls := [(GetMachineCall ''m1'', True)], machine := demo_wanted\<rparr>"
  let ?t = "?s1\<lparr>world := \<lparr>dw_vm = None, dw_node = Some demo_node\<rparr>, calls := [(GetMachineCall ''m1'', True), (TestCall, True), (GetVMByNameCall ''m1'', False)]\<rparr>"
  have k: "act_client (rm_actuator ?r) = Some (rm_Client ?r)" and srv: "server_stores (rm_Client ?r) (\<lambda>w n. mc_Status demo_wanted)"
    using demo_server_stores(1) by simp_all
  have rd: "after_read ?r ''m1'' demo_flaky demo_wanted ?s1"
    by (simp add: after_read_def demo_flaky_def demo_sys_def)
  have w: "wants_vm demo_wanted" using demo_wanted_simps by (simp add: wants_vm_def has_finalizer_def)
  have sp: "ProviderSpecFromRawExtension (env_codec demo_down) (mc_ProviderSpecValue demo_wanted) = Inr (Some demo_spec)"
    using demo_codec_spec by (simp add: demo_down_def demo_wanted_def)
  have g: "Get demo_down 0 ?s1 = (Val demo_flaky_engine, ?s1\<lparr>calls := calls ?s1 @ [(TestCall, True)]\<rparr>)"
    by (simp add: Get_def needs_build_def read_cache_run demo_flaky_def demo_sys_def bind_def attempt_def api_def demo_flaky_engine_def)
  have ex: "Exists demo_down (rm_actuator ?r) ?s1 = (Val False, ?t)"
    by (simp add: Exists_def on_error_Val g newMachineScope_def vm_exists_def demo_wanted_simps GetVMByName_def)
      (simp add: demo_flaky_def demo_flaky_engine_def demo_sys_def demo_GetVMByName_def newError_def)
  have "\<exists>e u. Get demo_down (act_cachedOVirtClient (rm_actuator ?r)) ?t = (Fail e, u)"
    by (simp add: Get_def needs_build_def buildClient_def read_cache_run write_cache_def create_func_def demo_flaky_def
        demo_sys_def bind_def attempt_def api_def demo_flaky_engine_def CreateNewOVirtClient_def demo_down_def demo_credentials_def)
  then obtain e u where "Get demo_down (act_cachedOVirtClient (rm_actuator ?r)) ?t = (Fail e, u)" by blast
  from unreachable_engine_fails_machine_for_good [OF k srv demo_server_stores(2) rd w sp ex this] show ?thesis by blast
qed

end
