(* ===== verification/Work_Queue.thy ===== *)
theory Work_Queue
  imports Machine_Controller_Correct
begin

text \<open>
  What becomes of a request after it was reconciled: the work queue of the controller library
  (\<open>reconcileHandler\<close> of controller-runtime), which runs the three controllers of the process.
  An error puts the request back with the rate limiter's delay, whatever the result asks for;
  else a positive delay puts it back after that time; else the request is dropped. The queue
  itself and the rate limiter are not modelled, only what is asked of them. With it the
  theory shows what becomes of the requests of the Node controllers, and of a Machine that is
  being deleted: it is never dropped before its finalizer is gone, and when engine and API
  server do what they are asked, one reconciliation gets it there.
\<close>

datatype queue_op = AddRateLimited string | AddAfter string int | Forget string

definition reconcileHandler :: "string \<Rightarrow> Result \<times> gerr option \<Rightarrow> queue_op list" where
  "reconcileHandler req outcome =
     (case outcome of (result, err) \<Rightarrow>
        if err \<noteq> None then [AddRateLimited req]
        else if res_RequeueAfter result > 0 then [Forget req, AddAfter req (res_RequeueAfter result)]
        else if res_Requeue result then [AddRateLimited req]
        else [Forget req])"

definition comes_back :: "string \<Rightarrow> Result \<times> gerr option \<Rightarrow> bool" where
  "comes_back req outcome \<longleftrightarrow> AddRateLimited req \<in> set (reconcileHandler req outcome) \<or>
     (\<exists>t > 0. AddAfter req t \<in> set (reconcileHandler req outcome))"

lemma comes_back_simps [simp]:
  "comes_back req (res, Some e)" "comes_back req (requeueAfter, None)"
  "\<not> comes_back req (ResultNoRequeue, None)"
  by (simp_all add: comes_back_def reconcileHandler_def requeueAfter_def ResultNoRequeue_def)

lemma delayed_comes_back [simp]: "comes_back req (delayIfRequeueAfterError e)"
  by (cases "as_requeue_after e") (auto simp: comes_back_def reconcileHandler_def delayIfRequeueAfterError_def)

section \<open>The Node controllers\<close>

text \<open>\<open>returns Q m\<close>: the values of \<open>m\<close> satisfy \<open>Q\<close>.\<close>

definition returns :: "('a \<Rightarrow> bool) \<Rightarrow> ('w sys, 'a) go \<Rightarrow> bool" where
  "returns Q m \<longleftrightarrow> (\<forall>s x s'. m s = (Val x, s') \<longrightarrow> Q x)"

lemma returnsD: "returns Q m \<Longrightarrow> m s = (Val x, s') \<Longrightarrow> Q x"
  unfolding returns_def by blast

lemma returns_ret: "Q x \<Longrightarrow> returns Q (ret x)"
  by (simp add: returns_def)

lemma returns_bind: "(\<And>x. returns Q (k x)) \<Longrightarrow> returns Q (bind m k)"
  unfolding returns_def by (blast elim: bind_ValE)

lemma returns_if: "(b \<Longrightarrow> returns Q m) \<Longrightarrow> (\<not> b \<Longrightarrow> returns Q n) \<Longrightarrow> returns Q (if b then m else n)"
  by simp

lemma returns_case:
  "(\<And>e. returns Q (h e)) \<Longrightarrow> (\<And>x. returns Q (k x)) \<Longrightarrow> returns Q (case y of Inl e \<Rightarrow> h e | Inr x \<Rightarrow> k x)"
  "(z = None \<Longrightarrow> returns Q n) \<Longrightarrow> (\<And>x. z = Some x \<Longrightarrow> returns Q (l x)) \<Longrightarrow> returns Q (case z of None \<Rightarrow> n | Some x \<Rightarrow> l x)"
  "(\<And>a b. returns Q (p a b)) \<Longrightarrow> returns Q (case u of (a, b) \<Rightarrow> p a b)"
  by (simp_all split: sum.split option.split prod.split)

lemmas returns_intros = returns_bind returns_if returns_case returns_ret

definition node_outcome :: "Result \<times> gerr option \<Rightarrow> bool" where
  "node_outcome out \<longleftrightarrow> snd out \<noteq> None \<or> fst out = ResultNoRequeue \<or> fst out = ResultRequeueAfter retryIntervalVMDownSec"

lemma node_outcome_queue:
  "node_outcome out \<Longrightarrow> reconcileHandler req out \<in>
     {[AddRateLimited req], [Forget req], [Forget req, AddAfter req 60]}"
  by (cases out) (auto simp: node_outcome_def reconcileHandler_def ResultNoRequeue_def ResultRequeueAfter_def retryIntervalVMDownSec_def)

lemma returns_node_Reconcile: "returns node_outcome (node_Reconcile E b req)"
  unfolding node_Reconcile_def node_vm_result_def
  by (intro returns_intros) (simp_all add: node_outcome_def Wrap_def)

lemma returns_providerID_Reconcile: "returns node_outcome (providerID_Reconcile E b req)"
  unfolding providerID_Reconcile_def Let_def
  by (intro returns_intros) (simp_all add: node_outcome_def Wrap_def)


section \<open>Deleting a Machine\<close>

text \<open>The reconciliation ended with a successful write of the Machine without its finalizer.\<close>

definition released :: "'w sys \<Rightarrow> bool" where
  "released s \<longleftrightarrow> (\<exists>pre m. calls s = pre @ [(UpdateMachineCall m, True)] \<and> MachineFinalizer \<notin> set (mc_Finalizers m))"

text \<open>Every outcome brings the request back, unless the Machine was released.\<close>

definition persists :: "string \<Rightarrow> 'w reconcile \<Rightarrow> bool" where
  "persists req m \<longleftrightarrow> (\<forall>s out s'. m s = (Val out, s') \<longrightarrow> comes_back req out \<or> released s')"

lemma persistsD: "persists req m \<Longrightarrow> m s = (Val out, s') \<Longrightarrow> comes_back req out \<or> released s'"
  by (simp only: persists_def)

lemma persists_ret: "comes_back req out \<Longrightarrow> persists req (ret out)"
  by (simp add: persists_def)

lemma persists_bind: "(\<And>x. persists req (k x)) \<Longrightarrow> persists req (bind m k)"
  unfolding persists_def by (blast elim: bind_ValE)

lemma persists_or_return: "(\<And>x. persists req (k x)) \<Longrightarrow> persists req (or_return m k)"
  unfolding or_return_def by (intro persists_bind) (auto intro: persists_ret split: sum.split)

lemma persists_if: "(b \<Longrightarrow> persists req m) \<Longrightarrow> (\<not> b \<Longrightarrow> persists req n) \<Longrightarrow> persists req (if b then m else n)"
  by simp

lemma persists_case:
  "(\<And>e. persists req (h e)) \<Longrightarrow> (\<And>x. persists req (k x)) \<Longrightarrow> persists req (case y of Inl e \<Rightarrow> h e | Inr x \<Rightarrow> k x)"
  by (simp split: sum.split)

lemma persists_release:
  "persists req (bind (set_machine (\<lambda>m. m\<lparr>mc_Finalizers := filter (\<lambda>f. f \<noteq> MachineFinalizer) (mc_Finalizers m)\<rparr>)) (\<lambda>_.
     or_return (update_machine r) (\<lambda>_. ret (ResultNoRequeue, None))))"
  unfolding persists_def
proof (intro allI impI)
  fix s out s'
  assume "bind (set_machine (\<lambda>m. m\<lparr>mc_Finalizers := filter (\<lambda>f. f \<noteq> MachineFinalizer) (mc_Finalizers m)\<rparr>)) (\<lambda>_.
     or_return (update_machine r) (\<lambda>_. ret (ResultNoRequeue, None))) s = (Val out, s')"
  then show "comes_back req out \<or> released s'"
    by (cases "kc_UpdateMachine (rm_Client r)
          ((machine s)\<lparr>mc_Finalizers := filter (\<lambda>f. f \<noteq> MachineFinalizer) (mc_Finalizers (machine s))\<rparr>) (world s)")
       (auto simp: set_machine_def update_machine_def or_return_def api_def bind_def attempt_def released_def split: sum.splits)
qed

lemma persists_await_gone: "persists req (await_gone E r)"
  unfolding await_gone_def
  by (intro persists_or_return persists_if persists_bind persists_ret persists_release) simp

text \<open>The status of a Machine is written without touching its finalizers and hooks.\<close>

definition status_patch_keeps :: "'w k8s_client \<Rightarrow> bool" where
  "status_patch_keeps k \<longleftrightarrow> (\<forall>b m m'. answers (kc_PatchMachineStatus k b m) m' \<longrightarrow>
     mc_Finalizers m' = mc_Finalizers m \<and> mc_PreDrain m' = mc_PreDrain m \<and> mc_PreTerminate m' = mc_PreTerminate m)"

definition unhooked :: "Machine \<Rightarrow> bool" where
  "unhooked m \<longleftrightarrow> has_finalizer m \<and> mc_PreDrain m = [] \<and> mc_PreTerminate m = []"

lemma updateStatus_unhooked:
  assumes "status_patch_keeps (rm_Client r)" and "phase \<noteq> phaseFailed" and "unhooked (machine s)"
    and "updateStatus r phase cause s = (x, s')"
  shows "unhooked (machine s')"
proof -
  let ?m = "(machine s)\<lparr>mc_Status := (mc_Status (machine s))
      \<lparr>mst_Phase := Some phase, mst_ErrorReason := None, mst_ErrorMessage := None\<rparr>\<rparr>"
  obtain y w where a: "kc_PatchMachineStatus (rm_Client r) (machine s) ?m (world s) = (y, w)" by fastforce
  have "unhooked m'" if "y = Inr m'" for m'
  proof -
    have "answers (kc_PatchMachineStatus (rm_Client r) (machine s) ?m) m'"
      using a that by (auto simp: answers_def)
    with assms(1,3) show ?thesis unfolding status_patch_keeps_def unhooked_def has_finalizer_def by fastforce
  qed
  moreover have "unhooked ?m" using assms(3) by (simp add: unhooked_def has_finalizer_def)
  ultimately show ?thesis using assms(2,4) a
    by (cases y) (auto simp: updateStatus_def failure_fields_def patch_status_def api_def set_machine_def bind_def)
qed

lemma gets_run: "bind (gets f) k s = k (f s) s"
  by simp

lemma attempt_then: "m s = (Fail e, s1) \<Longrightarrow> bind (attempt m) k s = k (Inl e) s1"
  "m s = (Val x, s1) \<Longrightarrow> bind (attempt m) k s = k (Inr x) s1"
  by simp_all

lemma persists_terminate:
  assumes "mc_PreTerminate (machine s) = []" and "terminate_instance E r s = (Val out, s')"
  shows "comes_back req out \<or> released s'"
proof -
  have "persists req (bind (attempt (Delete E (rm_actuator r))) (\<lambda>d.
       bind (gets machine) (\<lambda>m. case d of
         Inl err \<Rightarrow>
           if mst_Addresses (mc_Status m) \<noteq> [] \<or> \<not> isInvalidMachineConfigurationError err
           then ret (delayIfRequeueAfterError err) else await_gone E r
       | Inr _ \<Rightarrow> await_gone E r)))" (is "persists req ?m")
    by (intro persists_bind persists_case persists_if persists_ret persists_await_gone delayed_comes_back)
  moreover have "?m s = (Val out, s')" using assms(2) unfolding terminate_instance_def gets_run by (simp only: assms(1) simp_thms if_False)
  ultimately show ?thesis by (rule persistsD)
qed

lemma persists_deleted_tail:
  assumes "unhooked (machine s)"
    and "bind (gets machine) (\<lambda>m.
     if MachineFinalizer \<notin> set (mc_Finalizers m) then ret (ResultNoRequeue, None)
     else (case (excludes_draining m, mst_NodeRef (mc_Status m)) of
         (False, Some n) \<Rightarrow>
           if mc_PreDrain m \<noteq> [] then ret (ResultNoRequeue, None)
           else
             bind (attempt (api (DrainNodeCall n) (rm_drain r n))) (\<lambda>d.
             case d of
               Inl err \<Rightarrow> ret (delayIfRequeueAfterError err)
             | Inr _ \<Rightarrow> terminate_instance E r)
       | _ \<Rightarrow> terminate_instance E r)) s = (Val out, s')"
  shows "comes_back req out \<or> released s'"
proof -
  note run = assms(2) [unfolded gets_run]
  have f: "MachineFinalizer \<in> set (mc_Finalizers (machine s))" "mc_PreDrain (machine s) = []" "mc_PreTerminate (machine s) = []"
    using assms(1) by (simp_all add: unhooked_def has_finalizer_def)
  show ?thesis
  proof (cases "\<exists>n. \<not> excludes_draining (machine s) \<and> mst_NodeRef (mc_Status (machine s)) = Some n")
    case True
    then obtain n where n: "\<not> excludes_draining (machine s)" "mst_NodeRef (mc_Status (machine s)) = Some n" by blast
    with run f have d: "bind (attempt (api (DrainNodeCall n) (rm_drain r n))) (\<lambda>d. case d of
               Inl err \<Rightarrow> ret (delayIfRequeueAfterError err)
             | Inr _ \<Rightarrow> terminate_instance E r) s = (Val out, s')"
      by (simp only: simp_thms if_False prod.case bool.case option.case)
    obtain y w where y: "rm_drain r n (world s) = (y, w)" by fastforce
    show ?thesis
    proof (cases y)
      case (Inl e)
      with y have "api (DrainNodeCall n) (rm_drain r n) s = (Fail e, s\<lparr>world := w, calls := calls s @ [(DrainNodeCall n, False)]\<rparr>)"
        by (simp add: api_def)
      from d [unfolded attempt_then(1) [where m = "api (DrainNodeCall n) (rm_drain r n)" and s = s, OF this]] show ?thesis by auto
    next
      case (Inr u)
      with y have "api (DrainNodeCall n) (rm_drain r n) s = (Val u, s\<lparr>world := w, calls := calls s @ [(DrainNodeCall n, True)]\<rparr>)"
        by (simp add: api_def)
      from d [unfolded attempt_then(2) [where m = "api (DrainNodeCall n) (rm_drain r n)" and s = s, OF this]] f(3) show ?thesis by (intro persists_terminate) simp_all
    qed
  next
    case False
    with run f have "terminate_instance E r s = (Val out, s')"
      by (cases "mst_NodeRef (mc_Status (machine s))"; cases "excludes_draining (machine s)")
        (simp_all only: simp_thms if_False prod.case bool.case option.case ex_simps option.inject)
    with f(3) show ?thesis by (intro persists_terminate)
  qed
qed

lemma persists_reconcile_deleted:
  assumes "status_patch_keeps (rm_Client r)" and "unhooked (machine s)" and "reconcile_deleted E r s = (Val out, s')"
  shows "comes_back req out \<or> released s'"
proof -
  obtain x s1 where st: "updateStatus r phaseDeleting None s = (x, s1)" by fastforce
  have u: "unhooked (machine s1)"
    by (rule updateStatus_unhooked [OF assms(1) _ assms(2) st]) (simp add: phase_defs)
  show ?thesis
  proof (cases x)
    case (Val v)
    note run = or_return_run(1) [where m = "updateStatus r phaseDeleting None" and s = s, OF st [unfolded Val]]
    from persists_deleted_tail [OF u assms(3) [unfolded reconcile_deleted_def run]] show ?thesis .
  next
    case (Fail e)
    with assms(3) st have "out = (ResultNoRequeue, Some e)" by (simp add: reconcile_deleted_def or_return_run)
    then show ?thesis by simp
  next
    case (Crash p)
    with assms(3) st show ?thesis by (simp add: reconcile_deleted_def or_return_def)
  qed
qed

section \<open>One reconciliation is enough\<close>

text \<open>
  A contract of an engine that does what it is asked: \<open>vms w n\<close> is the identifier of the VM of
  name \<open>n\<close>. A lookup is answered from it, a VM there is can be stopped, waited for and removed,
  and nothing but the removal changes it.
\<close>

definition answers_lookup :: "string option \<Rightarrow> vm option \<times> gerr option \<Rightarrow> bool" where
  "answers_lookup known answer \<longleftrightarrow> (case known of
       Some i \<Rightarrow> \<exists>v. answer = (Some v, None) \<and> vm_id v = i
     | None \<Rightarrow> \<exists>v e. answer = (v, Some e) \<and> HasErrorCode e ENotFound = Val True)"

definition engine_obeys :: "'w ovirt_client \<Rightarrow> ('w \<Rightarrow> string \<Rightarrow> string option) \<Rightarrow> bool" where
  "engine_obeys C vms \<longleftrightarrow> (\<forall>w n.
     fst (oc_Test C w) = Inr () \<and> vms (snd (oc_Test C w)) = vms w \<and>
     answers_lookup (vms w n) (fst (oc_GetVMByName C n w)) \<and> vms (snd (oc_GetVMByName C n w)) = vms w \<and>
     (\<forall>i. vms w n = Some i \<longrightarrow>
        fst (oc_StopVM C i True w) = Inr () \<and> vms (snd (oc_StopVM C i True w)) = vms w \<and>
        (\<exists>v. fst (oc_WaitForVMStatus C i VMStatusDown w) = Inr v) \<and> vms (snd (oc_WaitForVMStatus C i VMStatusDown w)) = vms w \<and>
        fst (oc_RemoveVM C i w) = Inr () \<and> vms (snd (oc_RemoveVM C i w)) n = None))"

definition keeps_vms :: "'w k8s_client \<Rightarrow> ('w \<Rightarrow> string \<Rightarrow> string option) \<Rightarrow> bool" where
  "keeps_vms k vms \<longleftrightarrow> (\<forall>b m n w. vms (snd (kc_PatchMachineStatus k b m w)) = vms w \<and>
     vms (snd (kc_UpdateMachine k m w)) = vms w \<and> vms (snd (kc_GetMachine k n w)) = vms w)"

text \<open>\<open>has_client act C s\<close>: the cache of the actuator holds the client \<open>C\<close>.\<close>

definition has_client :: "'w OvirtActuator \<Rightarrow> 'w ovirt_client \<Rightarrow> 'w sys \<Rightarrow> bool" where
  "has_client act C s \<longleftrightarrow> act_cachedOVirtClient act < length (caches s) \<and>
     cc_client (caches s ! act_cachedOVirtClient act) = Some C"

text \<open>Between \<open>s\<close> and \<open>t\<close> only the log, the events and the rest of the world changed.\<close>

definition alike :: "('w \<Rightarrow> string \<Rightarrow> string option) \<Rightarrow> 'w sys \<Rightarrow> 'w sys \<Rightarrow> bool" where
  "alike vms s t \<longleftrightarrow> machine t = machine s \<and> caches t = caches s \<and> vms (world t) = vms (world s)"

lemma Get_obeyed:
  assumes "has_client act C s" and "engine_obeys C vms"
  shows "\<exists>t. Get E (act_cachedOVirtClient act) s = (Val C, t) \<and> alike vms s t"
proof -
  let ?t = "s\<lparr>world := snd (oc_Test C (world s)), calls := calls s @ [(TestCall, True)]\<rparr>"
  have "api TestCall (oc_Test C) s = (Val (), ?t)" and t: "alike vms s ?t"
    using assms(2) by (auto intro!: api_stored simp: engine_obeys_def alike_def)
  with assms(1) have "needs_build (caches s ! act_cachedOVirtClient act) s = (Val False, ?t)"
    by (simp add: needs_build_def has_client_def)
  note run = bind_run(1) [where m = "needs_build (caches s ! act_cachedOVirtClient act)" and s = s, OF this]
  from assms(1) t show ?thesis by (simp add: Get_def read_cache_run has_client_def run)
qed

lemma lookup_obeyed:
  assumes "engine_obeys C vms"
  obtains v err t where "GetVMByName C n s = (Val (v, err), t)" and "alike vms s t"
    and "answers_lookup (vms (world s) n) (v, err)"
proof -
  obtain v err w where q: "oc_GetVMByName C n (world s) = ((v, err), w)" by (metis prod.exhaust)
  with assms have "answers_lookup (vms (world s) n) (v, err)" "vms w = vms (world s)"
    unfolding engine_obeys_def by (metis fst_conv, metis snd_conv)
  with q show thesis
    by (intro that [of v err "s\<lparr>world := w, calls := calls s @ [(GetVMByNameCall n, err = None)]\<rparr>"])
      (simp_all add: GetVMByName_def alike_def)
qed

lemma delete_found_obeyed:
  assumes "engine_obeys C vms" and "vms (world s) n = Some i"
  shows "\<exists>t. delete_found C i s = (Val (), t) \<and> machine t = machine s \<and> caches t = caches s \<and> vms (world t) n = None"
proof -
  define w1 where "w1 = snd (oc_StopVM C i True (world s))"
  define w2 where "w2 = snd (oc_WaitForVMStatus C i VMStatusDown w1)"
  have 1: "fst (oc_StopVM C i True (world s)) = Inr ()" "vms w1 n = Some i"
    using assms unfolding engine_obeys_def w1_def by metis+
  then obtain v where 2: "fst (oc_WaitForVMStatus C i VMStatusDown w1) = Inr v" "vms w2 n = Some i"
    using assms(1) unfolding engine_obeys_def w2_def by metis
  then have 3: "fst (oc_RemoveVM C i w2) = Inr ()" "vms (snd (oc_RemoveVM C i w2)) n = None"
    using assms(1) unfolding engine_obeys_def by metis+
  note [simp] = 1 2 3 w1_def [symmetric] w2_def [symmetric]
  show ?thesis by (simp add: delete_found_def api_stored)
qed

lemma Delete_obeyed:
  assumes "has_client act C s" and "engine_obeys C vms"
  shows "\<exists>t. Delete E act s = (Val (), t) \<and> machine t = machine s \<and> has_client act C t \<and> vms (world t) (mc_Name (machine s)) = None"
proof -
  obtain t1 where g: "Get E (act_cachedOVirtClient act) s = (Val C, t1)" and t1: "alike vms s t1"
    using Get_obeyed [OF assms] by blast
  let ?n = "mc_Name (machine s)"
  obtain v err t2 where q: "GetVMByName C ?n t1 = (Val (v, err), t2)" and t2: "alike vms t1 t2"
    and a: "answers_lookup (vms (world t1) ?n) (v, err)" by (rule lookup_obeyed [OF assms(2)])
  have "\<exists>t. delete \<lparr>ms_ovirtClient = C, ms_client = act_client act, ms_original = machine t1, ms_providerSpec = None\<rparr> t1 = (Val (), t) \<and>
    machine t = machine s \<and> caches t = caches s \<and> vms (world t) ?n = None"
  proof (cases "vms (world t1) ?n")
    case None
    with a q t1 t2 show ?thesis by (auto simp: delete_def answers_lookup_def alike_def)
  next
    case (Some i)
    with a obtain v' where "v = Some v'" "vm_id v' = i" "err = None" by (auto simp: answers_lookup_def)
    moreover have "vms (world t2) ?n = Some i" using Some t2 by (simp add: alike_def)
    note delete_found_obeyed [OF assms(2) this]
    ultimately show ?thesis using q t1 t2 by (auto simp: delete_def alike_def)
  qed
  then obtain t where "delete \<lparr>ms_ovirtClient = C, ms_client = act_client act, ms_original = machine t1, ms_providerSpec = None\<rparr> t1 = (Val (), t)"
    and "machine t = machine s" "caches t = caches s" "vms (world t) ?n = None" by blast
  with g assms(1) show ?thesis
    by (simp add: Delete_def on_error_Val newMachineScope_def has_client_def)
qed

lemma Exists_obeyed:
  assumes "has_client act C s" and "engine_obeys C vms" and "vms (world s) (mc_Name (machine s)) = None"
  shows "\<exists>t. Exists E act s = (Val False, t) \<and> alike vms s t"
proof -
  obtain t1 where g: "Get E (act_cachedOVirtClient act) s = (Val C, t1)" and t1: "alike vms s t1"
    using Get_obeyed [OF assms(1,2)] by blast
  obtain v err t2 where q: "GetVMByName C (mc_Name (machine s)) t1 = (Val (v, err), t2)" and t2: "alike vms t1 t2"
    and a: "answers_lookup (vms (world t1) (mc_Name (machine s))) (v, err)" by (rule lookup_obeyed [OF assms(2)])
  have "vms (world t1) (mc_Name (machine s)) = None" using t1 assms(3) by (simp add: alike_def)
  with a obtain e where e: "err = Some e" "HasErrorCode e ENotFound = Val True" by (auto simp: answers_lookup_def)
  then have "Exists E act s = (Val False, t2)"
    using g q t1 by (simp add: Exists_def on_error_Val newMachineScope_def vm_exists_def alike_def)
  with t1 t2 show ?thesis by (auto simp: alike_def)
qed

text \<open>The last steps of the deletion: the second lookup and the update without the finalizer.\<close>

definition finished :: "'w machine_reconciler \<Rightarrow> ('w \<Rightarrow> string \<Rightarrow> string option) \<Rightarrow> string \<Rightarrow> 'w sys \<Rightarrow> bool" where
  "finished r vms n s \<longleftrightarrow> (\<exists>pre sent. calls s = pre @ [(UpdateMachineCall sent, True)] \<and> mc_Name sent = n \<and>
       MachineFinalizer \<notin> set (mc_Finalizers sent)) \<and>
     MachineFinalizer \<notin> set (mc_Finalizers (machine s)) \<and> vms (world s) n = None"

lemma await_gone_obeyed:
  assumes "has_client (rm_actuator r) C s" and "engine_obeys C vms" and "vms (world s) (mc_Name (machine s)) = None"
    and "server_stores (rm_Client r) st" and "keeps_vms (rm_Client r) vms" and "mst_NodeRef (mc_Status (machine s)) = None"
  shows "\<exists>t. await_gone E r s = (Val (ResultNoRequeue, None), t) \<and> finished r vms (mc_Name (machine s)) t"
proof -
  obtain t1 where x: "Exists E (rm_actuator r) s = (Val False, t1)" and t1: "alike vms s t1"
    using Exists_obeyed [OF assms(1-3)] by blast
  let ?m = "(machine s)\<lparr>mc_Finalizers := filter (\<lambda>f. f \<noteq> MachineFinalizer) (mc_Finalizers (machine s))\<rparr>"
  let ?w = "snd (kc_UpdateMachine (rm_Client r) ?m (world t1))"
  let ?t = "t1\<lparr>machine := ?m\<lparr>mc_Status := st (world t1) (mc_Name (machine s))\<rparr>, world := ?w, calls := calls t1 @ [(UpdateMachineCall ?m, True)]\<rparr>"
  have "update_machine r (t1\<lparr>machine := ?m\<rparr>) = (Val (), ?t)"
    by (simp add: update_machine_def stored_writes [OF assms(4)] set_machine_def)
  then have "await_gone E r s = (Val (ResultNoRequeue, None), ?t)"
    using x t1 assms(6)
    unfolding await_gone_def or_return_run(1) [where m = "Exists E (rm_actuator r)", OF x]
    by (simp add: or_return_def set_machine_def alike_def)
  moreover have "finished r vms (mc_Name (machine s)) ?t"
    using assms(3,5) t1 by (simp add: finished_def keeps_vms_def alike_def)
  ultimately show ?thesis by blast
qed

lemma terminate_obeyed:
  assumes "has_client (rm_actuator r) C s" and "engine_obeys C vms"
    and "server_stores (rm_Client r) st" and "keeps_vms (rm_Client r) vms"
    and "mst_NodeRef (mc_Status (machine s)) = None" and "mc_PreTerminate (machine s) = []"
  shows "\<exists>t. terminate_instance E r s = (Val (ResultNoRequeue, None), t) \<and> finished r vms (mc_Name (machine s)) t"
proof -
  obtain t1 where d: "Delete E (rm_actuator r) s = (Val (), t1)" and m: "machine t1 = machine s"
    and t1: "has_client (rm_actuator r) C t1" "vms (world t1) (mc_Name (machine s)) = None"
    using Delete_obeyed [OF assms(1,2)] by blast
  obtain t where "await_gone E r t1 = (Val (ResultNoRequeue, None), t)" and "finished r vms (mc_Name (machine s)) t"
    using await_gone_obeyed [where s = t1, OF t1(1) assms(2) _ assms(3,4)] m t1(2) assms(5) by auto
  with assms(6) d show ?thesis by (simp add: terminate_instance_def)
qed

lemma deleted_obeyed:
  assumes "has_client (rm_actuator r) C s" and "engine_obeys C vms"
    and "server_stores (rm_Client r) st" and "keeps_vms (rm_Client r) vms"
    and "mst_NodeRef (mc_Status (machine s)) = None" and "unhooked (machine s)"
  shows "\<exists>t. reconcile_deleted E r s = (Val (ResultNoRequeue, None), t) \<and> finished r vms (mc_Name (machine s)) t"
proof -
  let ?m = "(machine s)\<lparr>mc_Status := (mc_Status (machine s))
      \<lparr>mst_Phase := Some phaseDeleting, mst_ErrorReason := None, mst_ErrorMessage := None\<rparr>\<rparr>"
  let ?w = "snd (kc_PatchMachineStatus (rm_Client r) (machine s) ?m (world s))"
  let ?t = "s\<lparr>machine := ?m, world := ?w, calls := calls s @ [(PatchMachineStatusCall (machine s) ?m, True)]\<rparr>"
  have st: "updateStatus r phaseDeleting None s = (Val (), ?t)"
    by (simp add: updateStatus_def phase_defs failure_fields_def patch_status_def stored_writes [OF assms(3)] set_machine_def)
  obtain t where "terminate_instance E r ?t = (Val (ResultNoRequeue, None), t)" and "finished r vms (mc_Name (machine s)) t"
    using terminate_obeyed [where r = r and C = C and s = ?t and vms = vms and E = E, OF _ assms(2,3,4)] assms by (auto simp: has_client_def unhooked_def)
  with assms(5,6) show ?thesis
    unfolding reconcile_deleted_def or_return_run(1) [where m = "updateStatus r phaseDeleting None", OF st] gets_run
    by (simp add: unhooked_def has_finalizer_def split: bool.split)
qed

lemma machine_Reconcile_deleted:
  assumes "after_read r req s m s1" and "mc_Deleted m" and "\<not> machine_invalid m"
  shows "machine_Reconcile E r req s = reconcile_deleted E r s1"
  using assms by (auto simp: after_read_def machine_Reconcile_def api_def set_machine_def reconcile_read_def)

text \<open>A concrete deletion: the engine of the demo world still has the VM.\<close>

definition demo_vms :: "demo_world \<Rightarrow> string \<Rightarrow> string option" where
  "demo_vms w n = (case dw_vm w of None \<Rightarrow> None | Some v \<Rightarrow> if vm_name v = n then Some (vm_id v) else None)"

lemma demo_engine_obeys: "engine_obeys demo_engine demo_vms"
  by (auto simp: engine_obeys_def demo_engine_def demo_vms_def demo_GetVMByName_def answers_lookup_def newError_def
      split: option.splits)

definition demo_deleting :: "demo_world sys" where
  "demo_deleting = demo_after [] (Some (demo_vm ''m1'')) None"

lemma demo_deletion:
  "after_read (demo_reconciler demo_deleted) ''m1'' demo_deleting demo_deleted
     (demo_deleting\<lparr>calls := [(GetMachineCall ''m1'', True)], machine := demo_deleted\<rparr>)"
  "mc_Deleted demo_deleted" "\<not> machine_invalid demo_deleted" "unhooked demo_deleted"
  "mst_NodeRef (mc_Status demo_deleted) = None" "status_patch_keeps (rm_Client (demo_reconciler demo_deleted))"
  "server_stores (rm_Client (demo_reconciler demo_deleted)) (\<lambda>w n. mc_Status demo_deleted)" "keeps_vms (rm_Client (demo_reconciler demo_deleted)) demo_vms"
  "has_client (rm_actuator (demo_reconciler demo_deleted)) demo_engine demo_deleting" "engine_obeys demo_engine demo_vms"
  by (simp_all add: after_read_def demo_deleting_def demo_after_def demo_sys_def demo_deleted_def demo_machine_def
      machine_invalid_def MachineClusterIDLabel_def map_index_def unhooked_def has_finalizer_def MachineFinalizer_def
      status_patch_keeps_def answers_def server_stores_def keeps_vms_def has_client_def demo_engine_obeys)

lemma demo_deletion_run:
  "\<exists>s'. machine_Reconcile demo_env (demo_reconciler demo_deleted) ''m1'' demo_deleting = (Val (ResultNoRequeue, None), s')"
proof -
  let ?s = "demo_deleting\<lparr>calls := [(GetMachineCall ''m1'', True)], machine := demo_deleted\<rparr>"
  have "has_client (rm_actuator (demo_reconciler demo_deleted)) demo_engine ?s"
    using demo_deletion(9) by (simp add: has_client_def)
  from deleted_obeyed [OF this demo_deletion(10,7,8)] demo_deletion(4,5) show ?thesis
    by (auto simp: machine_Reconcile_deleted [OF demo_deletion(1-3)])
qed

section \<open>Properties\<close>

text \<open>C36: The two Node controllers never have a request wait for the default delay of 30 seconds
  they return: they return it with an error, and the queue answers an error with its own
  rate limiter and drops the delay. Only the 60 seconds for a VM that is down are waited for;
  a request without an error and without that delay is forgotten.\<close>

theorem default_delay_never_used:
  assumes "node_Reconcile E b req s = (Val (res, err), s') \<or> providerID_Reconcile E b req s = (Val (res, err), s')"
  shows "reconcileHandler req (res, err) =
     (if err \<noteq> None then [AddRateLimited req]
      else if res = ResultNoRequeue then [Forget req] else [Forget req, AddAfter req retryIntervalVMDownSec])"
proof -
  from assms have "node_outcome (res, err)"
    by (auto dest: returnsD [OF returns_node_Reconcile] returnsD [OF returns_providerID_Reconcile])
  then show ?thesis
    by (auto simp: node_outcome_def reconcileHandler_def ResultNoRequeue_def ResultRequeueAfter_def retryIntervalVMDownSec_def)
qed

theorem default_delay_never_used_witness:
  "\<exists>res err s'. node_Reconcile demo_env demo_base ''m1'' (demo_after [] None (Some demo_gone_node)) = (Val (res, err), s') \<and>
     res_RequeueAfter res = 30 \<and> reconcileHandler ''m1'' (res, err) = [AddRateLimited ''m1'']"
proof -
  obtain e s' where run: "node_Reconcile demo_env demo_base ''m1'' (demo_after [] None (Some demo_gone_node)) =
      (Val (ResultRequeueDefault, Some e), s')"
    unfolding demo_node_run by blast
  then have "reconcileHandler ''m1'' (ResultRequeueDefault, Some e) = [AddRateLimited ''m1'']"
    using default_delay_never_used [OF disjI1 [OF run]] by simp
  with run show ?thesis by (auto simp: ResultRequeueDefault_def requeueDefaultTime_def)
qed

text \<open>C7: A Machine that is being deleted, has the finalizer and no deletion hooks, is never
  forgotten half way: however a reconciliation of it ends, with whatever failure of the
  engine, the credentials or the API server, its request goes back to the queue, or the API
  server has taken the Machine without its finalizer. Only a panic, which ends the process,
  is excepted. The API server is assumed to leave finalizers and hooks alone when it writes
  a status.\<close>

theorem deletion_never_abandoned:
  assumes "after_read r req s m s1" and "mc_Deleted m" and "\<not> machine_invalid m" and "unhooked m"
    and "status_patch_keeps (rm_Client r)" and "machine_Reconcile E r req s = (Val out, s')"
  shows "comes_back req out \<or> released s'"
proof -
  have "unhooked (machine s1)" using assms(1,4) by (auto simp: after_read_def)
  moreover have "reconcile_deleted E r s1 = (Val out, s')"
    using assms(6) by (simp add: machine_Reconcile_deleted [OF assms(1-3)])
  ultimately show ?thesis by (rule persists_reconcile_deleted [OF assms(5)])
qed

theorem deletion_never_abandoned_witness:
  "\<exists>out s'. machine_Reconcile demo_env (demo_reconciler demo_deleted) ''m1'' demo_deleting = (Val out, s') \<and>
     (comes_back ''m1'' out \<or> released s')"
proof -
  obtain s' where run: "machine_Reconcile demo_env (demo_reconciler demo_deleted) ''m1'' demo_deleting = (Val (ResultNoRequeue, None), s')"
    using demo_deletion_run by blast
  from deletion_never_abandoned [OF demo_deletion(1-4,6) run] run show ?thesis by blast
qed



end
