(* ===== verification/Deep_Copy.thy ===== *)
theory Deep_Copy
  imports Provider_API "HOL-Library.Sublist"
begin

text \<open>
  The deep copies of the API types (\<open>zz_generated.deepcopy.go\<close>) on an explicit heap. The
  rest of the development treats a spec as a value; here its pointers and slices are
  addresses, so that sharing shows. A heap is the list of its cells: an address is a
  position, allocation appends. A slice is its backing array with offset and length, and
  nil is \<open>None\<close>. \<open>ObjectMeta\<close> belongs to a library: its type, its copy and what it stores are
  parameters. \<open>new(T)\<close> followed by the assignment of the whole value is one allocation, and
  \<open>DeepCopyInto\<close> maps the value of \<open>*in\<close> to the value it leaves in \<open>*out\<close>.
\<close>

section \<open>The heap\<close>

type_synonym addr = nat
type_synonym slice = "(addr \<times> nat \<times> nat) option"
type_synonym byte = "8 word"

record TypeMeta =
  tm_Kind :: string
  tm_APIVersion :: string

record 'm spec_obj =
  so_TypeMeta :: TypeMeta
  so_ObjectMeta :: 'm
  so_UserDataSecret :: "addr option"
  so_CredentialsSecret :: "addr option"
  so_Id :: string
  so_Name :: string
  so_TemplateName :: string
  so_ClusterId :: string
  so_InstanceTypeId :: string
  so_CPU :: "addr option"
  so_MemoryMB :: int32
  so_OSDisk :: "addr option"
  so_VMType :: string
  so_NetworkInterfaces :: slice
  so_AffinityGroupsNames :: slice
  so_AutoPinningPolicy :: string
  so_Hugepages :: int32
  so_GuaranteedMemoryMB :: int32
  so_Clone :: "addr option"
  so_Sparse :: "addr option"
  so_Format :: string
  so_StorageDomainId :: string

record 'm status_obj =
  sto_TypeMeta :: TypeMeta
  sto_ObjectMeta :: 'm
  sto_InstanceID :: "addr option"
  sto_InstanceState :: "addr option"

record 'm cluster_spec_obj =
  cso_TypeMeta :: TypeMeta
  cso_ObjectMeta :: 'm

record 'm cluster_status_obj =
  cst_TypeMeta :: TypeMeta
  cst_ObjectMeta :: 'm
  cst_CACertificate :: slice
  cst_CAPrivateKey :: slice

datatype ('m, 'c) cell =
    RefCell LocalObjectReference
  | CPUCell CPU
  | DiskCell Disk
  | NICCell NetworkInterface
  | BoolCell bool
  | StringCell string
  | StringsCell "string list"
  | BytesCell "byte list"
  | NICPtrsCell "addr option list"
  | SpecCell "'m spec_obj"
  | StatusCell "'m status_obj"
  | ClusterSpecCell "'m cluster_spec_obj"
  | ClusterStatusCell "'m cluster_status_obj"
  | ForeignCell 'c

type_synonym ('m, 'c) heap = "('m, 'c) cell list"

text \<open>What a cell holds, seen at a type; Go's types rule the other answers out.\<close>

definition un_ref :: "('m, 'c) cell \<Rightarrow> LocalObjectReference option" where
  "un_ref c = (case c of RefCell x \<Rightarrow> Some x | _ \<Rightarrow> None)"
definition un_cpu :: "('m, 'c) cell \<Rightarrow> CPU option" where
  "un_cpu c = (case c of CPUCell x \<Rightarrow> Some x | _ \<Rightarrow> None)"
definition un_disk :: "('m, 'c) cell \<Rightarrow> Disk option" where
  "un_disk c = (case c of DiskCell x \<Rightarrow> Some x | _ \<Rightarrow> None)"
definition un_nic :: "('m, 'c) cell \<Rightarrow> NetworkInterface option" where
  "un_nic c = (case c of NICCell x \<Rightarrow> Some x | _ \<Rightarrow> None)"
definition un_bool :: "('m, 'c) cell \<Rightarrow> bool option" where
  "un_bool c = (case c of BoolCell x \<Rightarrow> Some x | _ \<Rightarrow> None)"
definition un_string :: "('m, 'c) cell \<Rightarrow> string option" where
  "un_string c = (case c of StringCell x \<Rightarrow> Some x | _ \<Rightarrow> None)"
definition un_strings :: "('m, 'c) cell \<Rightarrow> string list option" where
  "un_strings c = (case c of StringsCell x \<Rightarrow> Some x | _ \<Rightarrow> None)"
definition un_bytes :: "('m, 'c) cell \<Rightarrow> byte list option" where
  "un_bytes c = (case c of BytesCell x \<Rightarrow> Some x | _ \<Rightarrow> None)"
definition un_nicptrs :: "('m, 'c) cell \<Rightarrow> addr option list option" where
  "un_nicptrs c = (case c of NICPtrsCell x \<Rightarrow> Some x | _ \<Rightarrow> None)"
definition un_spec :: "('m, 'c) cell \<Rightarrow> 'm spec_obj option" where
  "un_spec c = (case c of SpecCell x \<Rightarrow> Some x | _ \<Rightarrow> None)"
definition un_status :: "('m, 'c) cell \<Rightarrow> 'm status_obj option" where
  "un_status c = (case c of StatusCell x \<Rightarrow> Some x | _ \<Rightarrow> None)"
definition un_cluster_spec :: "('m, 'c) cell \<Rightarrow> 'm cluster_spec_obj option" where
  "un_cluster_spec c = (case c of ClusterSpecCell x \<Rightarrow> Some x | _ \<Rightarrow> None)"
definition un_cluster_status :: "('m, 'c) cell \<Rightarrow> 'm cluster_status_obj option" where
  "un_cluster_status c = (case c of ClusterStatusCell x \<Rightarrow> Some x | _ \<Rightarrow> None)"

lemmas un_defs = un_ref_def un_cpu_def un_disk_def un_nic_def un_bool_def un_string_def
  un_strings_def un_bytes_def un_nicptrs_def un_spec_def un_status_def un_cluster_spec_def
  un_cluster_status_def

definition alloc :: "('a \<Rightarrow> ('m, 'c) cell) \<Rightarrow> 'a \<Rightarrow> (('m, 'c) heap, addr) go" where
  "alloc mk x = (\<lambda>h. (Val (length h), h @ [mk x]))"

definition load :: "(('m, 'c) cell \<Rightarrow> 'a option) \<Rightarrow> addr \<Rightarrow> (('m, 'c) heap, 'a) go" where
  "load prj a = (\<lambda>h. case (if a < length h then prj (h ! a) else None) of
       Some x \<Rightarrow> (Val x, h) | None \<Rightarrow> (Crash NilDeref, h))"

definition store :: "('a \<Rightarrow> ('m, 'c) cell) \<Rightarrow> addr \<Rightarrow> 'a \<Rightarrow> (('m, 'c) heap, unit) go" where
  "store mk a x = (\<lambda>h. (Val (), h[a := mk x]))"

section \<open>The copies\<close>

text \<open>
  The three shapes the generator emits for a field: a pointer to a flat value, a slice of
  flat values, a slice of pointers.
\<close>

definition copy_ptr :: "('a \<Rightarrow> ('m, 'c) cell) \<Rightarrow> (('m, 'c) cell \<Rightarrow> 'a option) \<Rightarrow> addr option \<Rightarrow>
    (('m, 'c) heap, addr option) go" where
  "copy_ptr mk prj p = (case p of
       None \<Rightarrow> ret None
     | Some a \<Rightarrow> bind (load prj a) (\<lambda>x. bind (alloc mk x) (\<lambda>b. ret (Some b))))"

definition copy_slice :: "('a list \<Rightarrow> ('m, 'c) cell) \<Rightarrow> (('m, 'c) cell \<Rightarrow> 'a list option) \<Rightarrow> slice \<Rightarrow>
    (('m, 'c) heap, slice) go" where
  "copy_slice mk prj s = (case s of
       None \<Rightarrow> ret None
     | Some (a, off, n) \<Rightarrow>
         bind (load prj a) (\<lambda>xs. bind (alloc mk (take n (drop off xs))) (\<lambda>b. ret (Some (b, 0, n)))))"

text \<open>\<open>if (*in)[i] != nil { (*out)[i] = new(NetworkInterface); *(*out)[i] = *(*in)[i] }\<close>\<close>

definition copy_nic_at :: "addr \<Rightarrow> nat \<Rightarrow> addr \<Rightarrow> nat \<Rightarrow> (('m, 'c) heap, unit) go" where
  "copy_nic_at a off b i =
     bind (load un_nicptrs a) (\<lambda>ps.
     case ps ! (off + i) of
       None \<Rightarrow> ret ()
     | Some p \<Rightarrow>
         bind (load un_nic p) (\<lambda>x.
         bind (alloc NICCell x) (\<lambda>q.
         bind (load un_nicptrs b) (\<lambda>qs.
         store NICPtrsCell b (qs[i := Some q])))))"

definition copy_nics :: "slice \<Rightarrow> (('m, 'c) heap, slice) go" where
  "copy_nics s = (case s of
       None \<Rightarrow> ret None
     | Some (a, off, n) \<Rightarrow>
         bind (alloc NICPtrsCell (replicate n None)) (\<lambda>b.
         bind (for_each (copy_nic_at a off b) [0..<n]) (\<lambda>_.
         ret (Some (b, 0, n)))))"

definition spec_DeepCopyInto ::
  "('m \<Rightarrow> (('m, 'c) heap, 'm) go) \<Rightarrow> 'm spec_obj \<Rightarrow> (('m, 'c) heap, 'm spec_obj) go" where
  "spec_DeepCopyInto mcopy i =
     (let out = i in
     bind (mcopy (so_ObjectMeta i)) (\<lambda>m.
     bind (copy_ptr RefCell un_ref (so_UserDataSecret i)) (\<lambda>uds.
     bind (copy_ptr RefCell un_ref (so_CredentialsSecret i)) (\<lambda>cs.
     bind (copy_ptr CPUCell un_cpu (so_CPU i)) (\<lambda>cpu.
     bind (copy_ptr DiskCell un_disk (so_OSDisk i)) (\<lambda>dsk.
     bind (copy_nics (so_NetworkInterfaces i)) (\<lambda>nics.
     bind (copy_slice StringsCell un_strings (so_AffinityGroupsNames i)) (\<lambda>names.
     bind (copy_ptr BoolCell un_bool (so_Clone i)) (\<lambda>cl.
     bind (copy_ptr BoolCell un_bool (so_Sparse i)) (\<lambda>sp.
     ret (out\<lparr>so_TypeMeta := so_TypeMeta i, so_ObjectMeta := m, so_UserDataSecret := uds,
       so_CredentialsSecret := cs, so_CPU := cpu, so_OSDisk := dsk, so_NetworkInterfaces := nics,
       so_AffinityGroupsNames := names, so_Clone := cl, so_Sparse := sp\<rparr>)))))))))))"

definition status_DeepCopyInto ::
  "('m \<Rightarrow> (('m, 'c) heap, 'm) go) \<Rightarrow> 'm status_obj \<Rightarrow> (('m, 'c) heap, 'm status_obj) go" where
  "status_DeepCopyInto mcopy i =
     (let out = i in
     bind (mcopy (sto_ObjectMeta i)) (\<lambda>m.
     bind (copy_ptr StringCell un_string (sto_InstanceID i)) (\<lambda>iid.
     bind (copy_ptr StringCell un_string (sto_InstanceState i)) (\<lambda>st.
     ret (out\<lparr>sto_TypeMeta := sto_TypeMeta i, sto_ObjectMeta := m, sto_InstanceID := iid,
       sto_InstanceState := st\<rparr>)))))"

definition cluster_spec_DeepCopyInto ::
  "('m \<Rightarrow> (('m, 'c) heap, 'm) go) \<Rightarrow> 'm cluster_spec_obj \<Rightarrow> (('m, 'c) heap, 'm cluster_spec_obj) go" where
  "cluster_spec_DeepCopyInto mcopy i =
     (let out = i in
     bind (mcopy (cso_ObjectMeta i)) (\<lambda>m.
     ret (out\<lparr>cso_TypeMeta := cso_TypeMeta i, cso_ObjectMeta := m\<rparr>)))"

definition cluster_status_DeepCopyInto ::
  "('m \<Rightarrow> (('m, 'c) heap, 'm) go) \<Rightarrow> 'm cluster_status_obj \<Rightarrow> (('m, 'c) heap, 'm cluster_status_obj) go" where
  "cluster_status_DeepCopyInto mcopy i =
     (let out = i in
     bind (mcopy (cst_ObjectMeta i)) (\<lambda>m.
     bind (copy_slice BytesCell un_bytes (cst_CACertificate i)) (\<lambda>cert.
     bind (copy_slice BytesCell un_bytes (cst_CAPrivateKey i)) (\<lambda>key.
     ret (out\<lparr>cst_TypeMeta := cst_TypeMeta i, cst_ObjectMeta := m, cst_CACertificate := cert,
       cst_CAPrivateKey := key\<rparr>)))))"

text \<open>\<open>*out = *in\<close> is all there is to copy in a flat type.\<close>

definition CPU_DeepCopyInto :: "CPU \<Rightarrow> (('m, 'c) heap, CPU) go" where "CPU_DeepCopyInto i = ret i"
definition Disk_DeepCopyInto :: "Disk \<Rightarrow> (('m, 'c) heap, Disk) go" where "Disk_DeepCopyInto i = ret i"
definition NIC_DeepCopyInto :: "NetworkInterface \<Rightarrow> (('m, 'c) heap, NetworkInterface) go" where
  "NIC_DeepCopyInto i = ret i"

text \<open>
  \<open>DeepCopy\<close>: nil for nil, otherwise a new object for \<open>DeepCopyInto\<close> to fill; its first
  statement is the flat copy the allocation holds.
\<close>

definition deep_copy :: "('a \<Rightarrow> ('m, 'c) cell) \<Rightarrow> (('m, 'c) cell \<Rightarrow> 'a option) \<Rightarrow>
    ('a \<Rightarrow> (('m, 'c) heap, 'a) go) \<Rightarrow> addr option \<Rightarrow> (('m, 'c) heap, addr option) go" where
  "deep_copy mk prj into p = (case p of
       None \<Rightarrow> ret None
     | Some a \<Rightarrow>
         bind (load prj a) (\<lambda>i.
         bind (alloc mk i) (\<lambda>out.
         bind (into i) (\<lambda>o'.
         bind (store mk out o') (\<lambda>_.
         ret (Some out))))))"

definition CPU_DeepCopy :: "addr option \<Rightarrow> (('m, 'c) heap, addr option) go" where
  "CPU_DeepCopy p = deep_copy CPUCell un_cpu CPU_DeepCopyInto p"
definition Disk_DeepCopy :: "addr option \<Rightarrow> (('m, 'c) heap, addr option) go" where
  "Disk_DeepCopy p = deep_copy DiskCell un_disk Disk_DeepCopyInto p"
definition NIC_DeepCopy :: "addr option \<Rightarrow> (('m, 'c) heap, addr option) go" where
  "NIC_DeepCopy p = deep_copy NICCell un_nic NIC_DeepCopyInto p"
definition spec_DeepCopy ::
  "('m \<Rightarrow> (('m, 'c) heap, 'm) go) \<Rightarrow> addr option \<Rightarrow> (('m, 'c) heap, addr option) go" where
  "spec_DeepCopy mcopy p = deep_copy SpecCell un_spec (spec_DeepCopyInto mcopy) p"
definition status_DeepCopy ::
  "('m \<Rightarrow> (('m, 'c) heap, 'm) go) \<Rightarrow> addr option \<Rightarrow> (('m, 'c) heap, addr option) go" where
  "status_DeepCopy mcopy p = deep_copy StatusCell un_status (status_DeepCopyInto mcopy) p"
definition cluster_spec_DeepCopy ::
  "('m \<Rightarrow> (('m, 'c) heap, 'm) go) \<Rightarrow> addr option \<Rightarrow> (('m, 'c) heap, addr option) go" where
  "cluster_spec_DeepCopy mcopy p =
     deep_copy ClusterSpecCell un_cluster_spec (cluster_spec_DeepCopyInto mcopy) p"
definition cluster_status_DeepCopy ::
  "('m \<Rightarrow> (('m, 'c) heap, 'm) go) \<Rightarrow> addr option \<Rightarrow> (('m, 'c) heap, addr option) go" where
  "cluster_status_DeepCopy mcopy p =
     deep_copy ClusterStatusCell un_cluster_status (cluster_status_DeepCopyInto mcopy) p"

text \<open>\<open>DeepCopyObject\<close>: the copy as a \<open>runtime.Object\<close>, an interface value that is nil only when
  there is no copy.\<close>

datatype runtime_object =
    SpecObject addr
  | StatusObject addr
  | ClusterSpecObject addr
  | ClusterStatusObject addr

definition spec_DeepCopyObject ::
  "('m \<Rightarrow> (('m, 'c) heap, 'm) go) \<Rightarrow> addr option \<Rightarrow> (('m, 'c) heap, runtime_object option) go" where
  "spec_DeepCopyObject mcopy p = bind (spec_DeepCopy mcopy p) (\<lambda>c.
     case c of Some a \<Rightarrow> ret (Some (SpecObject a)) | None \<Rightarrow> ret None)"
definition status_DeepCopyObject ::
  "('m \<Rightarrow> (('m, 'c) heap, 'm) go) \<Rightarrow> addr option \<Rightarrow> (('m, 'c) heap, runtime_object option) go" where
  "status_DeepCopyObject mcopy p = bind (status_DeepCopy mcopy p) (\<lambda>c.
     case c of Some a \<Rightarrow> ret (Some (StatusObject a)) | None \<Rightarrow> ret None)"
definition cluster_spec_DeepCopyObject ::
  "('m \<Rightarrow> (('m, 'c) heap, 'm) go) \<Rightarrow> addr option \<Rightarrow> (('m, 'c) heap, runtime_object option) go" where
  "cluster_spec_DeepCopyObject mcopy p = bind (cluster_spec_DeepCopy mcopy p) (\<lambda>c.
     case c of Some a \<Rightarrow> ret (Some (ClusterSpecObject a)) | None \<Rightarrow> ret None)"
definition cluster_status_DeepCopyObject ::
  "('m \<Rightarrow> (('m, 'c) heap, 'm) go) \<Rightarrow> addr option \<Rightarrow> (('m, 'c) heap, runtime_object option) go" where
  "cluster_status_DeepCopyObject mcopy p = bind (cluster_status_DeepCopy mcopy p) (\<lambda>c.
     case c of Some a \<Rightarrow> ret (Some (ClusterStatusObject a)) | None \<Rightarrow> ret None)"

section \<open>What a value on the heap is\<close>

text \<open>
  The contract of every type stored here: which values are valid in a heap, the value they
  denote there (\<open>view\<close>), and the addresses they reach (\<open>foot\<close>), on which alone validity and
  view depend.
\<close>

locale heap_value =
  fixes valid :: "'d list \<Rightarrow> 'a \<Rightarrow> bool" and view :: "'d list \<Rightarrow> 'a \<Rightarrow> 'v"
    and foot :: "'d list \<Rightarrow> 'a \<Rightarrow> nat set"
  assumes foot_valid: "valid h x \<Longrightarrow> a \<in> foot h x \<Longrightarrow> a < length h"
    and same_foot: "valid h x \<Longrightarrow> (\<And>a. a \<in> foot h x \<Longrightarrow> a < length h' \<and> h' ! a = h ! a) \<Longrightarrow>
      valid h' x \<and> view h' x = view h x \<and> foot h' x = foot h x"

definition copied :: "('d list \<Rightarrow> 'a \<Rightarrow> bool) \<Rightarrow> ('d list \<Rightarrow> 'a \<Rightarrow> 'v) \<Rightarrow> ('d list \<Rightarrow> 'a \<Rightarrow> nat set) \<Rightarrow>
    'd list \<Rightarrow> 'd list \<Rightarrow> 'a \<Rightarrow> 'a \<Rightarrow> bool" where
  "copied valid view foot h h' x y \<longleftrightarrow>
     valid h' y \<and> view h' y = view h x \<and> foot h' y \<subseteq> {length h..<length h'}"

text \<open>\<open>copies valid view foot m\<close>: \<open>m\<close> always returns, only adds to the heap, and returns a value
  with the same view made of new cells.\<close>

definition copies :: "('d list \<Rightarrow> 'a \<Rightarrow> bool) \<Rightarrow> ('d list \<Rightarrow> 'a \<Rightarrow> 'v) \<Rightarrow> ('d list \<Rightarrow> 'a \<Rightarrow> nat set) \<Rightarrow>
    ('a \<Rightarrow> ('d list, 'a) go) \<Rightarrow> bool" where
  "copies valid view foot m \<longleftrightarrow> (\<forall>h x. valid h x \<longrightarrow>
     (\<exists>y h'. m x h = (Val y, h') \<and> prefix h h' \<and> copied valid view foot h h' x y))"

lemma prefix_nth: "prefix h h' \<Longrightarrow> a < length h \<Longrightarrow> a < length h' \<and> h' ! a = h ! a"
  by (auto simp: prefix_def nth_append)

context heap_value
begin

lemma later:
  assumes "valid h x" and "prefix h h'"
  shows "valid h' x" and "view h' x = view h x" and "foot h' x = foot h x"
proof -
  have "a < length h' \<and> h' ! a = h ! a" if "a \<in> foot h x" for a
    by (rule prefix_nth [OF assms(2)]) (rule foot_valid [OF assms(1) that])
  from same_foot [OF assms(1) this] show "valid h' x" and "view h' x = view h x" and "foot h' x = foot h x"
    by simp_all
qed

lemma copied_same:
  assumes "copied valid view foot h h1 x y"
    and "\<And>a. length h \<le> a \<Longrightarrow> a < length h1 \<Longrightarrow> a < length h2 \<and> h2 ! a = h1 ! a"
  shows "copied valid view foot h h2 x y"
proof -
  from assms(1) have v: "valid h1 y" "view h1 y = view h x" "foot h1 y \<subseteq> {length h..<length h1}"
    by (simp_all add: copied_def)
  have "a < length h2 \<and> h2 ! a = h1 ! a" if "a \<in> foot h1 y" for a
    using assms(2) v(3) that by auto
  from same_foot [OF v(1) this] v assms(2) show ?thesis by (auto simp: copied_def)
qed

lemma copied_later:
  assumes "copied valid view foot h h1 x y" and "prefix h1 h2"
  shows "copied valid view foot h h2 x y"
  using assms(1) by (rule copied_same) (rule prefix_nth [OF assms(2)])

text \<open>One step of a sequence of copies that started in \<open>h0\<close>.\<close>

lemma copy_step:
  assumes "copies valid view foot m" and "valid h0 x" and "prefix h0 h"
  obtains y h' where "m x h = (Val y, h')" and "prefix h0 h'" and "prefix h h'"
    and "copied valid view foot h0 h' x y"
proof -
  note x = later [OF assms(2,3)]
  from assms(1) x(1) obtain y h' where m: "m x h = (Val y, h')" and p: "prefix h h'"
    and c: "copied valid view foot h h' x y" unfolding copies_def by blast
  have "length h0 \<le> length h" using assms(3) by (rule prefix_length_le)
  with c x(2) have "copied valid view foot h0 h' x y" by (auto simp: copied_def)
  with that m p prefix_order.trans [OF assms(3) p] show thesis by blast
qed

text \<open>A copy and its original do not see each other's cells change.\<close>

lemma copied_independent:
  assumes "valid h x" and "prefix h h'" and "copied valid view foot h h' x y"
  shows "a \<in> foot h' x \<Longrightarrow> view (h'[a := c]) y = view h x"
    and "a \<in> foot h' y \<Longrightarrow> view (h'[a := c]) x = view h x"
proof -
  note x = later [OF assms(1,2)]
  from assms(3) have y: "valid h' y" "view h' y = view h x" "foot h' y \<subseteq> {length h..<length h'}"
    by (simp_all add: copied_def)
  have old: "b < length h" if "b \<in> foot h' x" for b using that x(3) foot_valid [OF assms(1)] by simp
  have new: "length h \<le> b" if "b \<in> foot h' y" for b using that y(3) by auto
  { assume "a \<in> foot h' x"
    then have "b < length (h'[a := c]) \<and> h'[a := c] ! b = h' ! b" if "b \<in> foot h' y" for b
      using old [of a] new [OF that] foot_valid [OF y(1) that] by auto
    from same_foot [OF y(1) this] y(2) show "view (h'[a := c]) y = view h x" by simp }
  { assume "a \<in> foot h' y"
    then have "b < length (h'[a := c]) \<and> h'[a := c] ! b = h' ! b" if "b \<in> foot h' x" for b
      using new [of a] old [OF that] foot_valid [OF x(1) that] by auto
    from same_foot [OF x(1) this] x(2) show "view (h'[a := c]) x = view h x" by simp }
qed

end

section \<open>Pointers, slices and slices of pointers\<close>

definition valid_ptr :: "('d \<Rightarrow> 'a option) \<Rightarrow> 'd list \<Rightarrow> addr option \<Rightarrow> bool" where
  "valid_ptr prj h p \<longleftrightarrow> (case p of None \<Rightarrow> True | Some a \<Rightarrow> a < length h \<and> prj (h ! a) \<noteq> None)"

definition view_ptr :: "('d \<Rightarrow> 'a option) \<Rightarrow> 'd list \<Rightarrow> addr option \<Rightarrow> 'a option" where
  "view_ptr prj h p = (case p of None \<Rightarrow> None | Some a \<Rightarrow> prj (h ! a))"

definition foot_ptr :: "'d list \<Rightarrow> addr option \<Rightarrow> addr set" where
  "foot_ptr h p = set_option p"

definition valid_slice :: "('d \<Rightarrow> 'a list option) \<Rightarrow> 'd list \<Rightarrow> slice \<Rightarrow> bool" where
  "valid_slice prj h s \<longleftrightarrow> (case s of None \<Rightarrow> True
     | Some (a, off, n) \<Rightarrow> a < length h \<and> (\<exists>xs. prj (h ! a) = Some xs \<and> off + n \<le> length xs))"

definition view_slice :: "('d \<Rightarrow> 'a list option) \<Rightarrow> 'd list \<Rightarrow> slice \<Rightarrow> 'a list option" where
  "view_slice prj h s = (case s of None \<Rightarrow> None
     | Some (a, off, n) \<Rightarrow> map_option (\<lambda>xs. take n (drop off xs)) (prj (h ! a)))"

definition foot_slice :: "'d list \<Rightarrow> slice \<Rightarrow> addr set" where
  "foot_slice h s = fst ` set_option s"

definition elems :: "('m, 'c) heap \<Rightarrow> slice \<Rightarrow> addr option list" where
  "elems h s = (case view_slice un_nicptrs h s of None \<Rightarrow> [] | Some ps \<Rightarrow> ps)"

definition valid_nics :: "('m, 'c) heap \<Rightarrow> slice \<Rightarrow> bool" where
  "valid_nics h s \<longleftrightarrow> valid_slice un_nicptrs h s \<and> list_all (valid_ptr un_nic h) (elems h s)"

definition view_nics :: "('m, 'c) heap \<Rightarrow> slice \<Rightarrow> NetworkInterface option list option" where
  "view_nics h s = map_option (map (view_ptr un_nic h)) (view_slice un_nicptrs h s)"

definition foot_nics :: "('m, 'c) heap \<Rightarrow> slice \<Rightarrow> addr set" where
  "foot_nics h s = foot_slice h s \<union> (\<Union>p \<in> set (elems h s). set_option p)"

lemma heap_value_ptr: "heap_value (valid_ptr prj) (view_ptr prj) foot_ptr"
  by unfold_locales (auto simp: valid_ptr_def view_ptr_def foot_ptr_def split: option.splits)

lemma heap_value_slice: "heap_value (valid_slice prj) (view_slice prj) foot_slice"
  by unfold_locales (auto simp: valid_slice_def view_slice_def foot_slice_def split: option.splits)

lemma elems_same:
  assumes "\<And>a. a \<in> foot_slice h s \<Longrightarrow> h' ! a = h ! a" shows "elems h' s = elems h s"
  using assms by (auto simp: elems_def view_slice_def foot_slice_def split: option.splits)

interpretation ptr: heap_value "valid_ptr prj" "view_ptr prj" foot_ptr for prj
  by (rule heap_value_ptr)

interpretation slice: heap_value "valid_slice prj" "view_slice prj" foot_slice for prj
  by (rule heap_value_slice)

lemma heap_value_nics: "heap_value valid_nics view_nics foot_nics"
proof
  fix h :: "('m, 'c) heap" and s a
  assume "valid_nics h s" and "a \<in> foot_nics h s"
  then show "a < length h"
    by (auto simp: valid_nics_def foot_nics_def valid_ptr_def list_all_iff dest: slice.foot_valid)
next
  fix h h' :: "('m, 'c) heap" and s
  assume v: "valid_nics h s" and same: "\<And>a. a \<in> foot_nics h s \<Longrightarrow> a < length h' \<and> h' ! a = h ! a"
  from v have arr: "valid_slice un_nicptrs h s" by (simp add: valid_nics_def)
  have arr': "valid_slice un_nicptrs h' s \<and> view_slice un_nicptrs h' s = view_slice un_nicptrs h s \<and>
      foot_slice h' s = foot_slice h s"
    by (rule slice.same_foot [OF arr]) (rule same, simp add: foot_nics_def)
  then have el: "elems h' s = elems h s" by (simp add: elems_def)
  have "valid_ptr un_nic h' p \<and> view_ptr un_nic h' p = view_ptr un_nic h p" if "p \<in> set (elems h s)" for p
  proof -
    from v that have "valid_ptr un_nic h p" by (simp add: valid_nics_def list_all_iff)
    moreover have "a < length h' \<and> h' ! a = h ! a" if "a \<in> foot_ptr h p" for a
      by (rule same) (use that \<open>p \<in> set (elems h s)\<close> in \<open>auto simp: foot_nics_def foot_ptr_def\<close>)
    ultimately show ?thesis using ptr.same_foot by blast
  qed
  then have p: "\<forall>p \<in> set (elems h s). valid_ptr un_nic h' p \<and> view_ptr un_nic h' p = view_ptr un_nic h p" by blast
  then have "map (view_ptr un_nic h') (elems h s) = map (view_ptr un_nic h) (elems h s)" by simp
  then have "view_nics h' s = view_nics h s"
    using arr' by (cases "view_slice un_nicptrs h s") (simp_all add: view_nics_def elems_def)
  with arr' el p show "valid_nics h' s \<and> view_nics h' s = view_nics h s \<and> foot_nics h' s = foot_nics h s"
    by (simp add: valid_nics_def foot_nics_def list_all_iff)
qed

interpretation nics: heap_value valid_nics view_nics foot_nics
  by (rule heap_value_nics)

section \<open>The three shapes copy\<close>

lemma load_run: "a < length h \<Longrightarrow> prj (h ! a) = Some x \<Longrightarrow> load prj a h = (Val x, h)"
  by (simp add: load_def)

lemma alloc_run [simp]: "alloc mk x h = (Val (length h), h @ [mk x])"
  by (simp add: alloc_def)

lemma store_run [simp]: "store mk a x h = (Val (), h[a := mk x])"
  by (simp add: store_def)

lemma copies_ptr:
  assumes "\<And>x. prj (mk x) = Some x" shows "copies (valid_ptr prj) (view_ptr prj) foot_ptr (copy_ptr mk prj)"
  unfolding copies_def
proof (intro allI impI)
  fix h p assume v: "valid_ptr prj h p"
  show "\<exists>y h'. copy_ptr mk prj p h = (Val y, h') \<and> prefix h h' \<and>
      copied (valid_ptr prj) (view_ptr prj) foot_ptr h h' p y"
  proof (cases p)
    case None
    then show ?thesis by (simp add: copy_ptr_def copied_def valid_ptr_def view_ptr_def foot_ptr_def)
  next
    case (Some a)
    with v obtain x where "a < length h" "prj (h ! a) = Some x" by (auto simp: valid_ptr_def)
    with Some assms show ?thesis
      by (simp add: copy_ptr_def load_run copied_def valid_ptr_def view_ptr_def foot_ptr_def)
  qed
qed

lemma copies_slice:
  assumes "\<And>xs. prj (mk xs) = Some xs"
  shows "copies (valid_slice prj) (view_slice prj) foot_slice (copy_slice mk prj)"
  unfolding copies_def
proof (intro allI impI)
  fix h s assume v: "valid_slice prj h s"
  show "\<exists>y h'. copy_slice mk prj s h = (Val y, h') \<and> prefix h h' \<and>
      copied (valid_slice prj) (view_slice prj) foot_slice h h' s y"
  proof (cases s)
    case None
    then show ?thesis by (simp add: copy_slice_def copied_def valid_slice_def view_slice_def foot_slice_def)
  next
    case (Some t)
    then obtain a off n where s: "s = Some (a, off, n)" by (cases t) auto
    with v obtain xs where "a < length h" "prj (h ! a) = Some xs" "off + n \<le> length xs"
      by (auto simp: valid_slice_def)
    with s assms show ?thesis
      by (simp add: copy_slice_def load_run copied_def valid_slice_def view_slice_def foot_slice_def)
  qed
qed

subsection \<open>The loop over the interfaces\<close>

text \<open>After \<open>i\<close> rounds the new array \<open>b\<close> holds copies of the first \<open>i\<close> pointers.\<close>

definition nics_done ::
  "('m, 'c) heap \<Rightarrow> addr \<Rightarrow> addr option list \<Rightarrow> nat \<Rightarrow> ('m, 'c) heap \<Rightarrow> bool" where
  "nics_done h b ps i g \<longleftrightarrow> length h \<le> length g \<and> (\<forall>a < length h. a \<noteq> b \<longrightarrow> g ! a = h ! a) \<and>
     (\<exists>qs. g ! b = NICPtrsCell qs \<and> length qs = length ps \<and>
       (\<forall>j < length ps. if j < i then copied (valid_ptr un_nic) (view_ptr un_nic) foot_ptr h g (ps ! j) (qs ! j)
          else qs ! j = None))"

lemma nics_step:
  assumes "nics_done h b ps i g" and "i < length ps" and "b < length h" and "h ! b = NICPtrsCell z"
    and "a < length h" and "a \<noteq> b" and "un_nicptrs (h ! a) = Some xs" and "xs ! (off + i) = ps ! i"
    and "valid_ptr un_nic h (ps ! i)"
  obtains g' where "copy_nic_at a off b i g = (Val (), g')" and "nics_done h b ps (Suc i) g'"
proof -
  from assms(1) obtain qs where g: "length h \<le> length g" "\<And>c. c < length h \<Longrightarrow> c \<noteq> b \<Longrightarrow> g ! c = h ! c"
    and qs: "g ! b = NICPtrsCell qs" "length qs = length ps"
    and el: "\<And>j. j < length ps \<Longrightarrow> if j < i then copied (valid_ptr un_nic) (view_ptr un_nic) foot_ptr h g (ps ! j) (qs ! j)
          else qs ! j = None"
    unfolding nics_done_def by blast
  have la: "load un_nicptrs a g = (Val xs, g)" using assms(5-7) g by (simp add: load_run)
  show thesis
  proof (cases "ps ! i")
    case None
    have "copied (valid_ptr un_nic) (view_ptr un_nic) foot_ptr h g None None"
      by (simp add: copied_def valid_ptr_def view_ptr_def foot_ptr_def)
    then have "nics_done h b ps (Suc i) g"
      using g qs el None unfolding nics_done_def by (auto simp: less_Suc_eq)
    moreover have "copy_nic_at a off b i g = (Val (), g)"
      using la assms(8) None by (simp add: copy_nic_at_def)
    ultimately show thesis by (rule that [rotated])
  next
    case (Some p)
    with assms(9) obtain x where p: "p < length h" "un_nic (h ! p) = Some x" by (auto simp: valid_ptr_def)
    with assms(4) have "p \<noteq> b" by (auto simp: un_nic_def)
    with p g have lp: "load un_nic p g = (Val x, g)" by (simp add: load_run)
    let ?g' = "(g @ [NICCell x])[b := NICPtrsCell (qs[i := Some (length g)])]"
    have b: "b < length g" using assms(3) g(1) by simp
    have lb: "load un_nicptrs b (g @ [NICCell x]) = (Val qs, g @ [NICCell x])"
      using b qs by (simp add: load_run nth_append un_nicptrs_def)
    have run: "copy_nic_at a off b i g = (Val (), ?g')"
      using la lp lb assms(8) Some by (simp add: copy_nic_at_def)
    have same: "c < length ?g' \<and> ?g' ! c = g ! c" if "c < length g" "c \<noteq> b" for c
      using that by (simp add: nth_append)
    have "copied (valid_ptr un_nic) (view_ptr un_nic) foot_ptr h ?g' (ps ! j) (qs[i := Some (length g)] ! j)"
      if "j < Suc i" "j < length ps" for j
    proof (cases "j = i")
      case True
      have "?g' ! length g = NICCell x" using b by simp
      with True Some p g(1) qs assms(2) show ?thesis
        by (simp add: copied_def valid_ptr_def view_ptr_def foot_ptr_def un_nic_def)
    next
      case False
      with that el [of j] have "copied (valid_ptr un_nic) (view_ptr un_nic) foot_ptr h g (ps ! j) (qs ! j)" by simp
      then have "copied (valid_ptr un_nic) (view_ptr un_nic) foot_ptr h ?g' (ps ! j) (qs ! j)"
        by (rule ptr.copied_same) (rule same, use assms(3) in simp_all)
      with False show ?thesis by simp
    qed
    moreover have "qs[i := Some (length g)] ! j = None" if "\<not> j < Suc i" "j < length ps" for j
      using that el [of j] by simp
    ultimately have "nics_done h b ps (Suc i) ?g'"
      using g qs b same unfolding nics_done_def by (intro conjI exI [of _ "qs[i := Some (length g)]"]) auto
    with run show thesis by (rule that)
  qed
qed

lemma nics_loop:
  assumes "b < length h" and "h ! b = NICPtrsCell z" and "a < length h" and "a \<noteq> b"
    and "un_nicptrs (h ! a) = Some xs" and "\<And>j. j < length ps \<Longrightarrow> xs ! (off + j) = ps ! j"
    and "\<And>j. j < length ps \<Longrightarrow> valid_ptr un_nic h (ps ! j)"
    and "nics_done h b ps i g" and "i + k = length ps"
  shows "\<exists>g'. for_each (copy_nic_at a off b) [i..<length ps] g = (Val (), g') \<and> nics_done h b ps (length ps) g'"
  using assms(8,9)
proof (induction k arbitrary: i g)
  case 0
  then show ?case by simp
next
  case (Suc k)
  then have i: "i < length ps" by simp
  obtain g1 where 1: "copy_nic_at a off b i g = (Val (), g1)" "nics_done h b ps (Suc i) g1"
    by (rule nics_step [OF Suc.prems(1) i assms(1-5) assms(6) [OF i] assms(7) [OF i]])
  from Suc.IH [OF 1(2)] Suc.prems(2) obtain g' where
    "for_each (copy_nic_at a off b) [Suc i..<length ps] g1 = (Val (), g')" "nics_done h b ps (length ps) g'" by auto
  with 1 i show ?case by (simp add: upt_conv_Cons)
qed

lemma copies_nics: "copies valid_nics view_nics foot_nics copy_nics"
  unfolding copies_def
proof (intro allI impI)
  fix h :: "('m, 'c) heap" and s
  assume v: "valid_nics h s"
  show "\<exists>y h'. copy_nics s h = (Val y, h') \<and> prefix h h' \<and> copied valid_nics view_nics foot_nics h h' s y"
  proof (cases s)
    case None
    then show ?thesis
      by (simp add: copy_nics_def copied_def valid_nics_def view_nics_def foot_nics_def elems_def
          valid_slice_def view_slice_def foot_slice_def)
  next
    case (Some t)
    then obtain a off n where s: "s = Some (a, off, n)" by (cases t) auto
    with v obtain xs where a: "a < length h" "un_nicptrs (h ! a) = Some xs" "off + n \<le> length xs"
      by (auto simp: valid_nics_def valid_slice_def)
    let ?ps = "take n (drop off xs)" and ?b = "length h" and ?h = "h @ [NICPtrsCell (replicate n None)]"
    from a have ps: "length ?ps = n" "view_slice un_nicptrs h s = Some ?ps"
      by (simp_all add: s view_slice_def)
    then have el: "elems h s = ?ps" by (simp add: elems_def)
    have "valid_ptr un_nic ?h (?ps ! j)" if "j < length ?ps" for j
      using v el ptr.later(1) [of un_nic h _ ?h] nth_mem [OF that]
      by (auto simp: valid_nics_def list_all_iff simp del: nth_take nth_drop)
    moreover have "nics_done ?h ?b ?ps 0 ?h"
      using ps(1) by (simp add: nics_done_def)
    ultimately obtain g where g: "for_each (copy_nic_at a off ?b) [0..<length ?ps] ?h = (Val (), g)"
      and d: "nics_done ?h ?b ?ps (length ?ps) g"
      using nics_loop [of ?b ?h "replicate n None" a xs ?ps off 0 ?h "length ?ps"] a
      by (auto simp: nth_append)
    from d obtain qs where q: "length ?h \<le> length g" "\<forall>c < length ?h. c \<noteq> ?b \<longrightarrow> g ! c = ?h ! c"
      "g ! ?b = NICPtrsCell qs" "length qs = length ?ps"
      and q5: "\<And>j. j < length ?ps \<Longrightarrow> copied (valid_ptr un_nic) (view_ptr un_nic) foot_ptr ?h g (?ps ! j) (qs ! j)"
      unfolding nics_done_def by (elim conjE exE) (simp del: nth_take nth_drop)
    have run: "copy_nics s h = (Val (Some (?b, 0, n)), g)"
      using g ps(1) by (simp add: copy_nics_def s)
    have "g ! c = h ! c" if "c < length h" for c using q(2) that by (simp add: nth_append)
    then have pre: "prefix h g"
      using q(1) by (intro prefixI [of _ _ "drop (length h) g"] nth_equalityI) (auto simp: nth_append)
    have sl: "view_slice un_nicptrs g (Some (?b, 0, n)) = Some qs"
      using q(3,4) ps(1) by (simp add: view_slice_def un_nicptrs_def)
    have vw: "view_ptr un_nic g (qs ! j) = view_ptr un_nic h (?ps ! j)" if "j < n" for j
    proof -
      from that ps(1) have j: "j < length ?ps" by simp
      then have "valid_ptr un_nic h (?ps ! j)"
        using v el nth_mem [OF j] by (simp add: valid_nics_def list_all_iff del: nth_take nth_drop)
      with q5 [OF j] ptr.later(2) [of un_nic h "?ps ! j" ?h] show ?thesis
        by (simp add: copied_def del: nth_take nth_drop)
    qed
    have "map (view_ptr un_nic g) qs = map (view_ptr un_nic h) ?ps"
      using q(4) ps(1) vw by (intro nth_equalityI) (simp_all del: nth_take nth_drop)
    moreover have "valid_nics g (Some (?b, 0, n))"
      using q q5 ps(1) sl by (simp add: valid_nics_def valid_slice_def un_nicptrs_def elems_def copied_def
          list_all_length del: nth_take nth_drop)
    moreover have "set_option (qs ! j) \<subseteq> {length h..<length g}" if "j < length qs" for j
      using q5 [of j] that q(4) by (fastforce simp: copied_def foot_ptr_def simp del: nth_take nth_drop)
    then have "(\<Union>p \<in> set qs. set_option p) \<subseteq> {length h..<length g}"
      unfolding in_set_conv_nth by (intro UN_least) (metis in_set_conv_nth)
    then have "foot_nics g (Some (?b, 0, n)) \<subseteq> {length h..<length g}"
      using q(1) sl by (simp add: foot_nics_def foot_slice_def elems_def)
    ultimately have "copied valid_nics view_nics foot_nics h g s (Some (?b, 0, n))"
      using sl ps(2) by (simp add: copied_def view_nics_def)
    with run pre show ?thesis by blast
  qed
qed

section \<open>The objects\<close>

text \<open>
  What a stored spec denotes: its metadata, the spec as a value (the record the rest of the
  development uses), and whether its two slices are nil.
\<close>

record 'v spec_view =
  sv_TypeMeta :: TypeMeta
  sv_ObjectMeta :: 'v
  sv_fields :: OvirtMachineProviderSpec
  sv_nil_NetworkInterfaces :: bool
  sv_nil_AffinityGroupsNames :: bool

definition list_of :: "'a list option \<Rightarrow> 'a list" where
  "list_of o' = (case o' of None \<Rightarrow> [] | Some xs \<Rightarrow> xs)"

definition view_spec :: "(('m, 'c) heap \<Rightarrow> 'm \<Rightarrow> 'v) \<Rightarrow> ('m, 'c) heap \<Rightarrow> 'm spec_obj \<Rightarrow> 'v spec_view" where
  "view_spec mview h s =
     \<lparr>sv_TypeMeta = so_TypeMeta s, sv_ObjectMeta = mview h (so_ObjectMeta s),
      sv_fields =
        \<lparr>ps_UserDataSecret = view_ptr un_ref h (so_UserDataSecret s),
         ps_CredentialsSecret = view_ptr un_ref h (so_CredentialsSecret s),
         ps_Id = so_Id s, ps_Name = so_Name s, ps_TemplateName = so_TemplateName s,
         ps_ClusterId = so_ClusterId s, ps_InstanceTypeId = so_InstanceTypeId s,
         ps_CPU = view_ptr un_cpu h (so_CPU s), ps_MemoryMB = so_MemoryMB s,
         ps_OSDisk = view_ptr un_disk h (so_OSDisk s), ps_VMType = so_VMType s,
         ps_NetworkInterfaces = list_of (view_nics h (so_NetworkInterfaces s)),
         ps_AffinityGroupsNames = list_of (view_slice un_strings h (so_AffinityGroupsNames s)),
         ps_AutoPinningPolicy = so_AutoPinningPolicy s, ps_Hugepages = so_Hugepages s,
         ps_GuaranteedMemoryMB = so_GuaranteedMemoryMB s,
         ps_Clone = view_ptr un_bool h (so_Clone s), ps_Sparse = view_ptr un_bool h (so_Sparse s),
         ps_Format = so_Format s, ps_StorageDomainId = so_StorageDomainId s\<rparr>,
      sv_nil_NetworkInterfaces = (view_nics h (so_NetworkInterfaces s) = None),
      sv_nil_AffinityGroupsNames = (view_slice un_strings h (so_AffinityGroupsNames s) = None)\<rparr>"

definition valid_spec :: "(('m, 'c) heap \<Rightarrow> 'm \<Rightarrow> bool) \<Rightarrow> ('m, 'c) heap \<Rightarrow> 'm spec_obj \<Rightarrow> bool" where
  "valid_spec mvalid h s \<longleftrightarrow> mvalid h (so_ObjectMeta s) \<and>
     valid_ptr un_ref h (so_UserDataSecret s) \<and> valid_ptr un_ref h (so_CredentialsSecret s) \<and>
     valid_ptr un_cpu h (so_CPU s) \<and> valid_ptr un_disk h (so_OSDisk s) \<and>
     valid_nics h (so_NetworkInterfaces s) \<and> valid_slice un_strings h (so_AffinityGroupsNames s) \<and>
     valid_ptr un_bool h (so_Clone s) \<and> valid_ptr un_bool h (so_Sparse s)"

definition foot_spec :: "(('m, 'c) heap \<Rightarrow> 'm \<Rightarrow> addr set) \<Rightarrow> ('m, 'c) heap \<Rightarrow> 'm spec_obj \<Rightarrow> addr set" where
  "foot_spec mfoot h s = mfoot h (so_ObjectMeta s) \<union>
     foot_ptr h (so_UserDataSecret s) \<union> foot_ptr h (so_CredentialsSecret s) \<union>
     foot_ptr h (so_CPU s) \<union> foot_ptr h (so_OSDisk s) \<union>
     foot_nics h (so_NetworkInterfaces s) \<union> foot_slice h (so_AffinityGroupsNames s) \<union>
     foot_ptr h (so_Clone s) \<union> foot_ptr h (so_Sparse s)"

record 'v status_view =
  stv_TypeMeta :: TypeMeta
  stv_ObjectMeta :: 'v
  stv_fields :: OvirtMachineProviderStatus

definition view_status :: "(('m, 'c) heap \<Rightarrow> 'm \<Rightarrow> 'v) \<Rightarrow> ('m, 'c) heap \<Rightarrow> 'm status_obj \<Rightarrow> 'v status_view" where
  "view_status mview h s =
     \<lparr>stv_TypeMeta = sto_TypeMeta s, stv_ObjectMeta = mview h (sto_ObjectMeta s),
      stv_fields = \<lparr>pst_InstanceID = view_ptr un_string h (sto_InstanceID s),
        pst_InstanceState = view_ptr un_string h (sto_InstanceState s)\<rparr>\<rparr>"

definition valid_status :: "(('m, 'c) heap \<Rightarrow> 'm \<Rightarrow> bool) \<Rightarrow> ('m, 'c) heap \<Rightarrow> 'm status_obj \<Rightarrow> bool" where
  "valid_status mvalid h s \<longleftrightarrow> mvalid h (sto_ObjectMeta s) \<and>
     valid_ptr un_string h (sto_InstanceID s) \<and> valid_ptr un_string h (sto_InstanceState s)"

definition foot_status :: "(('m, 'c) heap \<Rightarrow> 'm \<Rightarrow> addr set) \<Rightarrow> ('m, 'c) heap \<Rightarrow> 'm status_obj \<Rightarrow> addr set" where
  "foot_status mfoot h s = mfoot h (sto_ObjectMeta s) \<union>
     foot_ptr h (sto_InstanceID s) \<union> foot_ptr h (sto_InstanceState s)"

definition view_cluster_spec :: "(('m, 'c) heap \<Rightarrow> 'm \<Rightarrow> 'v) \<Rightarrow> ('m, 'c) heap \<Rightarrow> 'm cluster_spec_obj \<Rightarrow>
    TypeMeta \<times> 'v" where
  "view_cluster_spec mview h s = (cso_TypeMeta s, mview h (cso_ObjectMeta s))"

definition valid_cluster_spec :: "(('m, 'c) heap \<Rightarrow> 'm \<Rightarrow> bool) \<Rightarrow> ('m, 'c) heap \<Rightarrow> 'm cluster_spec_obj \<Rightarrow> bool" where
  "valid_cluster_spec mvalid h s \<longleftrightarrow> mvalid h (cso_ObjectMeta s)"

definition foot_cluster_spec :: "(('m, 'c) heap \<Rightarrow> 'm \<Rightarrow> addr set) \<Rightarrow> ('m, 'c) heap \<Rightarrow> 'm cluster_spec_obj \<Rightarrow> addr set" where
  "foot_cluster_spec mfoot h s = mfoot h (cso_ObjectMeta s)"

definition view_cluster_status :: "(('m, 'c) heap \<Rightarrow> 'm \<Rightarrow> 'v) \<Rightarrow> ('m, 'c) heap \<Rightarrow> 'm cluster_status_obj \<Rightarrow>
    TypeMeta \<times> 'v \<times> byte list option \<times> byte list option" where
  "view_cluster_status mview h s = (cst_TypeMeta s, mview h (cst_ObjectMeta s),
     view_slice un_bytes h (cst_CACertificate s), view_slice un_bytes h (cst_CAPrivateKey s))"

definition valid_cluster_status :: "(('m, 'c) heap \<Rightarrow> 'm \<Rightarrow> bool) \<Rightarrow> ('m, 'c) heap \<Rightarrow> 'm cluster_status_obj \<Rightarrow> bool" where
  "valid_cluster_status mvalid h s \<longleftrightarrow> mvalid h (cst_ObjectMeta s) \<and>
     valid_slice un_bytes h (cst_CACertificate s) \<and> valid_slice un_bytes h (cst_CAPrivateKey s)"

definition foot_cluster_status :: "(('m, 'c) heap \<Rightarrow> 'm \<Rightarrow> addr set) \<Rightarrow> ('m, 'c) heap \<Rightarrow> 'm cluster_status_obj \<Rightarrow> addr set" where
  "foot_cluster_status mfoot h s = mfoot h (cst_ObjectMeta s) \<union>
     foot_slice h (cst_CACertificate s) \<union> foot_slice h (cst_CAPrivateKey s)"

text \<open>A pointer to an object reaches the object's cell and what the object reaches.\<close>

definition valid_obj :: "('d \<Rightarrow> 'a option) \<Rightarrow> ('d list \<Rightarrow> 'a \<Rightarrow> bool) \<Rightarrow> 'd list \<Rightarrow> addr option \<Rightarrow> bool" where
  "valid_obj prj valid h p \<longleftrightarrow> (case p of None \<Rightarrow> True
     | Some a \<Rightarrow> a < length h \<and> (\<exists>x. prj (h ! a) = Some x \<and> valid h x))"

definition view_obj :: "('d \<Rightarrow> 'a option) \<Rightarrow> ('d list \<Rightarrow> 'a \<Rightarrow> 'v) \<Rightarrow> 'd list \<Rightarrow> addr option \<Rightarrow> 'v option" where
  "view_obj prj view h p = (case p of None \<Rightarrow> None | Some a \<Rightarrow> map_option (view h) (prj (h ! a)))"

definition foot_obj :: "('d \<Rightarrow> 'a option) \<Rightarrow> ('d list \<Rightarrow> 'a \<Rightarrow> addr set) \<Rightarrow> 'd list \<Rightarrow> addr option \<Rightarrow> addr set" where
  "foot_obj prj foot h p = (case p of None \<Rightarrow> {}
     | Some a \<Rightarrow> insert a (case prj (h ! a) of None \<Rightarrow> {} | Some x \<Rightarrow> foot h x))"

lemma heap_value_obj:
  assumes "heap_value valid view foot"
  shows "heap_value (valid_obj prj valid) (view_obj prj view) (foot_obj prj foot)"
proof
  fix h p a
  assume "valid_obj prj valid h p" and "a \<in> foot_obj prj foot h p"
  then show "a < length h"
    by (auto simp: valid_obj_def foot_obj_def heap_value.foot_valid [OF assms] split: option.splits)
next
  fix h h' p
  assume v: "valid_obj prj valid h p"
    and same: "\<And>a. a \<in> foot_obj prj foot h p \<Longrightarrow> a < length h' \<and> h' ! a = h ! a"
  show "valid_obj prj valid h' p \<and> view_obj prj view h' p = view_obj prj view h p \<and>
      foot_obj prj foot h' p = foot_obj prj foot h p"
  proof (cases p)
    case None
    then show ?thesis by (simp add: valid_obj_def view_obj_def foot_obj_def)
  next
    case (Some a)
    with v obtain x where x: "prj (h ! a) = Some x" "valid h x" by (auto simp: valid_obj_def)
    have "a < length h' \<and> h' ! a = h ! a" by (rule same) (simp add: foot_obj_def Some)
    moreover have "valid h' x \<and> view h' x = view h x \<and> foot h' x = foot h x"
      by (rule heap_value.same_foot [OF assms x(2)], rule same) (simp add: foot_obj_def Some x)
    ultimately show ?thesis using x by (simp add: valid_obj_def view_obj_def foot_obj_def Some)
  qed
qed

text \<open>\<open>DeepCopy\<close> copies what \<open>DeepCopyInto\<close> copies.\<close>

lemma copies_deep_copy:
  assumes hv: "heap_value valid view foot" and into: "copies valid view foot into"
    and prj: "\<And>x. prj (mk x) = Some x"
  shows "copies (valid_obj prj valid) (view_obj prj view) (foot_obj prj foot) (deep_copy mk prj into)"
  unfolding copies_def
proof (intro allI impI)
  fix h p assume v: "valid_obj prj valid h p"
  show "\<exists>y h'. deep_copy mk prj into p h = (Val y, h') \<and> prefix h h' \<and>
      copied (valid_obj prj valid) (view_obj prj view) (foot_obj prj foot) h h' p y"
  proof (cases p)
    case None
    then show ?thesis
      by (simp add: deep_copy_def copied_def valid_obj_def view_obj_def foot_obj_def)
  next
    case (Some a)
    with v obtain x where a: "a < length h" "prj (h ! a) = Some x" "valid h x" by (auto simp: valid_obj_def)
    let ?h1 = "h @ [mk x]" and ?out = "length h"
    have "valid ?h1 x" and vx: "view ?h1 x = view h x"
      using heap_value.later [OF hv a(3), of ?h1] by simp_all
    with into obtain y h2 where 2: "into x ?h1 = (Val y, h2)" "prefix ?h1 h2" "copied valid view foot ?h1 h2 x y"
      unfolding copies_def by blast
    from 2(2) obtain zs where h2: "h2 = ?h1 @ zs" by (auto simp: prefix_def)
    let ?h' = "h2[?out := mk y]"
    from h2 have h': "?h' = h @ [mk y] @ zs" by (simp add: list_update_append)
    have "copied valid view foot ?h1 ?h' x y"
      by (rule heap_value.copied_same [OF hv 2(3)]) (auto simp: h2 nth_append nth_Cons split: nat.splits)
    then have "valid ?h' y" "view ?h' y = view h x" "foot ?h' y \<subseteq> {Suc ?out..<length ?h'}"
      using vx by (simp_all add: copied_def)
    moreover have "?h' ! ?out = mk y" "?out < length ?h'" using h2 by simp_all
    ultimately have "copied (valid_obj prj valid) (view_obj prj view) (foot_obj prj foot) h ?h' p (Some ?out)"
      using Some a prj by (auto simp: copied_def valid_obj_def view_obj_def foot_obj_def)
    moreover have "deep_copy mk prj into p h = (Val (Some ?out), ?h')"
      using Some a 2(1) by (simp add: deep_copy_def load_run)
    moreover have "prefix h ?h'" by (simp add: h')
    ultimately show ?thesis by blast
  qed
qed

lemma heap_value_spec:
  assumes m: "heap_value mvalid mview mfoot"
  shows "heap_value (valid_spec mvalid) (view_spec mview) (foot_spec mfoot)"
proof
  fix h :: "('a, 'b) heap" and s a
  assume "valid_spec mvalid h s" and "a \<in> foot_spec mfoot h s"
  then show "a < length h"
    by (auto simp: valid_spec_def foot_spec_def dest: heap_value.foot_valid [OF m] ptr.foot_valid
        slice.foot_valid nics.foot_valid)
next
  fix h h' :: "('a, 'b) heap" and s
  assume v: "valid_spec mvalid h s"
    and same: "\<And>a. a \<in> foot_spec mfoot h s \<Longrightarrow> a < length h' \<and> h' ! a = h ! a"
  show "valid_spec mvalid h' s \<and> view_spec mview h' s = view_spec mview h s \<and>
      foot_spec mfoot h' s = foot_spec mfoot h s"
    using v same heap_value.same_foot [OF m, of h "so_ObjectMeta s" h']
      ptr.same_foot [of un_ref h "so_UserDataSecret s" h'] ptr.same_foot [of un_ref h "so_CredentialsSecret s" h']
      ptr.same_foot [of un_cpu h "so_CPU s" h'] ptr.same_foot [of un_disk h "so_OSDisk s" h']
      nics.same_foot [of h "so_NetworkInterfaces s" h'] slice.same_foot [of un_strings h "so_AffinityGroupsNames s" h']
      ptr.same_foot [of un_bool h "so_Clone s" h'] ptr.same_foot [of un_bool h "so_Sparse s" h']
    by (simp add: valid_spec_def view_spec_def foot_spec_def)
qed

lemma heap_value_status:
  assumes m: "heap_value mvalid mview mfoot"
  shows "heap_value (valid_status mvalid) (view_status mview) (foot_status mfoot)"
proof
  fix h :: "('a, 'b) heap" and s a
  assume "valid_status mvalid h s" and "a \<in> foot_status mfoot h s"
  then show "a < length h"
    by (auto simp: valid_status_def foot_status_def dest: heap_value.foot_valid [OF m] ptr.foot_valid)
next
  fix h h' :: "('a, 'b) heap" and s
  assume v: "valid_status mvalid h s"
    and same: "\<And>a. a \<in> foot_status mfoot h s \<Longrightarrow> a < length h' \<and> h' ! a = h ! a"
  show "valid_status mvalid h' s \<and> view_status mview h' s = view_status mview h s \<and>
      foot_status mfoot h' s = foot_status mfoot h s"
    using v same heap_value.same_foot [OF m, of h "sto_ObjectMeta s" h']
      ptr.same_foot [of un_string h "sto_InstanceID s" h'] ptr.same_foot [of un_string h "sto_InstanceState s" h']
    by (simp add: valid_status_def view_status_def foot_status_def)
qed

lemma heap_value_cluster_spec:
  assumes m: "heap_value mvalid mview mfoot"
  shows "heap_value (valid_cluster_spec mvalid) (view_cluster_spec mview) (foot_cluster_spec mfoot)"
  by unfold_locales
     (auto simp: valid_cluster_spec_def view_cluster_spec_def foot_cluster_spec_def
       dest: heap_value.foot_valid [OF m] heap_value.same_foot [OF m])

lemma heap_value_cluster_status:
  assumes m: "heap_value mvalid mview mfoot"
  shows "heap_value (valid_cluster_status mvalid) (view_cluster_status mview) (foot_cluster_status mfoot)"
proof
  fix h :: "('a, 'b) heap" and s a
  assume "valid_cluster_status mvalid h s" and "a \<in> foot_cluster_status mfoot h s"
  then show "a < length h"
    by (auto simp: valid_cluster_status_def foot_cluster_status_def
        dest: heap_value.foot_valid [OF m] slice.foot_valid)
next
  fix h h' :: "('a, 'b) heap" and s
  assume v: "valid_cluster_status mvalid h s"
    and same: "\<And>a. a \<in> foot_cluster_status mfoot h s \<Longrightarrow> a < length h' \<and> h' ! a = h ! a"
  show "valid_cluster_status mvalid h' s \<and> view_cluster_status mview h' s = view_cluster_status mview h s \<and>
      foot_cluster_status mfoot h' s = foot_cluster_status mfoot h s"
    using v same heap_value.same_foot [OF m, of h "cst_ObjectMeta s" h']
      slice.same_foot [of un_bytes h "cst_CACertificate s" h'] slice.same_foot [of un_bytes h "cst_CAPrivateKey s" h']
    by (simp add: valid_cluster_status_def view_cluster_status_def foot_cluster_status_def)
qed

section \<open>DeepCopyInto copies\<close>

lemma copies_ref: "copies (valid_ptr un_ref) (view_ptr un_ref) foot_ptr (copy_ptr RefCell un_ref)"
  by (rule copies_ptr) (simp add: un_ref_def)
lemma copies_cpu: "copies (valid_ptr un_cpu) (view_ptr un_cpu) foot_ptr (copy_ptr CPUCell un_cpu)"
  by (rule copies_ptr) (simp add: un_cpu_def)
lemma copies_disk: "copies (valid_ptr un_disk) (view_ptr un_disk) foot_ptr (copy_ptr DiskCell un_disk)"
  by (rule copies_ptr) (simp add: un_disk_def)
lemma copies_bool: "copies (valid_ptr un_bool) (view_ptr un_bool) foot_ptr (copy_ptr BoolCell un_bool)"
  by (rule copies_ptr) (simp add: un_bool_def)
lemma copies_string: "copies (valid_ptr un_string) (view_ptr un_string) foot_ptr (copy_ptr StringCell un_string)"
  by (rule copies_ptr) (simp add: un_string_def)
lemma copies_strings:
  "copies (valid_slice un_strings) (view_slice un_strings) foot_slice (copy_slice StringsCell un_strings)"
  by (rule copies_slice) (simp add: un_strings_def)
lemma copies_bytes:
  "copies (valid_slice un_bytes) (view_slice un_bytes) foot_slice (copy_slice BytesCell un_bytes)"
  by (rule copies_slice) (simp add: un_bytes_def)

lemma copies_spec:
  assumes m: "heap_value mvalid mview mfoot" and mc: "copies mvalid mview mfoot mcopy"
  shows "copies (valid_spec mvalid) (view_spec mview) (foot_spec mfoot) (spec_DeepCopyInto mcopy)"
  unfolding copies_def
proof (intro allI impI)
  fix h :: "('a, 'b) heap" and s
  assume "valid_spec mvalid h s"
  then have v: "mvalid h (so_ObjectMeta s)" "valid_ptr un_ref h (so_UserDataSecret s)"
    "valid_ptr un_ref h (so_CredentialsSecret s)" "valid_ptr un_cpu h (so_CPU s)"
    "valid_ptr un_disk h (so_OSDisk s)" "valid_nics h (so_NetworkInterfaces s)"
    "valid_slice un_strings h (so_AffinityGroupsNames s)" "valid_ptr un_bool h (so_Clone s)"
    "valid_ptr un_bool h (so_Sparse s)" by (simp_all add: valid_spec_def)
  obtain y1 h1 where 1: "mcopy (so_ObjectMeta s) h = (Val y1, h1)" and p1: "prefix h h1"
    and c1: "copied mvalid mview mfoot h h1 (so_ObjectMeta s) y1"
    by (rule heap_value.copy_step [OF m mc v(1) prefix_order.refl])
  obtain y2 h2 where 2: "copy_ptr RefCell un_ref (so_UserDataSecret s) h1 = (Val y2, h2)" and p2: "prefix h h2"
    and q2: "prefix h1 h2" and c2: "copied (valid_ptr un_ref) (view_ptr un_ref) foot_ptr h h2 (so_UserDataSecret s) y2"
    by (rule ptr.copy_step [OF copies_ref v(2) p1])
  obtain y3 h3 where 3: "copy_ptr RefCell un_ref (so_CredentialsSecret s) h2 = (Val y3, h3)" and p3: "prefix h h3"
    and q3: "prefix h2 h3" and c3: "copied (valid_ptr un_ref) (view_ptr un_ref) foot_ptr h h3 (so_CredentialsSecret s) y3"
    by (rule ptr.copy_step [OF copies_ref v(3) p2])
  obtain y4 h4 where 4: "copy_ptr CPUCell un_cpu (so_CPU s) h3 = (Val y4, h4)" and p4: "prefix h h4"
    and q4: "prefix h3 h4" and c4: "copied (valid_ptr un_cpu) (view_ptr un_cpu) foot_ptr h h4 (so_CPU s) y4"
    by (rule ptr.copy_step [OF copies_cpu v(4) p3])
  obtain y5 h5 where 5: "copy_ptr DiskCell un_disk (so_OSDisk s) h4 = (Val y5, h5)" and p5: "prefix h h5"
    and q5: "prefix h4 h5" and c5: "copied (valid_ptr un_disk) (view_ptr un_disk) foot_ptr h h5 (so_OSDisk s) y5"
    by (rule ptr.copy_step [OF copies_disk v(5) p4])
  obtain y6 h6 where 6: "copy_nics (so_NetworkInterfaces s) h5 = (Val y6, h6)" and p6: "prefix h h6"
    and q6: "prefix h5 h6" and c6: "copied valid_nics view_nics foot_nics h h6 (so_NetworkInterfaces s) y6"
    by (rule nics.copy_step [OF copies_nics v(6) p5])
  obtain y7 h7 where 7: "copy_slice StringsCell un_strings (so_AffinityGroupsNames s) h6 = (Val y7, h7)"
    and p7: "prefix h h7" and q7: "prefix h6 h7"
    and c7: "copied (valid_slice un_strings) (view_slice un_strings) foot_slice h h7 (so_AffinityGroupsNames s) y7"
    by (rule slice.copy_step [OF copies_strings v(7) p6])
  obtain y8 h8 where 8: "copy_ptr BoolCell un_bool (so_Clone s) h7 = (Val y8, h8)" and p8: "prefix h h8"
    and q8: "prefix h7 h8" and c8: "copied (valid_ptr un_bool) (view_ptr un_bool) foot_ptr h h8 (so_Clone s) y8"
    by (rule ptr.copy_step [OF copies_bool v(8) p7])
  obtain y9 h9 where 9: "copy_ptr BoolCell un_bool (so_Sparse s) h8 = (Val y9, h9)" and p9: "prefix h h9"
    and q9: "prefix h8 h9" and c9: "copied (valid_ptr un_bool) (view_ptr un_bool) foot_ptr h h9 (so_Sparse s) y9"
    by (rule ptr.copy_step [OF copies_bool v(9) p8])
  note r8 = q9 and r7 = prefix_order.trans [OF q8 q9]
  note r6 = prefix_order.trans [OF q7 r7]
  note r5 = prefix_order.trans [OF q6 r6]
  note r4 = prefix_order.trans [OF q5 r5]
  note r3 = prefix_order.trans [OF q4 r4]
  note r2 = prefix_order.trans [OF q3 r3]
  note r1 = prefix_order.trans [OF q2 r2]
  note parts = heap_value.copied_later [OF m c1 r1] ptr.copied_later [OF c2 r2] ptr.copied_later [OF c3 r3]
    ptr.copied_later [OF c4 r4] ptr.copied_later [OF c5 r5] nics.copied_later [OF c6 r6]
    slice.copied_later [OF c7 r7] ptr.copied_later [OF c8 r8] c9
  let ?o = "s\<lparr>so_TypeMeta := so_TypeMeta s, so_ObjectMeta := y1, so_UserDataSecret := y2,
       so_CredentialsSecret := y3, so_CPU := y4, so_OSDisk := y5, so_NetworkInterfaces := y6,
       so_AffinityGroupsNames := y7, so_Clone := y8, so_Sparse := y9\<rparr>"
  have "spec_DeepCopyInto mcopy s h = (Val ?o, h9)"
    by (simp add: spec_DeepCopyInto_def Let_def 1 2 3 4 5 6 7 8 9)
  moreover have "copied (valid_spec mvalid) (view_spec mview) (foot_spec mfoot) h h9 s ?o"
    using parts by (simp add: copied_def valid_spec_def view_spec_def foot_spec_def)
  ultimately show "\<exists>y h'. spec_DeepCopyInto mcopy s h = (Val y, h') \<and> prefix h h' \<and>
      copied (valid_spec mvalid) (view_spec mview) (foot_spec mfoot) h h' s y" using p9 by blast
qed

lemma copies_status:
  assumes m: "heap_value mvalid mview mfoot" and mc: "copies mvalid mview mfoot mcopy"
  shows "copies (valid_status mvalid) (view_status mview) (foot_status mfoot) (status_DeepCopyInto mcopy)"
  unfolding copies_def
proof (intro allI impI)
  fix h :: "('a, 'b) heap" and s
  assume "valid_status mvalid h s"
  then have v: "mvalid h (sto_ObjectMeta s)" "valid_ptr un_string h (sto_InstanceID s)"
    "valid_ptr un_string h (sto_InstanceState s)" by (simp_all add: valid_status_def)
  obtain y1 h1 where 1: "mcopy (sto_ObjectMeta s) h = (Val y1, h1)" and p1: "prefix h h1"
    and c1: "copied mvalid mview mfoot h h1 (sto_ObjectMeta s) y1"
    by (rule heap_value.copy_step [OF m mc v(1) prefix_order.refl])
  obtain y2 h2 where 2: "copy_ptr StringCell un_string (sto_InstanceID s) h1 = (Val y2, h2)" and p2: "prefix h h2"
    and q2: "prefix h1 h2" and c2: "copied (valid_ptr un_string) (view_ptr un_string) foot_ptr h h2 (sto_InstanceID s) y2"
    by (rule ptr.copy_step [OF copies_string v(2) p1])
  obtain y3 h3 where 3: "copy_ptr StringCell un_string (sto_InstanceState s) h2 = (Val y3, h3)" and p3: "prefix h h3"
    and q3: "prefix h2 h3" and c3: "copied (valid_ptr un_string) (view_ptr un_string) foot_ptr h h3 (sto_InstanceState s) y3"
    by (rule ptr.copy_step [OF copies_string v(3) p2])
  note parts = heap_value.copied_later [OF m c1 prefix_order.trans [OF q2 q3]] ptr.copied_later [OF c2 q3] c3
  let ?o = "s\<lparr>sto_TypeMeta := sto_TypeMeta s, sto_ObjectMeta := y1, sto_InstanceID := y2, sto_InstanceState := y3\<rparr>"
  have "status_DeepCopyInto mcopy s h = (Val ?o, h3)"
    by (simp add: status_DeepCopyInto_def Let_def 1 2 3)
  moreover have "copied (valid_status mvalid) (view_status mview) (foot_status mfoot) h h3 s ?o"
    using parts by (simp add: copied_def valid_status_def view_status_def foot_status_def)
  ultimately show "\<exists>y h'. status_DeepCopyInto mcopy s h = (Val y, h') \<and> prefix h h' \<and>
      copied (valid_status mvalid) (view_status mview) (foot_status mfoot) h h' s y" using p3 by blast
qed

lemma copies_cluster_spec:
  assumes m: "heap_value mvalid mview mfoot" and mc: "copies mvalid mview mfoot mcopy"
  shows "copies (valid_cluster_spec mvalid) (view_cluster_spec mview) (foot_cluster_spec mfoot)
    (cluster_spec_DeepCopyInto mcopy)"
  unfolding copies_def
proof (intro allI impI)
  fix h :: "('a, 'b) heap" and s
  assume "valid_cluster_spec mvalid h s"
  then obtain y h' where "mcopy (cso_ObjectMeta s) h = (Val y, h')" "prefix h h'"
    "copied mvalid mview mfoot h h' (cso_ObjectMeta s) y"
    using mc unfolding copies_def valid_cluster_spec_def by blast
  then show "\<exists>y h'. cluster_spec_DeepCopyInto mcopy s h = (Val y, h') \<and> prefix h h' \<and>
      copied (valid_cluster_spec mvalid) (view_cluster_spec mview) (foot_cluster_spec mfoot) h h' s y"
    by (simp add: cluster_spec_DeepCopyInto_def Let_def copied_def valid_cluster_spec_def
        view_cluster_spec_def foot_cluster_spec_def)
qed

lemma copies_cluster_status:
  assumes m: "heap_value mvalid mview mfoot" and mc: "copies mvalid mview mfoot mcopy"
  shows "copies (valid_cluster_status mvalid) (view_cluster_status mview) (foot_cluster_status mfoot)
    (cluster_status_DeepCopyInto mcopy)"
  unfolding copies_def
proof (intro allI impI)
  fix h :: "('a, 'b) heap" and s
  assume "valid_cluster_status mvalid h s"
  then have v: "mvalid h (cst_ObjectMeta s)" "valid_slice un_bytes h (cst_CACertificate s)"
    "valid_slice un_bytes h (cst_CAPrivateKey s)" by (simp_all add: valid_cluster_status_def)
  obtain y1 h1 where 1: "mcopy (cst_ObjectMeta s) h = (Val y1, h1)" and p1: "prefix h h1"
    and c1: "copied mvalid mview mfoot h h1 (cst_ObjectMeta s) y1"
    by (rule heap_value.copy_step [OF m mc v(1) prefix_order.refl])
  obtain y2 h2 where 2: "copy_slice BytesCell un_bytes (cst_CACertificate s) h1 = (Val y2, h2)" and p2: "prefix h h2"
    and q2: "prefix h1 h2" and c2: "copied (valid_slice un_bytes) (view_slice un_bytes) foot_slice h h2 (cst_CACertificate s) y2"
    by (rule slice.copy_step [OF copies_bytes v(2) p1])
  obtain y3 h3 where 3: "copy_slice BytesCell un_bytes (cst_CAPrivateKey s) h2 = (Val y3, h3)" and p3: "prefix h h3"
    and q3: "prefix h2 h3" and c3: "copied (valid_slice un_bytes) (view_slice un_bytes) foot_slice h h3 (cst_CAPrivateKey s) y3"
    by (rule slice.copy_step [OF copies_bytes v(3) p2])
  note parts = heap_value.copied_later [OF m c1 prefix_order.trans [OF q2 q3]] slice.copied_later [OF c2 q3] c3
  let ?o = "s\<lparr>cst_TypeMeta := cst_TypeMeta s, cst_ObjectMeta := y1, cst_CACertificate := y2, cst_CAPrivateKey := y3\<rparr>"
  have "cluster_status_DeepCopyInto mcopy s h = (Val ?o, h3)"
    by (simp add: cluster_status_DeepCopyInto_def Let_def 1 2 3)
  moreover have "copied (valid_cluster_status mvalid) (view_cluster_status mview) (foot_cluster_status mfoot) h h3 s ?o"
    using parts by (simp add: copied_def valid_cluster_status_def view_cluster_status_def foot_cluster_status_def)
  ultimately show "\<exists>y h'. cluster_status_DeepCopyInto mcopy s h = (Val y, h') \<and> prefix h h' \<and>
      copied (valid_cluster_status mvalid) (view_cluster_status mview) (foot_cluster_status mfoot) h h' s y"
    using p3 by blast
qed

section \<open>Properties\<close>

text \<open>A copy that succeeds, is equal, leaves the original alone, and shares nothing with it.\<close>

definition independent_copy :: "('d list \<Rightarrow> addr option \<Rightarrow> 'v) \<Rightarrow> ('d list \<Rightarrow> addr option \<Rightarrow> addr set) \<Rightarrow>
    (addr option \<Rightarrow> ('d list, addr option) go) \<Rightarrow> 'd list \<Rightarrow> addr option \<Rightarrow> bool" where
  "independent_copy view foot m h p \<longleftrightarrow> (\<exists>q h'. m p h = (Val q, h') \<and> prefix h h' \<and>
     view h' q = view h p \<and> view h' p = view h p \<and>
     (\<forall>a \<in> foot h' p. \<forall>c. view (h'[a := c]) q = view h p) \<and>
     (\<forall>a \<in> foot h' q. \<forall>c. view (h'[a := c]) p = view h p))"

lemma copies_independent:
  assumes hv: "heap_value valid view foot" and m: "copies valid view foot m" and v: "valid h p"
  shows "independent_copy view foot m h p"
proof -
  from m v obtain q h' where run: "m p h = (Val q, h')" and pre: "prefix h h'"
    and c: "copied valid view foot h h' p q" unfolding copies_def by blast
  have "view h' q = view h p" using c by (simp add: copied_def)
  moreover have "view h' p = view h p" by (rule heap_value.later(2) [OF hv v pre])
  ultimately show ?thesis
    unfolding independent_copy_def
    using run pre heap_value.copied_independent [OF hv v pre c] by blast
qed

text \<open>C25: deep copying a provider spec gives nil for nil and otherwise an equal spec, nested
  objects, nil elements and nil slices included; the original is unchanged, and writing to
  any cell of one of the two is not seen through the other.\<close>

theorem spec_copy_is_independent:
  assumes "heap_value mvalid mview mfoot" and "copies mvalid mview mfoot mcopy"
    and "valid_obj un_spec (valid_spec mvalid) h p"
  shows "independent_copy (view_obj un_spec (view_spec mview)) (foot_obj un_spec (foot_spec mfoot))
    (spec_DeepCopy mcopy) h p"
  unfolding spec_DeepCopy_def
  by (rule copies_independent [OF heap_value_obj copies_deep_copy assms(3)])
     (simp_all add: assms(1) heap_value_spec copies_spec [OF assms(1,2)] un_spec_def)

lemma status_copy:
  assumes "heap_value mvalid mview mfoot" and "copies mvalid mview mfoot mcopy"
    and "valid_obj un_status (valid_status mvalid) h p"
  shows "independent_copy (view_obj un_status (view_status mview)) (foot_obj un_status (foot_status mfoot))
    (status_DeepCopy mcopy) h p"
  unfolding status_DeepCopy_def
  by (rule copies_independent [OF heap_value_obj copies_deep_copy assms(3)])
     (simp_all add: assms(1) heap_value_status copies_status [OF assms(1,2)] un_status_def)

lemma cluster_spec_copy:
  assumes "heap_value mvalid mview mfoot" and "copies mvalid mview mfoot mcopy"
    and "valid_obj un_cluster_spec (valid_cluster_spec mvalid) h p"
  shows "independent_copy (view_obj un_cluster_spec (view_cluster_spec mview))
    (foot_obj un_cluster_spec (foot_cluster_spec mfoot)) (cluster_spec_DeepCopy mcopy) h p"
  unfolding cluster_spec_DeepCopy_def
  by (rule copies_independent [OF heap_value_obj copies_deep_copy assms(3)])
     (simp_all add: assms(1) heap_value_cluster_spec copies_cluster_spec [OF assms(1,2)] un_cluster_spec_def)

lemma cluster_status_copy:
  assumes "heap_value mvalid mview mfoot" and "copies mvalid mview mfoot mcopy"
    and "valid_obj un_cluster_status (valid_cluster_status mvalid) h p"
  shows "independent_copy (view_obj un_cluster_status (view_cluster_status mview))
    (foot_obj un_cluster_status (foot_cluster_status mfoot)) (cluster_status_DeepCopy mcopy) h p"
  unfolding cluster_status_DeepCopy_def
  by (rule copies_independent [OF heap_value_obj copies_deep_copy assms(3)])
     (simp_all add: assms(1) heap_value_cluster_status copies_cluster_status [OF assms(1,2)] un_cluster_status_def)

text \<open>\<open>DeepCopyObject\<close> is a nil interface exactly for a nil pointer.\<close>

lemma DeepCopyObject_nil:
  "spec_DeepCopyObject mcopy p h = (Val c, h') \<Longrightarrow> c = None \<longleftrightarrow> p = None"
  by (cases p) (auto simp: spec_DeepCopyObject_def spec_DeepCopy_def deep_copy_def elim!: bind_ValE)

text \<open>The same for the machine provider status, whose two fields are pointers to strings, and
  for the cluster status, whose certificate and key are byte slices.\<close>

lemma status_copies_are_independent:
  assumes "heap_value mvalid mview mfoot" and "copies mvalid mview mfoot mcopy"
  shows "(valid_obj un_status (valid_status mvalid) h p \<longrightarrow>
      independent_copy (view_obj un_status (view_status mview)) (foot_obj un_status (foot_status mfoot))
        (status_DeepCopy mcopy) h p) \<and>
    (valid_obj un_cluster_status (valid_cluster_status mvalid) h p \<longrightarrow>
      independent_copy (view_obj un_cluster_status (view_cluster_status mview))
        (foot_obj un_cluster_status (foot_cluster_status mfoot)) (cluster_status_DeepCopy mcopy) h p)"
  using status_copy [OF assms, of h p] cluster_status_copy [OF assms, of h p] by blast

section \<open>An example\<close>

text \<open>Metadata that is one pointer, to labels the library stores, copied as a pointer.\<close>

definition un_foreign :: "('m, 'c) cell \<Rightarrow> 'c option" where
  "un_foreign c = (case c of ForeignCell x \<Rightarrow> Some x | _ \<Rightarrow> None)"

type_synonym demo_heap = "(addr option, (string \<times> string) list) heap"

definition demo_stored_spec :: "addr option spec_obj" where
  "demo_stored_spec = \<lparr>so_TypeMeta = \<lparr>tm_Kind = ''OvirtMachineProviderSpec'', tm_APIVersion = ''v1beta1''\<rparr>,
     so_ObjectMeta = Some 1, so_UserDataSecret = None, so_CredentialsSecret = None, so_Id = [],
     so_Name = [], so_TemplateName = ''t'', so_ClusterId = ''c'', so_InstanceTypeId = [],
     so_CPU = Some 2, so_MemoryMB = 1024, so_OSDisk = None, so_VMType = [],
     so_NetworkInterfaces = Some (3, 1, 2), so_AffinityGroupsNames = None, so_AutoPinningPolicy = [],
     so_Hugepages = 0, so_GuaranteedMemoryMB = 0, so_Clone = None, so_Sparse = Some 5,
     so_Format = [], so_StorageDomainId = []\<rparr>"

definition demo_heap :: demo_heap where
  "demo_heap = [SpecCell demo_stored_spec, ForeignCell [(''a'', ''b'')],
     CPUCell \<lparr>cpu_Sockets = 1, cpu_Cores = 2, cpu_Threads = 1\<rparr>,
     NICPtrsCell [None, Some 4, None], NICCell \<lparr>ni_VNICProfileID = ''p''\<rparr>, BoolCell True,
     StatusCell \<lparr>sto_TypeMeta = \<lparr>tm_Kind = [], tm_APIVersion = []\<rparr>, sto_ObjectMeta = Some 1,
       sto_InstanceID = Some 7, sto_InstanceState = None\<rparr>,
     StringCell ''id1'']"

lemma demo_meta:
  "heap_value (valid_ptr un_foreign) (view_ptr un_foreign) foot_ptr"
  "copies (valid_ptr un_foreign) (view_ptr un_foreign) foot_ptr (copy_ptr ForeignCell un_foreign)"
  by (rule heap_value_ptr, rule copies_ptr) (simp add: un_foreign_def)

lemma demo_spec_valid: "valid_obj un_spec (valid_spec (valid_ptr un_foreign)) demo_heap (Some 0)"
  by (simp add: valid_obj_def valid_spec_def valid_ptr_def valid_nics_def valid_slice_def elems_def
      view_slice_def demo_heap_def demo_stored_spec_def un_defs un_foreign_def)

theorem spec_copy_is_independent_witness:
  "independent_copy (view_obj un_spec (view_spec (view_ptr un_foreign))) (foot_obj un_spec (foot_spec foot_ptr))
     (spec_DeepCopy (copy_ptr ForeignCell un_foreign)) demo_heap (Some 0) \<and>
   view_obj un_spec (view_spec (view_ptr un_foreign)) demo_heap (Some 0) \<noteq> None"
  using spec_copy_is_independent [OF demo_meta demo_spec_valid]
  by (simp add: view_obj_def demo_heap_def un_defs)

theorem status_copies_are_independent_witness:
  "independent_copy (view_obj un_status (view_status (view_ptr un_foreign))) (foot_obj un_status (foot_status foot_ptr))
     (status_DeepCopy (copy_ptr ForeignCell un_foreign)) demo_heap (Some 6)"
proof -
  have "valid_obj un_status (valid_status (valid_ptr un_foreign)) demo_heap (Some 6)"
    by (simp add: valid_obj_def valid_status_def valid_ptr_def demo_heap_def un_defs un_foreign_def)
  with status_copies_are_independent [OF demo_meta] show ?thesis by blast
qed

end
