(* ===== verification/Scheme_Registration.thy ===== *)
theory Scheme_Registration
  imports Prelude
begin

text \<open>
  The registration of the API types (\<open>register.go\<close>, the \<open>init\<close> functions of \<open>types.go\<close> and
  \<open>apis.go\<close>, and \<open>AddToScheme\<close>), with the scheme of the Kubernetes library as far as it maps
  kinds to Go types and back. What the library itself adds to every group version
  (\<open>AddToGroupVersion\<close>) is a parameter.
\<close>

section \<open>The scheme\<close>

record GroupVersion =
  gv_Group :: string
  gv_Version :: string

record go_type =
  gt_PkgPath :: string
  gt_Name :: string

type_synonym gvk = "GroupVersion \<times> string"

record Scheme =
  gvkToType :: "gvk \<Rightarrow> go_type option"
  typeToGVK :: "go_type \<Rightarrow> gvk list"

type_synonym scheme_fun = "(Scheme, unit) go"

text \<open>A kind registered for two different types panics.\<close>

definition AddKnownTypeWithName :: "gvk \<Rightarrow> go_type \<Rightarrow> scheme_fun" where
  "AddKnownTypeWithName k t =
     bind (gets (\<lambda>s. gvkToType s k)) (\<lambda>old.
     if gv_Version (fst k) = [] then crash (LibraryPanic (ErrorString ''version is required on all types''))
     else if old \<noteq> None \<and> old \<noteq> Some t
     then crash (LibraryPanic (ErrorString ''Double registration of different types''))
     else modify (\<lambda>s. s\<lparr>gvkToType := (gvkToType s)(k \<mapsto> t),
       typeToGVK := (typeToGVK s)(t := (if k \<in> set (typeToGVK s t) then typeToGVK s t
         else typeToGVK s t @ [k]))\<rparr>))"

definition AddKnownTypes :: "GroupVersion \<Rightarrow> go_type list \<Rightarrow> scheme_fun" where
  "AddKnownTypes gv ts = for_each (\<lambda>t. AddKnownTypeWithName (gv, gt_Name t) t) ts"

section \<open>Builders\<close>

record Builder =
  bld_GroupVersion :: GroupVersion
  bld_funcs :: "scheme_fun list"

definition Register :: "(GroupVersion \<Rightarrow> scheme_fun) \<Rightarrow> go_type list \<Rightarrow> Builder \<Rightarrow> Builder" where
  "Register AddToGroupVersion objects bld = bld\<lparr>bld_funcs := bld_funcs bld @
     [bind (AddKnownTypes (bld_GroupVersion bld) objects) (\<lambda>_. AddToGroupVersion (bld_GroupVersion bld))]\<rparr>"

definition apply_funcs :: "scheme_fun list \<Rightarrow> scheme_fun" where
  "apply_funcs fs = for_each (\<lambda>f. f) fs"

section \<open>The provider's types\<close>

definition GroupName :: string where "GroupName = ''ovirtproviderconfig''"

definition SchemeGroupVersion :: GroupVersion where
  "SchemeGroupVersion = \<lparr>gv_Group = GroupName @ ''.machine.openshift.io'', gv_Version = ''v1beta1''\<rparr>"

definition SchemeBuilder :: Builder where
  "SchemeBuilder = \<lparr>bld_GroupVersion = SchemeGroupVersion, bld_funcs = []\<rparr>"

definition provider_type :: "string \<Rightarrow> go_type" where
  "provider_type name = \<lparr>gt_PkgPath =
     ''github.com/openshift/cluster-api-provider-ovirt/pkg/apis/ovirtprovider/v1beta1'', gt_Name = name\<rparr>"

definition init_types :: "(GroupVersion \<Rightarrow> scheme_fun) \<Rightarrow> Builder \<Rightarrow> Builder" where
  "init_types meta bld =
     Register meta [provider_type ''OvirtClusterProviderStatus'']
       (Register meta [provider_type ''OvirtClusterProviderSpec'']
         (Register meta [provider_type ''OvirtMachineProviderStatus'']
           (Register meta [provider_type ''OvirtMachineProviderSpec''] bld)))"

text \<open>\<open>AddToSchemes\<close> holds one function, the \<open>AddToScheme\<close> of the initialised builder.\<close>

definition AddToSchemes :: "(GroupVersion \<Rightarrow> scheme_fun) \<Rightarrow> scheme_fun list" where
  "AddToSchemes meta = [apply_funcs (bld_funcs (init_types meta SchemeBuilder))]"

definition AddToScheme :: "(GroupVersion \<Rightarrow> scheme_fun) \<Rightarrow> scheme_fun" where
  "AddToScheme meta = apply_funcs (AddToSchemes meta)"

section \<open>What is registered\<close>

definition provider_kinds :: "string list" where
  "provider_kinds = [''OvirtMachineProviderSpec'', ''OvirtMachineProviderStatus'',
     ''OvirtClusterProviderSpec'', ''OvirtClusterProviderStatus'']"

definition registered :: "Scheme \<Rightarrow> string \<Rightarrow> bool" where
  "registered s k \<longleftrightarrow> gvkToType s (SchemeGroupVersion, k) = Some (provider_type k) \<and>
     (SchemeGroupVersion, k) \<in> set (typeToGVK s (provider_type k))"

definition available :: "Scheme \<Rightarrow> string \<Rightarrow> bool" where
  "available s k \<longleftrightarrow> gvkToType s (SchemeGroupVersion, k) \<in> {None, Some (provider_type k)}"

text \<open>The library's part returns (its own kinds do not clash) and leaves the provider's kinds as
  they are.\<close>

definition leaves_kinds :: "(GroupVersion \<Rightarrow> scheme_fun) \<Rightarrow> bool" where
  "leaves_kinds meta \<longleftrightarrow> (\<forall>gv s. \<exists>s'. meta gv s = (Val (), s') \<and>
     (\<forall>k \<in> set provider_kinds. registered s' k = registered s k \<and> available s' k = available s k))"

lemma register_one:
  assumes "available s k"
  shows "\<exists>s'. AddKnownTypes SchemeGroupVersion [provider_type k] s = (Val (), s') \<and> registered s' k \<and>
    (\<forall>j. j \<noteq> k \<longrightarrow> registered s' j = registered s j \<and> available s' j = available s j)"
  using assms
  by (auto simp: available_def registered_def AddKnownTypes_def AddKnownTypeWithName_def SchemeGroupVersion_def
      provider_type_def bind_def)

lemma register_step:
  assumes "leaves_kinds meta" and "k \<in> set provider_kinds" and "available s k"
  obtains s' where
    "bind (AddKnownTypes SchemeGroupVersion [provider_type k]) (\<lambda>_. meta SchemeGroupVersion) s = (Val (), s')"
    and "registered s' k"
    and "\<forall>j \<in> set provider_kinds. j \<noteq> k \<longrightarrow> registered s' j = registered s j \<and> available s' j = available s j"
proof -
  from register_one [OF assms(3)] obtain s1 where
    1: "AddKnownTypes SchemeGroupVersion [provider_type k] s = (Val (), s1)" "registered s1 k"
       "\<forall>j. j \<noteq> k \<longrightarrow> registered s1 j = registered s j \<and> available s1 j = available s j" by blast
  from assms(1) obtain s' where "meta SchemeGroupVersion s1 = (Val (), s')"
    "\<forall>j \<in> set provider_kinds. registered s' j = registered s1 j \<and> available s' j = available s1 j"
    unfolding leaves_kinds_def by blast
  with 1 that assms(2) show thesis by (auto simp: bind_def)
qed

text \<open>After \<open>AddToScheme\<close> every kind of the provider maps to its type and back, unless a kind was
  taken by another type before.\<close>

theorem AddToScheme_registers:
  assumes "leaves_kinds meta" and "\<forall>k \<in> set provider_kinds. available s k"
  shows "\<exists>s'. AddToScheme meta s = (Val (), s') \<and> (\<forall>k \<in> set provider_kinds. registered s' k)"
proof -
  note step = register_step [OF assms(1)]
  from assms(2) have a: "available s ''OvirtMachineProviderSpec''" "available s ''OvirtMachineProviderStatus''"
    "available s ''OvirtClusterProviderSpec''" "available s ''OvirtClusterProviderStatus''"
    by (simp_all add: provider_kinds_def)
  obtain s1 where 1: "bind (AddKnownTypes SchemeGroupVersion [provider_type ''OvirtMachineProviderSpec''])
      (\<lambda>_. meta SchemeGroupVersion) s = (Val (), s1)" "registered s1 ''OvirtMachineProviderSpec''"
    "\<forall>j \<in> set provider_kinds. j \<noteq> ''OvirtMachineProviderSpec'' \<longrightarrow>
       registered s1 j = registered s j \<and> available s1 j = available s j"
    by (rule step [OF _ a(1)]) (simp_all add: provider_kinds_def)
  with a have a1: "available s1 ''OvirtMachineProviderStatus''" by (simp add: provider_kinds_def)
  obtain s2 where 2: "bind (AddKnownTypes SchemeGroupVersion [provider_type ''OvirtMachineProviderStatus''])
      (\<lambda>_. meta SchemeGroupVersion) s1 = (Val (), s2)" "registered s2 ''OvirtMachineProviderStatus''"
    "\<forall>j \<in> set provider_kinds. j \<noteq> ''OvirtMachineProviderStatus'' \<longrightarrow>
       registered s2 j = registered s1 j \<and> available s2 j = available s1 j"
    by (rule step [OF _ a1]) (simp_all add: provider_kinds_def)
  with 1 a have a2: "available s2 ''OvirtClusterProviderSpec''" by (simp add: provider_kinds_def)
  obtain s3 where 3: "bind (AddKnownTypes SchemeGroupVersion [provider_type ''OvirtClusterProviderSpec''])
      (\<lambda>_. meta SchemeGroupVersion) s2 = (Val (), s3)" "registered s3 ''OvirtClusterProviderSpec''"
    "\<forall>j \<in> set provider_kinds. j \<noteq> ''OvirtClusterProviderSpec'' \<longrightarrow>
       registered s3 j = registered s2 j \<and> available s3 j = available s2 j"
    by (rule step [OF _ a2]) (simp_all add: provider_kinds_def)
  with 1 2 a have a3: "available s3 ''OvirtClusterProviderStatus''" by (simp add: provider_kinds_def)
  obtain s4 where 4: "bind (AddKnownTypes SchemeGroupVersion [provider_type ''OvirtClusterProviderStatus''])
      (\<lambda>_. meta SchemeGroupVersion) s3 = (Val (), s4)" "registered s4 ''OvirtClusterProviderStatus''"
    "\<forall>j \<in> set provider_kinds. j \<noteq> ''OvirtClusterProviderStatus'' \<longrightarrow>
       registered s4 j = registered s3 j \<and> available s4 j = available s3 j"
    by (rule step [OF _ a3]) (simp_all add: provider_kinds_def)
  have "AddToScheme meta s = (Val (), s4)"
    using 1(1) 2(1) 3(1) 4(1)
    by (simp add: AddToScheme_def AddToSchemes_def apply_funcs_def init_types_def Register_def SchemeBuilder_def)
  moreover have "\<forall>k \<in> set provider_kinds. registered s4 k"
    using 1(2,3) 2(2,3) 3(2,3) 4(2,3) by (simp add: provider_kinds_def)
  ultimately show ?thesis by blast
qed

end
