(* ===== verification/Logging.thy ===== *)
theory Logging
  imports Go_Lib "HOL-Library.Word"
begin

text \<open>
  The logger of the program (\<open>pkg/ovirt/logr.go\<close>): \<open>KLogr\<close> adapts the logging library of
  Kubernetes to the interface the oVirt client expects. With it what it uses of its
  environment: the formatting of \<open>fmt\<close>, the levels and names of \<open>logr\<close>, and the sink \<open>klogr\<close>,
  which asks \<open>klog\<close>'s verbosity whether a line is written. No other part of the program
  depends on what is logged, so the other theories leave the calls out.
\<close>

section \<open>fmt\<close>

text \<open>
  The operands the program passes are strings and errors. Parameters: what \<open>fmt\<close> prints for a
  directive with flags, a width or a precision and for one whose verb does not fit the
  operand, the name of an operand's type, and the text from a directive on that has a star,
  an index or a character beyond ASCII in it.
\<close>

datatype arg = StringArg string | ErrorArg gerr

record fmt_lib =
  fmt_directive :: "string \<Rightarrow> char \<Rightarrow> arg \<Rightarrow> string"
  fmt_type :: "arg \<Rightarrow> string"
  fmt_indexed :: "string \<Rightarrow> arg list \<Rightarrow> string"

fun arg_text :: "arg \<Rightarrow> string" where
  "arg_text (StringArg s) = s"
| "arg_text (ErrorArg e) = error_string e"

text \<open>The flags, the width and the precision after a percent sign, and what follows them.\<close>

definition is_flag :: "char \<Rightarrow> bool" where "is_flag c \<longleftrightarrow> c \<in> set ''#0+- ''"
definition is_decimal :: "char \<Rightarrow> bool" where "is_decimal c \<longleftrightarrow> c \<in> set ''0123456789''"

definition directive :: "string \<Rightarrow> string \<times> string" where
  "directive r =
     (let flags = takeWhile is_flag r; r1 = dropWhile is_flag r;
          width = takeWhile is_decimal r1; r2 = dropWhile is_decimal r1 in
      case r2 of
        c # r3 \<Rightarrow>
          if c = CHR ''.'' then (flags @ width @ c # takeWhile is_decimal r3, dropWhile is_decimal r3)
          else (flags @ width, r2)
      | [] \<Rightarrow> (flags @ width, []))"

lemma directive_append: "directive r = (spec, r') \<Longrightarrow> spec @ r' = r"
proof -
  let ?r1 = "dropWhile is_flag r"
  assume d: "directive r = (spec, r')"
  have r: "r = takeWhile is_flag r @ takeWhile is_decimal ?r1 @ dropWhile is_decimal ?r1" by simp
  show ?thesis
  proof (cases "dropWhile is_decimal ?r1")
    case Nil
    with d have "spec = takeWhile is_flag r @ takeWhile is_decimal ?r1" "r' = []"
      unfolding directive_def Let_def Nil by simp_all
    with r Nil show ?thesis by simp
  next
    case (Cons c r3)
    have "takeWhile is_decimal r3 @ dropWhile is_decimal r3 = r3" by simp
    with d r Cons show ?thesis unfolding directive_def Let_def Cons by (auto split: if_splits)
  qed
qed

lemma directive_length: "directive r = (spec, r') \<Longrightarrow> length r' \<le> length r"
  by (drule directive_append) auto

lemma directive_verb: "(spec, v # r') = directive r \<Longrightarrow> length r' < Suc (length r)"
  by (drule sym, drule directive_length) simp

text \<open>Printing one operand, and what is appended for operands that are left over.\<close>

definition printArg :: "fmt_lib \<Rightarrow> bool \<Rightarrow> string \<Rightarrow> char \<Rightarrow> arg \<Rightarrow> string" where
  "printArg L wraps spec v a =
     (if spec = [] \<and> (v = CHR ''s'' \<or> v = CHR ''v'' \<or> v = CHR ''w'' \<and> wraps \<and> (\<exists>e. a = ErrorArg e))
      then arg_text a else fmt_directive L spec v a)"

definition comma_separated :: "string list \<Rightarrow> string" where
  "comma_separated ts = concat (map (\<lambda>t. t @ '', '') (butlast ts)) @ (if ts = [] then [] else last ts)"

definition extra_args :: "fmt_lib \<Rightarrow> arg list \<Rightarrow> string" where
  "extra_args L args = (if args = [] then []
     else ''%!(EXTRA '' @ comma_separated (map (\<lambda>a. fmt_type L a @ ''='' @ arg_text a) args) @ '')'')"

text \<open>A verb \<open>fmt\<close> reads the operand for itself: not an index, a star, or part of a longer rune.\<close>

definition indexed :: "char \<Rightarrow> bool" where
  "indexed v \<longleftrightarrow> v = CHR ''*'' \<or> v = CHR ''['' \<or> (of_char v :: nat) \<ge> 128"

text \<open>\<open>wraps\<close>: the formatting is that of \<open>fmt.Errorf\<close>, which knows the verb \<open>w\<close>.\<close>

function Sprintf :: "fmt_lib \<Rightarrow> bool \<Rightarrow> string \<Rightarrow> arg list \<Rightarrow> string" where
  "Sprintf L wraps [] args = extra_args L args"
| "Sprintf L wraps (c # r) args =
     (if c \<noteq> CHR ''%'' then c # Sprintf L wraps r args
      else (case directive r of
          (spec, []) \<Rightarrow> ''%!(NOVERB)'' @ extra_args L args
        | (spec, v # r') \<Rightarrow>
            if indexed v then fmt_indexed L (c # r) args
            else if v = CHR ''%'' then CHR ''%'' # Sprintf L wraps r' args
            else (case args of
                [] \<Rightarrow> ''%!'' @ v # ''(MISSING)'' @ Sprintf L wraps r' []
              | a # as \<Rightarrow> printArg L wraps spec v a @ Sprintf L wraps r' as)))"
  by pat_completeness auto
termination
  by (relation "measure (\<lambda>(L, wraps, format, args). length format)")
     (auto dest: directive_verb)

section \<open>logr, klogr and klog\<close>

text \<open>
  A \<open>logr.Logger\<close> with the \<open>klogr\<close> sink: the level its lines have, the names it was given,
  and the number of stack frames between the sink and the caller to report.
\<close>

record logger =
  lg_level :: "64 word"
  lg_prefix :: string
  lg_depth :: int

definition klogr_New :: logger where
  "klogr_New = \<lparr>lg_level = 0, lg_prefix = [], lg_depth = 1\<rparr>"

definition WithCallDepth :: "int \<Rightarrow> logger \<Rightarrow> logger" where
  "WithCallDepth depth lg = lg\<lparr>lg_depth := lg_depth lg + depth\<rparr>"

definition WithName :: "string \<Rightarrow> logger \<Rightarrow> logger" where
  "WithName name lg = lg\<lparr>lg_prefix := (if lg_prefix lg \<noteq> [] then lg_prefix lg @ ''/'' else []) @ name\<rparr>"

definition Logger_V :: "logger \<Rightarrow> 64 word \<Rightarrow> logger" where
  "Logger_V lg level = lg\<lparr>lg_level := lg_level lg + (if level <s 0 then 0 else level)\<rparr>"

text \<open>The lines written so far, and \<open>klog\<close>'s verbosity, which the flag \<open>v\<close> sets.\<close>

record log_line =
  ln_is_error :: bool
  ln_depth :: int
  ln_prefix :: string
  ln_msg :: string
  ln_err :: "string option"

record log_state =
  ls_verbosity :: "32 word"
  ls_lines :: "log_line list"

definition write_line :: "log_line \<Rightarrow> log_state \<Rightarrow> log_state" where
  "write_line ln s = s\<lparr>ls_lines := ls_lines s @ [ln]\<rparr>"

text \<open>The level is converted to the 32 bits of \<open>klog.Level\<close>.\<close>

definition Logger_Enabled :: "logger \<Rightarrow> log_state \<Rightarrow> bool" where
  "Logger_Enabled lg s \<longleftrightarrow> scast (lg_level lg) \<le>s ls_verbosity s"

definition Logger_Info :: "logger \<Rightarrow> string \<Rightarrow> log_state \<Rightarrow> log_state" where
  "Logger_Info lg msg s = (if Logger_Enabled lg s
     then write_line \<lparr>ln_is_error = False, ln_depth = lg_depth lg + 1,
       ln_prefix = lg_prefix lg, ln_msg = msg, ln_err = None\<rparr> s else s)"

definition Logger_Error :: "logger \<Rightarrow> string \<Rightarrow> string \<Rightarrow> log_state \<Rightarrow> log_state" where
  "Logger_Error lg err msg s =
     write_line \<lparr>ln_is_error = True, ln_depth = lg_depth lg + 1,
       ln_prefix = lg_prefix lg, ln_msg = msg, ln_err = Some err\<rparr> s"

section \<open>logr.go\<close>

record KLogr =
  kl_logger :: logger
  kl_VDebug :: "64 word"
  kl_VInfo :: "64 word"
  kl_VWarning :: "64 word"

definition Debugf :: "fmt_lib \<Rightarrow> KLogr \<Rightarrow> string \<Rightarrow> arg list \<Rightarrow> log_state \<Rightarrow> log_state" where
  "Debugf L g format args = Logger_Info (Logger_V (kl_logger g) (kl_VDebug g)) (Sprintf L False format args)"

definition Infof :: "fmt_lib \<Rightarrow> KLogr \<Rightarrow> string \<Rightarrow> arg list \<Rightarrow> log_state \<Rightarrow> log_state" where
  "Infof L g format args = Logger_Info (Logger_V (kl_logger g) (kl_VInfo g)) (Sprintf L False format args)"

definition Warningf :: "fmt_lib \<Rightarrow> KLogr \<Rightarrow> string \<Rightarrow> arg list \<Rightarrow> log_state \<Rightarrow> log_state" where
  "Warningf L g format args = Logger_Info (Logger_V (kl_logger g) (kl_VWarning g)) (Sprintf L False format args)"

definition Errorf :: "fmt_lib \<Rightarrow> KLogr \<Rightarrow> string \<Rightarrow> arg list \<Rightarrow> log_state \<Rightarrow> log_state" where
  "Errorf L g format args = Logger_Error (kl_logger g) (Sprintf L True format args) ''error''"

definition WithContext :: "KLogr \<Rightarrow> KLogr" where "WithContext g = g"
definition WithVDebug :: "64 word \<Rightarrow> KLogr \<Rightarrow> KLogr" where "WithVDebug level g = g\<lparr>kl_VDebug := level\<rparr>"
definition WithVInfo :: "64 word \<Rightarrow> KLogr \<Rightarrow> KLogr" where "WithVInfo level g = g\<lparr>kl_VInfo := level\<rparr>"
definition WithVWarning :: "64 word \<Rightarrow> KLogr \<Rightarrow> KLogr" where "WithVWarning level g = g\<lparr>kl_VWarning := level\<rparr>"

definition NewKLogr :: "string list \<Rightarrow> KLogr" where
  "NewKLogr names =
     (let logger = foldl (\<lambda>lg name. WithName name lg) (WithCallDepth 1 klogr_New) names in
      \<lparr>kl_logger = logger, kl_VDebug = 5, kl_VInfo = 0, kl_VWarning = 0\<rparr>)"

section \<open>What is printed\<close>

lemma Sprintf_literal: "CHR ''%'' \<notin> set t \<Longrightarrow> Sprintf L w (t @ f) args = t @ Sprintf L w f args"
  by (induction t) auto

lemma Sprintf_text: "CHR ''%'' \<notin> set t \<Longrightarrow> Sprintf L w t [] = t"
  using Sprintf_literal [of t L w "[]" "[]"] by (simp add: extra_args_def)

lemma directive_simple: "\<not> is_flag v \<Longrightarrow> \<not> is_decimal v \<Longrightarrow> v \<noteq> CHR ''.'' \<Longrightarrow> directive (v # r) = ([], v # r)"
  by (simp add: directive_def)

lemma simple_verbs [simp]:
  "directive (CHR ''s'' # r) = ([], CHR ''s'' # r)" "directive (CHR ''v'' # r) = ([], CHR ''v'' # r)"
  by (simp_all add: directive_simple is_flag_def is_decimal_def)

lemma Sprintf_operand:
  "Sprintf L w (''%s'' @ f) (a # as) = arg_text a @ Sprintf L w f as"
  "Sprintf L w (''%v'' @ f) (a # as) = arg_text a @ Sprintf L w f as"
  by (simp_all add: indexed_def printArg_def)

text \<open>A format with a percent sign whose directive is an ordinary one is not printed as it is.\<close>

lemma missing_not_copied: "y \<noteq> ''!(MISSING)'' @ Sprintf L w y []"
proof (induction y rule: length_induct)
  case (1 y)
  show ?case
  proof
    assume y: "y = ''!(MISSING)'' @ Sprintf L w y []"
    define z where "z = Sprintf L w y []"
    have "y = ''!(MISSING)'' @ z" using y by (simp add: z_def)
    then have "z = ''!(MISSING)'' @ Sprintf L w z []"
      using Sprintf_literal [of "''!(MISSING)''" L w z "[]"] by (simp add: z_def)
    moreover have "length z < length y" using \<open>y = ''!(MISSING)'' @ z\<close> by simp
    ultimately show False using "1.IH" by blast
  qed
qed

definition ordinary_verb :: "string \<Rightarrow> bool" where
  "ordinary_verb r \<longleftrightarrow> (case r of [] \<Rightarrow> True | v # _ \<Rightarrow> v \<noteq> CHR ''%'' \<and> \<not> indexed v)"

lemma is_flag_bang: "is_flag CHR ''!'' = False" "is_decimal CHR ''!'' = False"
  by (simp_all add: is_flag_def is_decimal_def)

lemma directive_bang: "directive (CHR ''!'' # r) = ([], CHR ''!'' # r)"
  by (simp add: directive_simple is_flag_bang)

lemma Sprintf_directive_changed:
  assumes "ordinary_verb (snd (directive r))" shows "Sprintf L w (CHR ''%'' # r) [] \<noteq> CHR ''%'' # r"
proof
  assume eq: "Sprintf L w (CHR ''%'' # r) [] = CHR ''%'' # r"
  obtain spec r' where d: "directive r = (spec, r')" by fastforce
  from eq d assms obtain x where "r = CHR ''!'' # x" by (auto simp: ordinary_verb_def split: list.splits)
  then have bang: "directive r = ([], CHR ''!'' # x)" by (simp add: directive_bang)
  with eq \<open>r = CHR ''!'' # x\<close> have "x = ''!(MISSING)'' @ Sprintf L w x []" by (simp add: indexed_def)
  with missing_not_copied show False by blast
qed

section \<open>Names and levels\<close>

lemma WithName_fold:
  "lg_prefix lg \<noteq> [] \<Longrightarrow> foldl (\<lambda>lg name. WithName name lg) lg names =
     lg\<lparr>lg_prefix := lg_prefix lg @ concat (map (\<lambda>n. ''/'' @ n) names)\<rparr>"
  by (induction names arbitrary: lg) (simp_all add: WithName_def)

lemma NewKLogr_named:
  assumes "n \<noteq> []"
  shows "NewKLogr (n # names) = \<lparr>kl_logger = \<lparr>lg_level = 0, lg_prefix = n @ concat (map (\<lambda>n. ''/'' @ n) names), lg_depth = 2\<rparr>,
     kl_VDebug = 5, kl_VInfo = 0, kl_VWarning = 0\<rparr>"
proof -
  have "WithName n (WithCallDepth 1 klogr_New) = \<lparr>lg_level = 0, lg_prefix = n, lg_depth = 2\<rparr>"
    by (simp add: WithName_def WithCallDepth_def klogr_New_def)
  with assms show ?thesis by (simp add: NewKLogr_def WithName_fold)
qed

text \<open>The line a logger with these names writes.\<close>

definition named_line :: "string list \<Rightarrow> bool \<Rightarrow> string \<Rightarrow> string option \<Rightarrow> log_line" where
  "named_line names is_error msg err = \<lparr>ln_is_error = is_error, ln_depth = 3,
     ln_prefix = hd names @ concat (map (\<lambda>n. ''/'' @ n) (tl names)), ln_msg = msg, ln_err = err\<rparr>"

lemmas log_defs = Infof_def Warningf_def Errorf_def Debugf_def Logger_Info_def Logger_Error_def Logger_V_def
  Logger_Enabled_def WithVInfo_def named_line_def

text \<open>A logger made by \<open>NewKLogr\<close> puts the given names, joined by slashes, before every line.
  It writes errors at every verbosity, information and warnings at every verbosity that is
  not negative, and debugging lines exactly from verbosity 5 on.\<close>

lemma logger_names_and_levels:
  assumes "n \<noteq> []" and "g = WithVInfo 0 (NewKLogr (n # names))"
  shows "Errorf L g f as s = write_line (named_line (n # names) True ''error'' (Some (Sprintf L True f as))) s \<and>
     Infof L g f as s = (if 0 \<le>s ls_verbosity s then write_line (named_line (n # names) False (Sprintf L False f as) None) s else s) \<and>
     Warningf L g f as s = Infof L g f as s \<and>
     Debugf L g f as s = (if 5 \<le>s ls_verbosity s then write_line (named_line (n # names) False (Sprintf L False f as) None) s else s)"
  unfolding assms(2) NewKLogr_named [OF assms(1)] log_defs by (simp add: word_sle_eq word_sless_alt)

text \<open>The log call of the provider ID controller for a failed lookup of the VM.\<close>

definition log_failed_lookup :: "fmt_lib \<Rightarrow> KLogr \<Rightarrow> gerr \<Rightarrow> log_state \<Rightarrow> log_state" where
  "log_failed_lookup L g errMsg = Errorf L g (error_string errMsg) []"

text \<open>C40: The provider ID controller uses the text of an error as a format: a text without a
  percent sign is logged as it is, and a text whose first percent sign starts an ordinary
  directive, as in an encoded URL, is logged as something else.\<close>

theorem error_text_used_as_format:
  assumes "log_failed_lookup L g e s = s'"
  shows "\<exists>text. ln_err (last (ls_lines s')) = Some text \<and> (CHR ''%'' \<notin> set (error_string e) \<longrightarrow> text = error_string e) \<and>
     (\<forall>p r. error_string e = p @ CHR ''%'' # r \<and> CHR ''%'' \<notin> set p \<and> ordinary_verb (snd (directive r)) \<longrightarrow> text \<noteq> error_string e)"
  using Sprintf_directive_changed [of _ L True]
  by (auto simp: assms [symmetric] log_failed_lookup_def log_defs write_line_def Sprintf_text Sprintf_literal
      simp del: Sprintf.simps)

theorem logger_names_and_levels_witness:
  "Infof L (WithVInfo 0 (NewKLogr [''controllers'', ''node''])) ''Reconciling node %s'' [StringArg ''n1'']
     \<lparr>ls_verbosity = 2, ls_lines = []\<rparr> =
   \<lparr>ls_verbosity = 2, ls_lines = [\<lparr>ln_is_error = False, ln_depth = 3, ln_prefix = ''controllers/node'',
     ln_msg = ''Reconciling node n1'', ln_err = None\<rparr>]\<rparr>"
proof -
  have "Sprintf L False ''Reconciling node %s'' [StringArg ''n1''] = ''Reconciling node n1''"
    by (simp add: indexed_def printArg_def extra_args_def)
  with logger_names_and_levels [where n = "''controllers''" and names = "[''node'']" and L = L and f = "''Reconciling node %s''"
      and as = "[StringArg ''n1'']" and s = "\<lparr>ls_verbosity = 2, ls_lines = []\<rparr>", OF _ refl]
  show ?thesis by (simp add: named_line_def write_line_def word_sle_eq del: Sprintf.simps)
qed

lemma is_decimal_3: "is_decimal CHR ''3''" "\<not> is_flag CHR ''3''" "\<not> is_decimal CHR ''D''"
  by (simp_all add: is_decimal_def is_flag_def)

lemma demo_url_text: "Sprintf L w ''name%3Dm1'' [] = ''name%!D(MISSING)m1''"
  by (simp add: directive_def is_decimal_3 indexed_def extra_args_def)

text \<open>The operands and directives of the example are the ordinary ones.\<close>

definition demo_fmt :: fmt_lib where
  "demo_fmt = \<lparr>fmt_directive = (\<lambda>spec v a. arg_text a), fmt_type = (\<lambda>a. ''string''),
     fmt_indexed = (\<lambda>r args. r)\<rparr>"

theorem error_text_used_as_format_witness:
  "\<exists>text. ln_err (last (ls_lines (log_failed_lookup demo_fmt (NewKLogr [''controllers'', ''providerID''])
       (ErrorString (''GET /vms?search=name'' @ CHR ''%'' # ''3Dm1 failed'')) \<lparr>ls_verbosity = 0, ls_lines = []\<rparr>))) = Some text \<and>
     text \<noteq> ''GET /vms?search=name'' @ CHR ''%'' # ''3Dm1 failed''"
proof -
  let ?p = "''GET /vms?search=name''" and ?r = "''3Dm1 failed''"
  have p: "CHR ''%'' \<notin> set ?p" by simp
  have r: "ordinary_verb (snd (directive ?r))"
    by (simp add: directive_def is_decimal_3 ordinary_verb_def indexed_def)
  obtain out where t: "ln_err (last (ls_lines (log_failed_lookup demo_fmt (NewKLogr [''controllers'', ''providerID''])
       (ErrorString (?p @ CHR ''%'' # ?r)) \<lparr>ls_verbosity = 0, ls_lines = []\<rparr>))) = Some out"
    and all: "\<forall>p r. error_string (ErrorString (?p @ CHR ''%'' # ?r)) = p @ CHR ''%'' # r \<and> CHR ''%'' \<notin> set p \<and>
       ordinary_verb (snd (directive r)) \<longrightarrow> out \<noteq> error_string (ErrorString (?p @ CHR ''%'' # ?r))"
    using error_text_used_as_format [OF refl] by blast
  from all [rule_format, of ?p ?r] p r have "out \<noteq> ?p @ CHR ''%'' # ?r" by (simp only: error_string.simps simp_thms)
  with t show ?thesis by blast
qed

end
