(* ===== verification/Spec2Isabelle.thy ===== *)
theory Spec2Isabelle
  imports Process Client_Lock Type_Safety Work_Queue Deep_Copy Scheme_Registration Logging
begin

text \<open>
  \<^bold>\<open>The oVirt provider of the OpenShift machine API.\<close>

  The program (\<open>cmd/manager\<close>, \<open>pkg\<close>) runs in a cluster and makes the virtual machines of an
  oVirt engine follow the Machine objects of the Kubernetes API. One process, \<open>main\<close>, wires
  together: the actuator (\<open>pkg/actuators/machine\<close>), called by the machine controller library
  to create, update, look up and delete the VM of a Machine; two controllers of Node objects
  (\<open>pkg/controller\<close>); a health check; and the credential service (\<open>pkg/ovirt\<close>), which watches
  a secret and hands the engine's credentials to the cached clients through which the
  other components reach the engine.

  \<^bold>\<open>How the program is modelled.\<close> Every operation of the source is a definition of the same
  name in the state-passing type \<open>go\<close> of \<open>Prelude\<close>: it returns a value, a Go error or a
  panic, together with the next state. The state of the process is the record \<open>sys\<close> of
  \<open>Services\<close>: the world outside, the Machine object in work, the cached clients (a pointer
  is an index), the listeners of the credential service, the recorded events, and a ghost
  log of the calls to the outside with their outcome, on which ordering is stated. Integers
  keep their width (\<open>32 word\<close>, \<open>64 word\<close>); strings are lists of bytes; errors are chains of
  the datatype \<open>gerr\<close>; a nil pointer is \<open>None\<close>, and following it panics. All functions are
  total: loops are structural or carry a termination proof (\<open>duration_loop\<close>, \<open>parse_args\<close>),
  no fuel is used.

  \<^bold>\<open>Theories, in the order of the code.\<close>
  \<^item> \<open>Prelude\<close>, \<open>Go_Lib\<close>, \<open>Go_Net\<close>: effects and errors; what the program uses of Go's standard
    library (decimal printing, string search, \<open>ParseBool\<close>, IP address parsing and printing)
    and of the error helpers of the oVirt client.
  \<^item> \<open>VM_Params\<close>: the parameter builders of the oVirt client (\<open>vm.go\<close>, \<open>disk.go\<close>), with their
    panics.
  \<^item> \<open>Provider_API\<close>: \<open>types.go\<close> and the conversions of \<open>register.go\<close>; \<open>Scheme_Registration\<close>:
    the registration of the types; \<open>Deep_Copy\<close>: \<open>zz_generated.deepcopy.go\<close> on an explicit heap.
  \<^item> \<open>Credentials\<close>: \<open>credentials.go\<close>. \<open>Services\<close>: the interfaces to the engine, the API server
    and the file system, and the state. \<open>Call_Log\<close> and \<open>Protocol\<close>: reasoning on the log.
  \<^item> \<open>Validations\<close>: \<open>validations.go\<close>. \<open>VM_Request\<close>: the request \<open>create\<close> builds from a spec.
    \<open>Machine_Create\<close> and \<open>Machine_Reconcile\<close>: the other parts of \<open>machine.go\<close>; \<open>VM_Lifecycle\<close>,
    \<open>Create_Correct\<close> and \<open>Reconcile_Correct\<close> prove them correct. \<open>Actuator\<close>: \<open>actuator.go\<close>.
  \<^item> \<open>Cached_Client\<close>: \<open>cachedClient.go\<close> and \<open>clientCreateFunc.go\<close>. \<open>Client_Service\<close>: the
    listeners and the update loop of \<open>clientService.go\<close>, and \<open>file.go\<close>. \<open>Service_Run\<close>: its
    goroutines (\<open>NewClientService\<close>'s event handlers, \<open>Run\<close>, the loop, \<open>Shutdown\<close>), with each
    listener's \<open>SetCredentials\<close> a step of its own.
  \<^item> \<open>Controllers\<close>: \<open>baseController.go\<close>, \<open>nodeController.go\<close>, \<open>providerIDController.go\<close>.
  \<^item> \<open>Flag_Parsing\<close>: the flags of \<open>main.go\<close> with the parser behind them. \<open>Manager\<close>: options,
    health check, \<open>setupManager\<close> and the wiring. \<open>Program\<close>: the handlers of the running process
    as events, the states reached by handlers one after the other, and \<open>main\<close>.
  \<^item> \<open>Client_Lock\<close>: the statements of the cached client's operations, run by concurrent
    goroutines under its lock. \<open>Process\<close>: the running process, with the credential service's
    goroutines, the components' requests for clients and all other activity interleaved.
    \<open>Type_Safety\<close>: a typing judgement for the
    handlers, and that they do not panic.
  \<^item> \<open>Machine_Controller\<close>: \<open>Reconcile\<close> of the machine controller of machine-api-operator, which
    \<open>main\<close> runs with the actuator; \<open>Machine_Controller_Correct\<close>: what the two together
    guarantee of a Machine's VM. \<open>Work_Queue\<close>: what the work queue of controller-runtime does
    with the outcome of a request, and what follows for the three controllers.
  \<^item> \<open>Logging\<close>: \<open>logr.go\<close>, with the formatting and the logging libraries behind it. This
    theory: properties across components.
  \<^item> \<open>Example_World\<close>: a small engine and API server for the examples.

  \<^bold>\<open>What the lemmas show.\<close> Each operation has lemmas of the same few kinds, collected for the
  automation: \<open>emits\<close> (which calls it can make), \<open>preserves\<close> and \<open>keeps\<close> (which parts of the
  state, which invariants), \<open>follows\<close> (its calls are accepted by a protocol, a step relation on
  phases), \<open>no_crash\<close> (it cannot panic), \<open>reports\<close> (how it ends in events). On them rest:
  the life cycle of a created and of a deleted VM; the request as a function of the spec,
  field by field; the written Machine; validation as an equivalence with a list of
  requirements; the freshness of every cached client in every reachable state of the
  process; the division of duties between the handlers; the refinement of the sequential
  update loop by the concurrent service, and when its shutdown is graceful; that in
  the interleaved process the components are told of new credentials in turn, get clients
  made from delivered secrets only, and catch up with the newest one; what a secret's keys
  make of the engine's client; that the lock makes the operations of a cached client atomic
  and free of deadlock; that no handler panics; when a Machine's finalizer goes, when a VM is
  made for it, and which failure ends its reconciliation for good; that a deleted Machine is
  never dropped by the queue before its finalizer is gone, and that a working engine and API
  server get it there in one reconciliation; what is printed for an error's text used as a
  format; round trips of status conversions and of the command line; deep copies that share
  nothing with their original; and the exit status of the process.

  \<^bold>\<open>Interfaces.\<close> \<open>ovirt_client_source\<close> and \<open>credential_updatable\<close> (\<open>Cached_Client\<close>) are the
  contracts of a cached client towards its owner and towards the service, interpreted on
  \<open>Get\<close> and \<open>SetCredentials\<close>; \<open>reconciler\<close> (\<open>Controllers\<close>) is the contract of a Node
  controller, interpreted on both; \<open>heap_value\<close> (\<open>Deep_Copy\<close>) says which cells a stored value
  depends on, interpreted on pointers, slices and slices of pointers. \<open>process_invariant\<close>
  (\<open>Program\<close>) is the contract of an invariant of the process's shared state, interpreted on
  \<open>running\<close>, with and without the credentials held, and on being reached by the steps of
  \<open>Process\<close>; it carries each of them through every handler and through the machine
  controller, and so shows that these are runs of the interleaved steps. \<open>typed_process\<close> (\<open>Type_Safety\<close>) extends it to
  states in which every cached client gives typed clients only, interpreted on \<open>typed_state\<close>.

  \<^bold>\<open>Parameters.\<close> The engine's client and the API server's client are records of functions on an
  arbitrary world: each call may fail or answer anything and may change the world, and in
  \<open>Program\<close> the world may also change between two events, so the theorems hold for every
  behaviour of the services and of other actors. Also parameters: the JSON and YAML codecs,
  the order in which Go walks a map, the manager library, the flags of other packages, the
  floating point product in \<open>ParseDuration\<close>, the copy of the library's \<open>ObjectMeta\<close>, and what
  the scheme library adds to every group version; for the machine controller the draining of
  a node, the rewriting of a provider status and the text of its validation errors.

  \<^bold>\<open>What is one step.\<close> In the theories of single operations an operation runs alone, but the
  world may answer every call as it likes. In \<open>Process\<close> each \<open>Get\<close> and each \<open>SetCredentials\<close> on a
  cached client is one step, which \<open>Client_Lock\<close> justifies for the statements under the lock;
  so is the storing of a CA bundle, which touches a new file only. Between two such steps
  everything else may happen, so a handler is a run of many steps there. \<open>program_reachable\<close>
  in \<open>Program\<close>, on which \<open>Type_Safety\<close> rests, has whole handlers as its steps.

  \<^bold>\<open>Not modelled.\<close> The calls of the logger, apart from the one \<open>Logging\<close> is about: no result
  depends on them. The inside of client-go's informer and of the manager's work queues (the
  waiting and the rate limiter), beyond the interface the program sees. Conditions, timestamps and metrics of the machine controller.
  Metadata of the API objects apart from what the program reads or writes. Tests, tools,
  manifests and the rest of the vendored code.
\<close>

section \<open>Properties that span components\<close>

lemma demo_program_start:
  obtains wd s where "program_reachable demo_env demo_manager_lib flag_defaults wd s"
    and "world s = \<lparr>dw_vm = None, dw_node = None\<rparr>"
proof -
  obtain wd s where run: "main_setup demo_manager_lib flag_defaults (demo_sys None None) = (Val wd, s)"
    using demo_main_setup by blast
  have "program_reachable demo_env demo_manager_lib flag_defaults wd s"
    by (rule program_reachable.started [OF run]) (simp_all add: demo_sys_def)
  then have "program_reachable demo_env demo_manager_lib flag_defaults wd
      (s\<lparr>world := \<lparr>dw_vm = None, dw_node = None\<rparr>\<rparr>)" by (rule program_reachable.outside)
  with that show thesis by simp
qed

text \<open>C3: in every state the process can reach, after any sequence of requests, probes and
  credential events, each of the four components owns a cached client of its own; asking
  it for a client gives one built from the credentials it holds, or an error, never a panic.\<close>

theorem every_component_gets_current_clients:
  assumes "program_reachable E L flags wd s"
    and "i \<in> owners wd"
    and "Get E i s = (r, s')"
  shows "case r of Val C \<Rightarrow> current_client E i s' C | Fail e \<Rightarrow> True | Crash p \<Rightarrow> False"
proof -
  from program_invariant [OF assms(1)] assms(2) have "running E s" and "i < 4"
    by (auto simp: wiring_def owners_def)
  then have "cache_ready E i s" by (rule running_ready)
  from this assms(3) show ?thesis by (rule cached.get_cases) simp_all
qed

theorem every_component_gets_current_clients_witness:
  "\<exists>wd s r s'. program_reachable demo_env demo_manager_lib flag_defaults wd s \<and>
     Get demo_env (wd_healthz wd) s = (r, s') \<and> (\<forall>p. r \<noteq> Crash p)"
proof -
  obtain wd s where reach: "program_reachable demo_env demo_manager_lib flag_defaults wd s"
    using demo_program_start by blast
  obtain r s' where run: "Get demo_env (wd_healthz wd) s = (r, s')" by fastforce
  from every_component_gets_current_clients [OF reach _ run] reach run show ?thesis
    by (fastforce simp: owners_def)
qed

text \<open>C4: each handler changes only what it is for: VMs are created and configured by the creation
  of a Machine only, stopped and removed by the deletion of a Machine only, Nodes are
  deleted by the node controller only and updated by the provider ID controller only, and
  Machines are written by the actuator only.\<close>

theorem handlers_change_only_their_objects:
  "\<exists>new. calls (snd (handle E wd ev s)) = calls s @ new \<and> list_all (\<lambda>e. permitted ev (fst e)) new"
  using emitsD [OF emits_handle prod.collapse [symmetric]] by (simp add: list_all_iff)

text \<open>C29: the provider ID the provider ID controller gives a Node is the one the actuator gives
  the Machine of the same VM, and the node controller takes the Node as its own.\<close>

theorem machine_and_node_ids_agree:
  assumes "read_node b req s node s1" and "nd_ProviderID node = []"
    and "GetoVirtClient E b s1 = (Val C, s2)"
    and "GetVMByName C (nd_Name node) s2 = (Val (Some v, None), s3)" and "vm_id v \<noteq> []"
    and "reconcileMachineProviderID (vm_id v) t = (x, t')"
  shows "\<exists>node' ok. (UpdateNodeCall node', ok) \<in> set (calls (snd (providerID_Reconcile E b req s))) \<and>
    mc_ProviderID (machine t') = Some (nd_ProviderID node') \<and>
    contains (nd_ProviderID node') ProviderIDPrefix"
proof -
  let ?node = "node\<lparr>nd_ProviderID := ProviderIDPrefix @ vm_id v\<rparr>"
  obtain u w where u: "kc_UpdateNode (bc_Client b) ?node (world s3) = (u, w)" by fastforce
  have "\<exists>ok. (UpdateNodeCall ?node, ok) \<in> set (calls (snd (providerID_Reconcile E b req s)))"
    using assms(1-5) u
    by (cases u) (auto simp: read_node_def providerID_Reconcile_def fetchOvirtVmID_def Let_def)
  moreover have "mc_ProviderID (machine t') = Some (nd_ProviderID ?node)"
    using assms(6) by (auto simp: reconcileMachineProviderID_def set_machine_def)
  ultimately show ?thesis using contains_prefix by fastforce
qed

theorem machine_and_node_ids_agree_witness:
  "\<exists>node' ok. (UpdateNodeCall node', ok) \<in> set (calls (snd (providerID_Reconcile demo_env demo_base ''m1''
       (demo_after [] (Some (demo_vm ''m1'')) (Some demo_new_node))))) \<and>
    mc_ProviderID (machine (snd (reconcileMachineProviderID ''id1'' (demo_sys None None)))) =
      Some (nd_ProviderID node')"
proof -
  let ?v = "demo_vm ''m1''"
  have rd: "read_node demo_base ''m1'' (demo_after [] (Some ?v) (Some demo_new_node)) demo_new_node
      (demo_after [(GetNodeCall ''m1'', True)] (Some ?v) (Some demo_new_node))"
    using demo_read_node [of demo_new_node "''m1''" demo_base "[]"] by (simp add: demo_new_node_def)
  have gc: "GetoVirtClient demo_env demo_base (demo_after [(GetNodeCall ''m1'', True)] (Some ?v) (Some demo_new_node)) =
      (Val demo_engine, demo_after [(GetNodeCall ''m1'', True), (TestCall, True)] (Some ?v) (Some demo_new_node))"
    by (simp add: demo_runs)
  have gv: "GetVMByName demo_engine (nd_Name demo_new_node)
      (demo_after [(GetNodeCall ''m1'', True), (TestCall, True)] (Some ?v) (Some demo_new_node)) =
      (Val (Some ?v, None), demo_after [(GetNodeCall ''m1'', True), (TestCall, True), (GetVMByNameCall ''m1'', True)]
         (Some ?v) (Some demo_new_node))"
    by (simp add: demo_runs demo_new_node_def demo_GetVMByName_def demo_vm_def)
  have "vm_id ?v \<noteq> []" and id: "vm_id ?v = ''id1''" by (simp_all add: demo_vm_def)
  from machine_and_node_ids_agree [OF rd _ gc gv this(1) prod.collapse [symmetric], of "demo_sys None None"]
  show ?thesis by (auto simp: demo_new_node_def id simp del: demo_clients)
qed

end
